(* ===== verification/Prelude.thy ===== *)
theory Prelude imports
  Complex_Main
  "HOL-Library.Word"
  "HOL-Library.Log_Nat"
  "HOL-Library.Char_ord"
  "HOL-Library.List_Lexorder"
begin

text \<open>
  What the component theories share: the C++ integer widths, the laws of the small
  helpers that several components use (clamping on words, the last elements of a list, the first
  failing check), the collections of simplification rules, and two interfaces stated as locales:
  a \<open>codec\<close> (a printer with its parser) and a \<open>machine\<close> (a deterministic step function with an
  invariant).
\<close>

unbundle bit_operations_syntax

type_synonym u8 = "8 word"
type_synonym u32 = "32 word"
type_synonym u64 = "64 word"
type_synonym i32 = "32 word"

section \<open>Unsigned 64-bit arithmetic\<close>

text \<open>The idiom \<open>a >= b ? a - b : 0\<close> of the source, which keeps unsigned differences from wrapping.\<close>

definition monus :: "u64 \<Rightarrow> u64 \<Rightarrow> u64" where
  "monus a b = (if b \<le> a then a - b else 0)"

lemma unat_monus: "unat (monus a b) = unat a - unat b"
  by (simp add: monus_def unat_sub word_le_nat_alt)

lemma monus_le: "monus a b \<le> a"
  by (simp add: word_le_nat_alt unat_monus)

lemma monus_strict: "(if b < a then a - b else 0) = monus a b"
  by (auto simp: monus_def)

lemma unat_plus_no_wrap:
  "unat a + unat b < 2 ^ 64 \<Longrightarrow> unat ((a::u64) + b) = unat a + unat b"
  by (simp add: unat_word_ariths)

lemma u64_div_le: "(a::u64) div b \<le> a"
  by (simp add: word_le_nat_alt unat_div div_le_dividend)

section \<open>Lists\<close>

definition take_last :: "nat \<Rightarrow> 'a list \<Rightarrow> 'a list" where
  "take_last n xs = drop (length xs - n) xs"

lemma length_take_last [simp]: "length (take_last n xs) = min n (length xs)"
  by (simp add: take_last_def)

lemma take_last_all [simp]: "length xs \<le> n \<Longrightarrow> take_last n xs = xs"
  by (simp add: take_last_def)

lemma set_take_last: "set (take_last n xs) \<subseteq> set xs"
  by (simp add: take_last_def set_drop_subset)

lemma take_last_append:
  "length ys \<le> n \<Longrightarrow> take_last n (xs @ ys) = take_last (n - length ys) xs @ ys"
  by (cases "length ys = n") (auto simp: take_last_def)

lemma take_last_snoc: "0 < n \<Longrightarrow> take_last n (xs @ [x]) = take_last (n - 1) xs @ [x]"
  by (simp add: take_last_append)

lemma take_last_take_last: "take_last n (take_last m xs) = take_last (min n m) xs"
  unfolding take_last_def length_drop drop_drop by (rule arg_cong [of _ _ "\<lambda>k. drop k xs"]) arith

lemma map_take_last: "map f (take_last m xs) = take_last m (map f xs)"
  by (simp add: take_last_def drop_map)

lemma take_last_absorb: "n \<le> m \<Longrightarrow> take_last n (take_last m xs @ ys) = take_last n (xs @ ys)"
proof -
  assume "n \<le> m"
  show ?thesis
  proof (cases "n \<le> length ys")
    case True
    then show ?thesis by (simp add: take_last_def)
  next
    case False
    with \<open>n \<le> m\<close> have "min (n - length ys) m = n - length ys" by simp
    with False show ?thesis by (simp add: take_last_append take_last_take_last)
  qed
qed

lemma dropWhile_Cons_hd: "dropWhile P xs = y # ys \<Longrightarrow> \<not> P y"
  by (metis hd_dropWhile list.distinct(1) list.sel(1))

lemma sorted_dropWhile_all:
  assumes "sorted (map f xs)" and "\<And>a b. f a \<le> f b \<Longrightarrow> P b \<Longrightarrow> P a"
  shows "x \<in> set (dropWhile P xs) \<Longrightarrow> \<not> P x"
  using assms by (induction xs) (auto split: if_splits)

section \<open>Validation: the first failing check\<close>

text \<open>
  A validator of the source is a sequence of \<open>if (bad) return "message";\<close>. It is modelled as the
  list of its checks, in order; the first one that fires gives the message.
\<close>

fun first_problem :: "(bool \<times> string) list \<Rightarrow> string option" where
  "first_problem [] = None"
| "first_problem ((bad, msg) # cs) = (if bad then Some msg else first_problem cs)"

lemma first_problem_None [simp]: "first_problem cs = None \<longleftrightarrow> (\<forall>(bad, msg) \<in> set cs. \<not> bad)"
  by (induction cs rule: first_problem.induct) auto

section \<open>Codecs\<close>

text \<open>
  An enumeration of the source comes with a printer \<open>to_string\<close> and a parser \<open>..._from_string\<close>.
  The contract of such a pair is that the parser undoes the printer on the values \<open>ok\<close>.
\<close>

locale codec =
  fixes enc :: "'a \<Rightarrow> 'b" and dec :: "'b \<Rightarrow> 'a option" and ok :: "'a \<Rightarrow> bool"
  assumes dec_enc: "ok x \<Longrightarrow> dec (enc x) = Some x"
begin

lemma enc_inject: "ok x \<Longrightarrow> ok y \<Longrightarrow> enc x = enc y \<longleftrightarrow> x = y"
  using dec_enc by (metis option.inject)

lemma dec_map_enc: "\<forall>x \<in> set xs. ok x \<Longrightarrow> map (\<lambda>x. dec (enc x)) xs = map Some xs"
  by (induction xs) (auto simp: dec_enc)

end

text \<open>A codec is canonical when the parser accepts only what the printer writes.\<close>

locale canonical_codec = codec enc dec ok
  for enc :: "'a \<Rightarrow> 'b" and dec :: "'b \<Rightarrow> 'a option" and ok :: "'a \<Rightarrow> bool" +
  assumes dec_ok: "dec s = Some x \<Longrightarrow> ok x \<and> enc x = s"
begin

lemma dec_iff: "dec s = Some x \<longleftrightarrow> ok x \<and> enc x = s"
  using dec_ok dec_enc by auto

lemma dec_None: "dec s = None \<longleftrightarrow> (\<forall>x. ok x \<longrightarrow> enc x \<noteq> s)"
  by (metis dec_iff not_None_eq)

end

section \<open>Deterministic machines with an invariant\<close>

text \<open>
  A component with state is a step function. An invariant that every step keeps holds after any
  sequence of steps; \<open>good\<close> restricts the inputs where the code's callers do.
\<close>

locale machine =
  fixes step :: "'i \<Rightarrow> 's \<Rightarrow> 's" and inv :: "'s \<Rightarrow> bool" and good :: "'i \<Rightarrow> bool"
  assumes step_inv: "inv s \<Longrightarrow> good i \<Longrightarrow> inv (step i s)"
begin

lemma run_inv: "inv s \<Longrightarrow> \<forall>i \<in> set is. good i \<Longrightarrow> inv (fold step is s)"
  by (induction "is" arbitrary: s) (auto intro: step_inv)

end

end
