(* ===== verification/Doubles.thy ===== *)
theory Doubles imports Prelude begin

text \<open>
  The C++ \<open>double\<close>: IEEE-754 binary64 with rounding to nearest, ties to even, as an executable
  definition over the rationals. A finite double is the rational it denotes, so every operation is
  the exact rational operation followed by the rounding \<open>fl\<close>. The two zeros are one value
  here: the source never tells them apart (it compares, and divides only by values that it has
  checked to be positive). The laws that the components use (monotony, fixed points) are
  the locale \<open>rounding\<close>, interpreted on binary64 at the end of the first section.
\<close>

section \<open>Rounding a rational to binary64\<close>

definition pow2 :: "int \<Rightarrow> rat" where
  "pow2 e = (if 0 \<le> e then 2 ^ nat e else 1 / 2 ^ nat (- e))"

text \<open>The binary exponent of a positive rational: \<open>pow2 (ilog2 x) \<le> x < pow2 (ilog2 x + 1)\<close>.\<close>

definition ilog2 :: "rat \<Rightarrow> int" where
  "ilog2 x = (if 1 \<le> x then bitlen \<lfloor>x\<rfloor> - 1 else - bitlen (\<lceil>1 / x\<rceil> - 1))"

text \<open>The exponent of the last place: 53 significant bits, and never below the subnormal \<open>2^-1074\<close>.\<close>

definition qexp :: "rat \<Rightarrow> int" where
  "qexp x = max (ilog2 x - 52) (- 1074)"

text \<open>Round half to even.\<close>

definition rne :: "rat \<Rightarrow> int" where
  "rne y = (let f = \<lfloor>y\<rfloor>; d = y - of_int f in
     if d < 1/2 then f else if 1/2 < d then f + 1 else if even f then f else f + 1)"

definition rnd_pos :: "rat \<Rightarrow> rat" where
  "rnd_pos x = of_int (rne (x / pow2 (qexp x))) * pow2 (qexp x)"

definition rnd64 :: "rat \<Rightarrow> rat" where
  "rnd64 x = (if x = 0 then 0 else if 0 < x then rnd_pos x else - rnd_pos (- x))"

definition representable :: "rat \<Rightarrow> bool" where
  "representable r \<longleftrightarrow> (\<exists>m e. \<bar>m\<bar> \<le> 2 ^ 53 \<and> - 1074 \<le> e \<and> r = of_int m * pow2 e)"

subsection \<open>Powers of two\<close>

lemma pow2_powi: "pow2 e = 2 powi e"
  by (simp add: pow2_def power_int_def inverse_eq_divide power_one_over)

lemma pow2_pos [simp]: "0 < pow2 e" and pow2_nonneg [simp]: "0 \<le> pow2 e" and pow2_nz [simp]: "pow2 e \<noteq> 0"
  by (simp_all add: pow2_powi)

lemma pow2_add: "pow2 (a + b) = pow2 a * pow2 b"
  by (simp add: pow2_powi power_int_add)

lemma pow2_diff: "pow2 (a - b) = pow2 a / pow2 b"
  by (simp add: pow2_powi power_int_diff)

lemma pow2_nat: "0 \<le> e \<Longrightarrow> pow2 e = of_int (2 ^ nat e)"
  by (simp add: pow2_def)

lemma pow2_0 [simp]: "pow2 0 = 1" and pow2_1 [simp]: "pow2 1 = 2"
  by (simp_all add: pow2_def)

lemma pow2_mono: "a \<le> b \<Longrightarrow> pow2 a \<le> pow2 b"
  by (simp add: pow2_powi power_int_increasing)

lemma pow2_less_iff: "pow2 a < pow2 b \<longleftrightarrow> a < b"
proof (cases "a < b")
  case True
  then show ?thesis by (simp add: pow2_powi power_int_strict_increasing)
next
  case False
  then have "pow2 b \<le> pow2 a" by (simp add: pow2_mono)
  with False show ?thesis by simp
qed

lemma pow2_le_iff: "pow2 a \<le> pow2 b \<longleftrightarrow> a \<le> b"
  by (meson linorder_not_le pow2_less_iff)

subsection \<open>The binary exponent\<close>

lemma bitlen_le: "0 < z \<Longrightarrow> (2::int) ^ nat (bitlen z - 1) \<le> z" and bitlen_less: "0 < z \<Longrightarrow> z < 2 ^ nat (bitlen z)"
  using bitlen_bounds by auto

lemma bitlen_pos: "0 < z \<Longrightarrow> 0 < bitlen z"
  using bitlen_nonneg [of z] bitlen_eq_zero_iff [of z] by linarith

lemma ilog2_big: assumes "1 \<le> x" shows "pow2 (ilog2 x) \<le> x" and "x < pow2 (ilog2 x + 1)"
proof -
  have z: "0 < \<lfloor>x\<rfloor>" using assms by linarith
  have b: "0 < bitlen \<lfloor>x\<rfloor>" using z by (rule bitlen_pos)
  have i: "ilog2 x = bitlen \<lfloor>x\<rfloor> - 1" using assms by (simp add: ilog2_def)
  have "pow2 (ilog2 x) = of_int (2 ^ nat (bitlen \<lfloor>x\<rfloor> - 1))" using b i by (simp add: pow2_nat)
  also have "\<dots> \<le> of_int \<lfloor>x\<rfloor>" using bitlen_le [OF z] by (simp only: of_int_le_iff)
  finally show "pow2 (ilog2 x) \<le> x" by linarith
  have "\<lfloor>x\<rfloor> + 1 \<le> 2 ^ nat (bitlen \<lfloor>x\<rfloor>)" using bitlen_less [OF z] by simp
  then have "of_int (\<lfloor>x\<rfloor> + 1) \<le> (of_int (2 ^ nat (bitlen \<lfloor>x\<rfloor>)) :: rat)" by (simp only: of_int_le_iff)
  also have "\<dots> = pow2 (ilog2 x + 1)" using b i by (simp add: pow2_nat)
  finally show "x < pow2 (ilog2 x + 1)" by linarith
qed

lemma ilog2_small: assumes "0 < x" "x < 1" shows "pow2 (ilog2 x) \<le> x" and "x < pow2 (ilog2 x + 1)"
proof -
  define c where "c = \<lceil>1 / x\<rceil>"
  define b where "b = bitlen (c - 1)"
  have x1: "1 < 1 / x" using assms by simp
  have z: "0 < c - 1" using x1 unfolding c_def by linarith
  have b: "0 < b" using bitlen_pos [OF z] by (simp add: b_def)
  have i: "ilog2 x = - b" using assms by (simp add: ilog2_def b_def c_def)
  have "c \<le> 2 ^ nat b" using bitlen_less [OF z] by (simp add: b_def)
  then have "of_int c \<le> (of_int (2 ^ nat b) :: rat)" by (simp only: of_int_le_iff)
  then have "1 / x \<le> pow2 b" using b unfolding c_def by (simp add: pow2_nat ceiling_le_iff)
  then have "1 \<le> pow2 b * x" using assms by (simp add: divide_le_eq)
  then show "pow2 (ilog2 x) \<le> x" unfolding i pow2_powi power_int_minus
    by (simp add: field_simps flip: pow2_powi)
  have "(of_int (2 ^ nat (b - 1)) :: rat) \<le> of_int (c - 1)"
    using bitlen_le [OF z] unfolding b_def by (simp only: of_int_le_iff)
  also have "\<dots> < 1 / x" unfolding c_def by linarith
  finally have "pow2 (b - 1) < 1 / x" using b by (simp add: pow2_nat)
  then have "pow2 (b - 1) * x < 1" using assms by (simp add: less_divide_eq)
  moreover have "pow2 (ilog2 x + 1) = 1 / pow2 (b - 1)"
    using pow2_diff [of 0 "b - 1"] by (simp add: i)
  ultimately show "x < pow2 (ilog2 x + 1)" by (simp add: less_divide_eq mult.commute)
qed

lemma ilog2_bounds: "0 < x \<Longrightarrow> pow2 (ilog2 x) \<le> x \<and> x < pow2 (ilog2 x + 1)"
  using ilog2_big ilog2_small by (cases "1 \<le> x") auto

lemma ilog2_mono: assumes "0 < x" "x \<le> y" shows "ilog2 x \<le> ilog2 y"
proof -
  have "pow2 (ilog2 x) < pow2 (ilog2 y + 1)"
    using ilog2_bounds [of x] ilog2_bounds [of y] assms by linarith
  then show ?thesis by (simp add: pow2_less_iff)
qed

lemma ilog2_less_pow2: "0 < x \<Longrightarrow> x < pow2 e \<Longrightarrow> ilog2 x < e"
  using ilog2_bounds [of x] pow2_less_iff by (metis le_less_trans)

subsection \<open>Rounding to an integer, and to a multiple of a quantum\<close>

lemma rne_of_int [simp]: "rne (of_int n) = n"
  by (simp add: rne_def)

lemma rne_0 [simp]: "rne 0 = 0"
  using rne_of_int [of 0] by simp

lemma rne_floor: "\<lfloor>y\<rfloor> \<le> rne y" "rne y \<le> \<lfloor>y\<rfloor> + 1"
  by (simp_all add: rne_def Let_def)

lemma rne_mono: assumes "y \<le> z" shows "rne y \<le> rne z"
proof (cases "\<lfloor>y\<rfloor> = \<lfloor>z\<rfloor>")
  case True
  with assms show ?thesis by (simp add: rne_def Let_def)
next
  case False
  with floor_mono [OF assms] have "\<lfloor>y\<rfloor> + 1 \<le> \<lfloor>z\<rfloor>" by linarith
  with rne_floor [of y] rne_floor [of z] show ?thesis by linarith
qed

definition rnd_quantum :: "int \<Rightarrow> rat \<Rightarrow> rat" where
  "rnd_quantum e x = of_int (rne (x / pow2 e)) * pow2 e"

lemma rnd_pos_quantum: "rnd_pos x = rnd_quantum (qexp x) x"
  by (simp add: rnd_pos_def rnd_quantum_def)

lemma rnd_quantum_mono: "x \<le> y \<Longrightarrow> rnd_quantum e x \<le> rnd_quantum e y"
  by (simp add: rnd_quantum_def rne_mono divide_right_mono)

lemma rnd_quantum_exact: assumes "e \<le> k" shows "rnd_quantum e (of_int m * pow2 k) = of_int m * pow2 k"
proof -
  have "of_int m * pow2 k / pow2 e = of_int (m * 2 ^ nat (k - e))"
    using assms by (simp add: pow2_nat flip: pow2_diff times_divide_eq_right)
  then have "rne (of_int m * pow2 k / pow2 e) = m * 2 ^ nat (k - e)" by (simp only: rne_of_int)
  then have "rnd_quantum e (of_int m * pow2 k) = of_int m * (of_int (2 ^ nat (k - e)) * pow2 e)"
    by (simp add: rnd_quantum_def)
  also have "\<dots> = of_int m * (pow2 (k - e) * pow2 e)" using assms by (simp add: pow2_nat)
  finally show ?thesis by (simp add: pow2_diff)
qed

lemma rnd_quantum_pow2: "e \<le> k \<Longrightarrow> rnd_quantum e (pow2 k) = pow2 k"
  using rnd_quantum_exact [of e k 1] by simp

lemma qexp_mono: "0 < x \<Longrightarrow> x \<le> y \<Longrightarrow> qexp x \<le> qexp y"
  using ilog2_mono [of x y] by (simp add: qexp_def)

lemma rnd_pos_mono: assumes "0 < x" "x \<le> y" shows "rnd_pos x \<le> rnd_pos y"
proof (cases "qexp x = qexp y")
  case True
  with assms show ?thesis by (simp add: rnd_pos_quantum rnd_quantum_mono)
next
  case False
  with qexp_mono [OF assms] have less: "qexp x < qexp y" by simp
  define k where "k = ilog2 y"
  have ky: "qexp y = k - 52" and kx: "ilog2 x < k" using less by (auto simp: qexp_def k_def)
  have "x \<le> pow2 k" using ilog2_bounds [OF assms(1)] kx pow2_mono [of "ilog2 x + 1" k] by linarith
  then have "rnd_pos x \<le> rnd_quantum (qexp x) (pow2 k)" by (simp add: rnd_pos_quantum rnd_quantum_mono)
  also have "\<dots> = pow2 k" using less ky by (intro rnd_quantum_pow2) simp
  also have "\<dots> = rnd_quantum (qexp y) (pow2 k)" using ky by (simp add: rnd_quantum_pow2)
  also have "\<dots> \<le> rnd_pos y"
    using ilog2_bounds [of y] assms by (simp add: rnd_pos_quantum rnd_quantum_mono k_def)
  finally show ?thesis .
qed

lemma rnd_pos_nonneg: "0 < x \<Longrightarrow> 0 \<le> rnd_pos x"
  using rnd_quantum_mono [of 0 x "qexp x"] rnd_quantum_exact [of "qexp x" "qexp x" 0]
  by (simp add: rnd_pos_quantum)

lemma rnd_pos_exact:
  assumes r: "r = of_int m * pow2 e" and m: "m \<le> 2 ^ 53" and e: "- 1074 \<le> e" and pos: "0 < r"
  shows "rnd_pos r = r"
proof (cases "m = 2 ^ 53")
  case True
  then have r2: "r = of_int 1 * pow2 (e + 53)" using r by (simp add: pow2_add pow2_nat)
  have "ilog2 r \<le> e + 53" using ilog2_bounds [OF pos] r2 pow2_le_iff by simp
  with e have "qexp r \<le> e + 53" by (simp add: qexp_def)
  then show ?thesis unfolding rnd_pos_quantum r2 by (simp add: rnd_quantum_pow2)
next
  case False
  have "of_int m < (of_int (2 ^ 53) :: rat)" using m False by (simp only: of_int_less_iff)
  then have "r < pow2 (53 + e)" using r by (simp add: pow2_add pow2_nat)
  then have "ilog2 r < 53 + e" by (rule ilog2_less_pow2 [OF pos])
  with e have "qexp r \<le> e" by (simp add: qexp_def)
  then show ?thesis unfolding rnd_pos_quantum unfolding r by (rule rnd_quantum_exact)
qed

lemma rnd_pos_representable: assumes "0 < x" shows "representable (rnd_pos x)"
proof -
  let ?m = "rne (x / pow2 (qexp x))"
  have "ilog2 x + 1 \<le> qexp x + 53" by (simp add: qexp_def)
  then have "x < pow2 (qexp x + 53)" using ilog2_bounds [OF assms] pow2_mono by (meson less_le_trans)
  then have "x / pow2 (qexp x) \<le> of_int (2 ^ 53)"
    by (simp add: pow2_add pow2_nat divide_le_eq mult.commute)
  then have "?m \<le> 2 ^ 53" using rne_mono [of _ "of_int (2 ^ 53)"] by (metis rne_of_int)
  moreover have "0 \<le> ?m" using rne_mono [of "of_int 0" "x / pow2 (qexp x)"] assms by simp
  ultimately show ?thesis
    unfolding representable_def rnd_pos_def by (intro exI conjI) (auto simp: qexp_def)
qed

subsection \<open>What the components use of the rounding\<close>

locale rounding =
  fixes rnd :: "rat \<Rightarrow> rat"
  assumes rnd_mono: "x \<le> y \<Longrightarrow> rnd x \<le> rnd y"
    and rnd_0: "rnd 0 = 0"
    and rnd_1: "rnd 1 = 1"
    and rnd_minus: "rnd (- x) = - rnd x"
    and rnd_idem: "rnd (rnd x) = rnd x"
begin

lemma nonneg: "0 \<le> x \<Longrightarrow> 0 \<le> rnd x"
  using rnd_mono [of 0 x] by (simp add: rnd_0)

lemma le_1: "x \<le> 1 \<Longrightarrow> rnd x \<le> 1"
  using rnd_mono [of x 1] by (simp add: rnd_1)

lemma ge_1: "1 \<le> x \<Longrightarrow> 1 \<le> rnd x"
  using rnd_mono [of 1 x] by (simp add: rnd_1)

lemma le_fixed: "rnd y = y \<Longrightarrow> x \<le> y \<Longrightarrow> rnd x \<le> y"
  using rnd_mono [of x y] by simp

lemma ge_fixed: "rnd y = y \<Longrightarrow> y \<le> x \<Longrightarrow> y \<le> rnd x"
  using rnd_mono [of y x] by simp

lemma abs_le_fixed: assumes "rnd y = y" "\<bar>x\<bar> \<le> y" shows "\<bar>rnd x\<bar> \<le> y"
proof -
  have "rnd x \<le> y" "- y \<le> rnd x"
    using assms le_fixed [of y x] ge_fixed [of "- y" x] by (auto simp: rnd_minus)
  then show ?thesis by simp
qed

text \<open>A rounded quotient of rounded values stays in the unit interval.\<close>

lemma ratio_unit: assumes "0 \<le> a" "a \<le> b" shows "0 \<le> rnd (rnd a / rnd b) \<and> rnd (rnd a / rnd b) \<le> 1"
proof -
  have "0 \<le> rnd a" "rnd a \<le> rnd b" using assms by (simp_all add: nonneg rnd_mono)
  then have "0 \<le> rnd a / rnd b" "rnd a / rnd b \<le> 1" by (auto simp: divide_le_eq_1)
  then show ?thesis by (simp add: nonneg le_1)
qed

lemma ratio_ge_1: assumes "0 < b" "b \<le> a" "0 < rnd b" shows "1 \<le> rnd (rnd a / rnd b)"
  using assms by (intro ge_1) (simp add: rnd_mono le_divide_eq)

end

lemma rnd64_pos: "0 < x \<Longrightarrow> rnd64 x = rnd_pos x"
  by (simp add: rnd64_def)

lemma rnd64_minus: "rnd64 (- x) = - rnd64 x"
  by (simp add: rnd64_def)

lemma rnd64_nonneg: "0 \<le> x \<Longrightarrow> 0 \<le> rnd64 x"
  by (cases "x = 0") (simp_all add: rnd64_def rnd_pos_nonneg)

lemma rnd64_mono: assumes "x \<le> y" shows "rnd64 x \<le> rnd64 y"
proof -
  consider "0 < x" | "x \<le> 0" "0 \<le> y" | "y < 0" by linarith
  then show ?thesis
  proof cases
    case 1 with assms show ?thesis by (simp add: rnd64_pos rnd_pos_mono)
  next
    case 2 then show ?thesis
      using rnd64_nonneg [of y] rnd64_nonneg [of "- x"] by (simp add: rnd64_minus)
  next
    case 3
    then have "rnd64 (- y) \<le> rnd64 (- x)" using assms by (simp add: rnd64_pos rnd_pos_mono)
    then show ?thesis by (simp add: rnd64_minus)
  qed
qed

lemma representable_minus: "representable r \<Longrightarrow> representable (- r)"
  unfolding representable_def by (metis abs_minus_cancel mult_minus_left of_int_minus)

lemma rnd64_exact: assumes "representable r" shows "rnd64 r = r"
proof -
  have pos: "rnd64 r = r" if "representable r" "0 < r" for r
    using that rnd_pos_exact [of r] by (auto simp: representable_def rnd64_pos)
  consider "0 < r" | "r = 0" | "0 < - r" by linarith
  then show ?thesis
  proof cases
    case 1 then show ?thesis by (rule pos [OF assms])
  next
    case 2 then show ?thesis by (simp add: rnd64_def)
  next
    case 3
    then have "rnd64 (- r) = - r" by (rule pos [OF representable_minus [OF assms]])
    then show ?thesis by (simp add: rnd64_minus)
  qed
qed

lemma representable_rnd64: "representable (rnd64 x)"
proof -
  have "representable 0" unfolding representable_def by (intro exI [of _ 0]) auto
  then show ?thesis
    by (auto simp: rnd64_def rnd_pos_representable intro!: representable_minus)
qed

lemma representable_int: "\<bar>m\<bar> \<le> 2 ^ 53 \<Longrightarrow> representable (of_int m)"
  unfolding representable_def by (intro exI [of _ m] exI [of _ 0]) simp

lemma representable_pow2: "- 1074 \<le> e \<Longrightarrow> representable (pow2 e)"
  unfolding representable_def by (intro exI [of _ 1] exI [of _ e]) simp

interpretation b64: rounding rnd64
proof unfold_locales
  show "rnd64 1 = 1" using rnd64_exact [OF representable_int [of 1]] by simp
qed (simp_all add: rnd64_mono rnd64_minus rnd64_exact representable_rnd64 rnd64_def [of 0])

lemma rnd64_int: "\<bar>m\<bar> \<le> 2 ^ 53 \<Longrightarrow> rnd64 (of_int m) = of_int m"
  by (rule rnd64_exact [OF representable_int])

lemma rnd64_pow2: "- 1074 \<le> e \<Longrightarrow> rnd64 (pow2 e) = pow2 e"
  by (rule rnd64_exact [OF representable_pow2])

section \<open>Values and operations\<close>

datatype double = NaN | PosInf | NegInf | Fin rat

text \<open>The double nearest to a rational; magnitudes that round to \<open>2^1024\<close> or more overflow.\<close>

definition fl :: "rat \<Rightarrow> double" where
  "fl x = (let r = rnd64 x in
     if 2 ^ 1024 \<le> r then PosInf else if r \<le> - (2 ^ 1024) then NegInf else Fin r)"

fun dneg :: "double \<Rightarrow> double" where
  "dneg NaN = NaN"
| "dneg PosInf = NegInf"
| "dneg NegInf = PosInf"
| "dneg (Fin a) = Fin (- a)"

fun dsgn :: "double \<Rightarrow> rat" where
  "dsgn NaN = 0"
| "dsgn PosInf = 1"
| "dsgn NegInf = - 1"
| "dsgn (Fin a) = sgn a"

definition dinf :: "rat \<Rightarrow> double" where
  "dinf s = (if 0 < s then PosInf else if s < 0 then NegInf else NaN)"

fun dadd :: "double \<Rightarrow> double \<Rightarrow> double" where
  "dadd (Fin a) (Fin b) = fl (a + b)"
| "dadd NaN y = NaN"
| "dadd x NaN = NaN"
| "dadd PosInf NegInf = NaN"
| "dadd NegInf PosInf = NaN"
| "dadd PosInf y = PosInf"
| "dadd x PosInf = PosInf"
| "dadd NegInf y = NegInf"
| "dadd x NegInf = NegInf"

definition dsub :: "double \<Rightarrow> double \<Rightarrow> double" where
  "dsub x y = dadd x (dneg y)"

fun dmul :: "double \<Rightarrow> double \<Rightarrow> double" where
  "dmul (Fin a) (Fin b) = fl (a * b)"
| "dmul NaN y = NaN"
| "dmul x NaN = NaN"
| "dmul x y = dinf (dsgn x * dsgn y)"

fun ddiv :: "double \<Rightarrow> double \<Rightarrow> double" where
  "ddiv (Fin a) (Fin b) = (if b = 0 then dinf (sgn a) else fl (a / b))"
| "ddiv NaN y = NaN"
| "ddiv x NaN = NaN"
| "ddiv (Fin a) y = Fin 0"
| "ddiv x (Fin b) = dinf (dsgn x * (if b = 0 then 1 else sgn b))"
| "ddiv x y = NaN"

text \<open>Comparisons: every one with a NaN is false, so \<open>dne\<close> is true on a NaN.\<close>

fun dle :: "double \<Rightarrow> double \<Rightarrow> bool" where
  "dle NaN y = False"
| "dle x NaN = False"
| "dle NegInf y = True"
| "dle x PosInf = True"
| "dle (Fin a) (Fin b) = (a \<le> b)"
| "dle x y = False"

definition dlt :: "double \<Rightarrow> double \<Rightarrow> bool" where
  "dlt x y \<longleftrightarrow> x \<noteq> NaN \<and> y \<noteq> NaN \<and> \<not> dle y x"

definition deq :: "double \<Rightarrow> double \<Rightarrow> bool" where
  "deq x y \<longleftrightarrow> x \<noteq> NaN \<and> x = y"

abbreviation dge :: "double \<Rightarrow> double \<Rightarrow> bool" where "dge x y \<equiv> dle y x"
abbreviation dgt :: "double \<Rightarrow> double \<Rightarrow> bool" where "dgt x y \<equiv> dlt y x"
abbreviation dne :: "double \<Rightarrow> double \<Rightarrow> bool" where "dne x y \<equiv> \<not> deq x y"

fun isfinite :: "double \<Rightarrow> bool" where
  "isfinite (Fin a) = True"
| "isfinite x = False"

text \<open>\<open>std::min\<close> and \<open>std::max\<close>, with their answer on a NaN.\<close>

definition std_min :: "double \<Rightarrow> double \<Rightarrow> double" where
  "std_min a b = (if dlt b a then b else a)"

definition std_max :: "double \<Rightarrow> double \<Rightarrow> double" where
  "std_max a b = (if dlt a b then b else a)"

text \<open>Conversions: \<open>static_cast<double>\<close> of the integer types.\<close>

definition u64_rat :: "u64 \<Rightarrow> rat" where
  "u64_rat w = of_nat (unat w)"

definition of_u64 :: "u64 \<Rightarrow> double" where
  "of_u64 w = fl (u64_rat w)"

definition of_size :: "nat \<Rightarrow> double" where
  "of_size n = fl (of_nat n)"

definition i32_rat :: "i32 \<Rightarrow> rat" where
  "i32_rat w = of_int (sint w)"

definition of_i32 :: "i32 \<Rightarrow> double" where
  "of_i32 w = fl (i32_rat w)"

text \<open>
  \<open>static_cast<std::uint64_t>\<close> of a double truncates; outside the range of the target (and on NaN)
  the behaviour is undefined, here \<open>None\<close>.
\<close>

definition rat_trunc :: "rat \<Rightarrow> int" where
  "rat_trunc r = (if 0 \<le> r then \<lfloor>r\<rfloor> else \<lceil>r\<rceil>)"

fun to_u64 :: "double \<Rightarrow> u64 option" where
  "to_u64 (Fin r) = (let t = rat_trunc r in if 0 \<le> t \<and> t < 2 ^ 64 then Some (of_int t) else None)"
| "to_u64 x = None"

text \<open>\<open>clamp01\<close>, defined alike in core.cpp, runtime.cpp and synthetic.cpp: a NaN passes through.\<close>

definition clamp01 :: "double \<Rightarrow> double" where
  "clamp01 x = (if dlt x (Fin 0) then Fin 0 else if dgt x (Fin 1) then Fin 1 else x)"

section \<open>Laws of the operations\<close>

definition unit_double :: "double \<Rightarrow> bool" where
  "unit_double d \<longleftrightarrow> (\<exists>r. d = Fin r \<and> 0 \<le> r \<and> r \<le> 1)"

lemma dle_Fin [simp]: "dle (Fin a) (Fin b) \<longleftrightarrow> a \<le> b"
  by simp

lemma dle_NaN [simp]: "\<not> dle x NaN"
  by (cases x) auto

lemma dlt_Fin [simp]: "dlt (Fin a) (Fin b) \<longleftrightarrow> a < b"
  by (auto simp: dlt_def)

lemma dlt_simps [simp]:
  "\<not> dlt NaN y" "\<not> dlt x NaN" "\<not> dlt PosInf y" "\<not> dlt x NegInf"
  "dlt NegInf (Fin a)" "dlt (Fin a) PosInf" "dlt NegInf PosInf"
  by (cases x; cases y; simp add: dlt_def)+

lemma deq_Fin [simp]: "deq (Fin a) (Fin b) \<longleftrightarrow> a = b"
  by (simp add: deq_def)

lemma dle_refl: "x \<noteq> NaN \<Longrightarrow> dle x x"
  by (cases x) auto

lemma dle_trans: "dle x y \<Longrightarrow> dle y z \<Longrightarrow> dle x z"
  by (cases x; cases y; cases z) auto

lemma dle_total: "x \<noteq> NaN \<Longrightarrow> y \<noteq> NaN \<Longrightarrow> dle x y \<or> dle y x"
  by (cases x; cases y) auto

lemma dle_not_NaN: "dle x y \<Longrightarrow> x \<noteq> NaN \<and> y \<noteq> NaN"
  by (cases x; cases y) auto

lemma not_dle: "x \<noteq> NaN \<Longrightarrow> y \<noteq> NaN \<Longrightarrow> \<not> dle x y \<longleftrightarrow> dlt y x"
  by (simp add: dlt_def)

lemma dlt_dle: "dlt x y \<Longrightarrow> dle x y"
  by (cases x; cases y) (auto simp: dlt_def)

lemma isfinite_iff: "isfinite x \<longleftrightarrow> (\<exists>r. x = Fin r)"
  by (cases x) auto

lemma pow2_1024: "(2::rat) ^ 1024 = pow2 1024"
  by (simp add: pow2_def del: power_numeral)

lemma fl_Fin: assumes "\<bar>x\<bar> \<le> pow2 1023" shows "fl x = Fin (rnd64 x)"
proof -
  have "\<bar>rnd64 x\<bar> \<le> pow2 1023" by (rule b64.abs_le_fixed [OF rnd64_pow2 assms]) simp
  moreover have "pow2 1023 < pow2 1024" by (simp only: pow2_less_iff)
  ultimately show ?thesis by (auto simp: fl_def Let_def pow2_1024 simp del: power_numeral)
qed

text \<open>The code equation looks at the overflow threshold only for a value beyond \<open>2^64\<close>.\<close>

lemma fl_code [code]: "fl x = (let r = rnd64 x in if \<bar>r\<bar> < 18446744073709551616 then Fin r
   else if 2 ^ 1024 \<le> r then PosInf else if r \<le> - (2 ^ 1024) then NegInf else Fin r)"
proof -
  have "pow2 64 \<le> pow2 1024" by (rule pow2_mono) simp
  then have "18446744073709551616 \<le> (2 ^ 1024 :: rat)" unfolding pow2_1024 by (simp add: pow2_nat)
  then show ?thesis by (auto simp: fl_def Let_def simp del: power_numeral)
qed

lemma fl_not_NaN [simp]: "fl x \<noteq> NaN"
  by (simp add: fl_def Let_def del: power_numeral)

lemma fl_mono: "x \<le> y \<Longrightarrow> dle (fl x) (fl y)"
  using rnd64_mono [of x y] by (auto simp: fl_def Let_def simp del: power_numeral)

lemma fl_unit: "0 \<le> x \<Longrightarrow> x \<le> 1 \<Longrightarrow> fl x = Fin (rnd64 x) \<and> 0 \<le> rnd64 x \<and> rnd64 x \<le> 1"
  using pow2_mono [of 0 1023] by (simp add: fl_Fin b64.nonneg b64.le_1)

lemma fl_0 [simp]: "fl 0 = Fin 0" and fl_1 [simp]: "fl 1 = Fin 1"
  using fl_unit [of 0] fl_unit [of 1] by (simp_all add: b64.rnd_0 b64.rnd_1)

lemma fl_int: "\<bar>m\<bar> \<le> 2 ^ 53 \<Longrightarrow> fl (of_int m) = Fin (of_int m)"
proof -
  assume m: "\<bar>m\<bar> \<le> 2 ^ 53"
  then have "\<bar>of_int m :: rat\<bar> \<le> of_int (2 ^ 53)" by (simp only: of_int_le_iff flip: of_int_abs)
  also have "\<dots> \<le> pow2 1023" using pow2_mono [of 53 1023] by (simp add: pow2_nat)
  finally show ?thesis by (simp add: fl_Fin rnd64_int [OF m])
qed

lemma u64_rat_le: "u64_rat a \<le> u64_rat b \<longleftrightarrow> a \<le> b"
  unfolding u64_rat_def of_nat_le_iff by (simp add: word_le_nat_alt)

lemma u64_rat_0 [simp]: "u64_rat 0 = 0"
  by (simp add: u64_rat_def)

lemma u64_rat_nonneg [simp]: "0 \<le> u64_rat w"
  unfolding u64_rat_def by (rule of_nat_0_le_iff)

lemma u64_rat_ge_1: "w \<noteq> 0 \<Longrightarrow> 1 \<le> u64_rat w"
  using u64_rat_le [of 1 w] by (simp add: u64_rat_def word_le_nat_alt unat_gt_0 Suc_leI)

lemma u64_rat_bound: "u64_rat w \<le> pow2 64"
proof -
  have "unat w \<le> 2 ^ 64" using unsigned_less [of w, where 'a = nat] by simp
  then have "u64_rat w \<le> of_nat (2 ^ 64)" unfolding u64_rat_def of_nat_le_iff .
  then show ?thesis by (simp add: pow2_nat)
qed

lemma of_u64_Fin: "of_u64 w = Fin (rnd64 (u64_rat w))"
  using u64_rat_bound [of w] pow2_mono [of 64 1023] unfolding of_u64_def by (intro fl_Fin) simp

lemma of_u64_0 [simp]: "of_u64 0 = Fin 0"
  by (simp add: of_u64_def)

lemma rnd64_u64_pos: "w \<noteq> 0 \<Longrightarrow> 1 \<le> rnd64 (u64_rat w)"
  by (rule b64.ge_1 [OF u64_rat_ge_1])

lemma i32_bound: "\<bar>sint (n::i32)\<bar> \<le> 2 ^ 53"
  using sint_ge [of n] sint_lt [of n] by simp

lemma i32_rat_nonneg: "0 \<le> i32_rat n \<longleftrightarrow> 0 \<le> sint n"
  unfolding i32_rat_def by (rule of_int_0_le_iff)

lemma i32_rat_bound: "\<bar>i32_rat n\<bar> \<le> pow2 53"
proof -
  have "of_int \<bar>sint n\<bar> \<le> (of_int (2 ^ 53) :: rat)" unfolding of_int_le_iff by (rule i32_bound)
  then show ?thesis unfolding i32_rat_def of_int_abs by (simp only: pow2_def) simp
qed

lemma of_i32_Fin: "of_i32 n = Fin (i32_rat n)"
  unfolding of_i32_def i32_rat_def by (rule fl_int [OF i32_bound])

lemma clamp01_range: "x \<noteq> NaN \<Longrightarrow> unit_double (clamp01 x)"
  by (cases x) (auto simp: clamp01_def unit_double_def)

lemma clamp01_NaN [simp]: "clamp01 NaN = NaN"
  by (simp add: clamp01_def)

lemma clamp01_unit: "unit_double x \<Longrightarrow> clamp01 x = x"
  by (auto simp: clamp01_def unit_double_def)

lemma unit_double_not_NaN: "unit_double x \<Longrightarrow> x \<noteq> NaN"
  by (auto simp: unit_double_def)

text \<open>The quotient of two converted counters, as the source computes fractions.\<close>

lemma ratio_u64: assumes b: "b \<noteq> 0" and ab: "a \<le> b" shows "unit_double (ddiv (of_u64 a) (of_u64 b))"
proof -
  have AB: "rnd64 (u64_rat a) \<le> rnd64 (u64_rat b)" using ab by (simp add: rnd64_mono u64_rat_le)
  have nz: "1 \<le> rnd64 (u64_rat b)" using b by (rule rnd64_u64_pos)
  have q: "0 \<le> rnd64 (u64_rat a) / rnd64 (u64_rat b)" "rnd64 (u64_rat a) / rnd64 (u64_rat b) \<le> 1"
    using nz AB by (simp_all add: b64.nonneg)
  have "ddiv (of_u64 a) (of_u64 b) = fl (rnd64 (u64_rat a) / rnd64 (u64_rat b))"
    using nz by (simp add: of_u64_Fin)
  then show ?thesis using fl_unit [OF q] by (simp add: unit_double_def)
qed

lemma ratio_u64_ge_1:
  assumes b: "b \<noteq> 0" and ab: "b \<le> a" shows "dge (ddiv (of_u64 a) (of_u64 b)) (Fin 1)"
proof -
  have AB: "rnd64 (u64_rat b) \<le> rnd64 (u64_rat a)" using ab by (simp add: rnd64_mono u64_rat_le)
  have nz: "1 \<le> rnd64 (u64_rat b)" using b by (rule rnd64_u64_pos)
  have "1 \<le> rnd64 (u64_rat a) / rnd64 (u64_rat b)" using nz AB by simp
  then have "dle (fl 1) (fl (rnd64 (u64_rat a) / rnd64 (u64_rat b)))" by (rule fl_mono)
  with nz show ?thesis by (simp add: of_u64_Fin)
qed

lemma ratio_u64_not_NaN: "b \<noteq> 0 \<Longrightarrow> ddiv (of_u64 a) (of_u64 b) \<noteq> NaN"
  using rnd64_u64_pos [of b] by (simp add: of_u64_Fin)

end
