(* ===== verification/Vocabulary.thy ===== *)
theory Vocabulary imports Doubles begin

text \<open>
  The enumerations of types.h with their printers and parsers. A constructor carries its
  enumeration's prefix (\<open>PL_High\<close> is \<open>PressureLevel::High\<close>, \<open>Conf_High\<close> is \<open>Confidence::High\<close>).
  Each printer and parser pair is shown to be a codec, the contract that the serializer
  and the command line rely on; the one pair that is not (ProviderStatus) is a codec on the
  statuses that its printer knows.
\<close>

section \<open>PressureLevel\<close>

datatype PressureLevel =
    PL_Normal
  | PL_Elevated
  | PL_High
  | PL_Critical
  | PL_Exhausted
  | PL_Unknown

fun PressureLevel_to_string :: "PressureLevel \<Rightarrow> string" where
  "PressureLevel_to_string PL_Normal = ''NORMAL''"
| "PressureLevel_to_string PL_Elevated = ''ELEVATED''"
| "PressureLevel_to_string PL_High = ''HIGH''"
| "PressureLevel_to_string PL_Critical = ''CRITICAL''"
| "PressureLevel_to_string PL_Exhausted = ''EXHAUSTED''"
| "PressureLevel_to_string PL_Unknown = ''UNKNOWN''"

definition pressure_level_from_string :: "string \<Rightarrow> PressureLevel option" where
  "pressure_level_from_string s =
    (if s = ''NORMAL'' then Some PL_Normal
     else if s = ''ELEVATED'' then Some PL_Elevated
     else if s = ''HIGH'' then Some PL_High
     else if s = ''CRITICAL'' then Some PL_Critical
     else if s = ''EXHAUSTED'' then Some PL_Exhausted
     else if s = ''UNKNOWN'' then Some PL_Unknown
     else None)"

interpretation level_codec: canonical_codec PressureLevel_to_string pressure_level_from_string "\<lambda>_. True"
proof unfold_locales
  show "pressure_level_from_string (PressureLevel_to_string x) = Some x" for x by (cases x) (simp_all add: pressure_level_from_string_def)
qed (auto simp: pressure_level_from_string_def split: if_splits)

section \<open>DomainType\<close>

datatype DomainType =
    DT_HostMemory
  | DT_PinnedHostMemory
  | DT_AcceleratorMemory
  | DT_SharedHostMemory
  | DT_FileBackedMemory
  | DT_PersistentStorageCapacity
  | DT_ProcessCommit
  | DT_SystemCommit
  | DT_Custom
  | DT_Unknown

fun DomainType_to_string :: "DomainType \<Rightarrow> string" where
  "DomainType_to_string DT_HostMemory = ''HOST_MEMORY''"
| "DomainType_to_string DT_PinnedHostMemory = ''PINNED_HOST_MEMORY''"
| "DomainType_to_string DT_AcceleratorMemory = ''ACCELERATOR_MEMORY''"
| "DomainType_to_string DT_SharedHostMemory = ''SHARED_HOST_MEMORY''"
| "DomainType_to_string DT_FileBackedMemory = ''FILE_BACKED_MEMORY''"
| "DomainType_to_string DT_PersistentStorageCapacity = ''PERSISTENT_STORAGE_CAPACITY''"
| "DomainType_to_string DT_ProcessCommit = ''PROCESS_COMMIT''"
| "DomainType_to_string DT_SystemCommit = ''SYSTEM_COMMIT''"
| "DomainType_to_string DT_Custom = ''CUSTOM''"
| "DomainType_to_string DT_Unknown = ''UNKNOWN''"

definition domain_type_from_string :: "string \<Rightarrow> DomainType option" where
  "domain_type_from_string s =
    (if s = ''HOST_MEMORY'' then Some DT_HostMemory
     else if s = ''PINNED_HOST_MEMORY'' then Some DT_PinnedHostMemory
     else if s = ''ACCELERATOR_MEMORY'' then Some DT_AcceleratorMemory
     else if s = ''SHARED_HOST_MEMORY'' then Some DT_SharedHostMemory
     else if s = ''FILE_BACKED_MEMORY'' then Some DT_FileBackedMemory
     else if s = ''PERSISTENT_STORAGE_CAPACITY'' then Some DT_PersistentStorageCapacity
     else if s = ''PROCESS_COMMIT'' then Some DT_ProcessCommit
     else if s = ''SYSTEM_COMMIT'' then Some DT_SystemCommit
     else if s = ''CUSTOM'' then Some DT_Custom
     else if s = ''UNKNOWN'' then Some DT_Unknown
     else None)"

interpretation domain_type_codec: canonical_codec DomainType_to_string domain_type_from_string "\<lambda>_. True"
proof unfold_locales
  show "domain_type_from_string (DomainType_to_string x) = Some x" for x by (cases x) (simp_all add: domain_type_from_string_def)
qed (auto simp: domain_type_from_string_def split: if_splits)

section \<open>Confidence\<close>

datatype Confidence =
    Conf_Authoritative
  | Conf_High
  | Conf_Medium
  | Conf_Low
  | Conf_Unknown

fun Confidence_to_string :: "Confidence \<Rightarrow> string" where
  "Confidence_to_string Conf_Authoritative = ''AUTHORITATIVE''"
| "Confidence_to_string Conf_High = ''HIGH''"
| "Confidence_to_string Conf_Medium = ''MEDIUM''"
| "Confidence_to_string Conf_Low = ''LOW''"
| "Confidence_to_string Conf_Unknown = ''UNKNOWN''"

definition confidence_from_string :: "string \<Rightarrow> Confidence option" where
  "confidence_from_string s =
    (if s = ''AUTHORITATIVE'' then Some Conf_Authoritative
     else if s = ''HIGH'' then Some Conf_High
     else if s = ''MEDIUM'' then Some Conf_Medium
     else if s = ''LOW'' then Some Conf_Low
     else if s = ''UNKNOWN'' then Some Conf_Unknown
     else None)"

interpretation confidence_codec: canonical_codec Confidence_to_string confidence_from_string "\<lambda>_. True"
proof unfold_locales
  show "confidence_from_string (Confidence_to_string x) = Some x" for x by (cases x) (simp_all add: confidence_from_string_def)
qed (auto simp: confidence_from_string_def split: if_splits)

section \<open>Provenance\<close>

datatype Provenance =
    Prov_WindowsGlobalMemoryStatusEx
  | Prov_WindowsPerformanceInfo
  | Prov_WindowsProcessMemoryInfo
  | Prov_WindowsProcessQuery
  | Prov_CudaDriverApi
  | Prov_Filesystem
  | Prov_RuntimeRegistration
  | Prov_ConfiguredPolicy
  | Prov_SyntheticInput
  | Prov_ImportedSnapshot
  | Prov_InferredMetric
  | Prov_AllocationProbe
  | Prov_CudaRuntimeApi
  | Prov_Unknown

fun Provenance_to_string :: "Provenance \<Rightarrow> string" where
  "Provenance_to_string Prov_WindowsGlobalMemoryStatusEx = ''WINDOWS_GLOBAL_MEMORY_STATUS_EX''"
| "Provenance_to_string Prov_WindowsPerformanceInfo = ''WINDOWS_PERFORMANCE_INFO''"
| "Provenance_to_string Prov_WindowsProcessMemoryInfo = ''WINDOWS_PROCESS_MEMORY_INFO''"
| "Provenance_to_string Prov_WindowsProcessQuery = ''WINDOWS_PROCESS_QUERY''"
| "Provenance_to_string Prov_CudaDriverApi = ''CUDA_DRIVER_API''"
| "Provenance_to_string Prov_Filesystem = ''FILESYSTEM''"
| "Provenance_to_string Prov_RuntimeRegistration = ''RUNTIME_REGISTRATION''"
| "Provenance_to_string Prov_ConfiguredPolicy = ''CONFIGURED_POLICY''"
| "Provenance_to_string Prov_SyntheticInput = ''SYNTHETIC_INPUT''"
| "Provenance_to_string Prov_ImportedSnapshot = ''IMPORTED_SNAPSHOT''"
| "Provenance_to_string Prov_InferredMetric = ''INFERRED_METRIC''"
| "Provenance_to_string Prov_AllocationProbe = ''ALLOCATION_PROBE''"
| "Provenance_to_string Prov_CudaRuntimeApi = ''CUDA_RUNTIME_API''"
| "Provenance_to_string Prov_Unknown = ''UNKNOWN''"

definition provenance_from_string :: "string \<Rightarrow> Provenance option" where
  "provenance_from_string s =
    (if s = ''WINDOWS_GLOBAL_MEMORY_STATUS_EX'' then Some Prov_WindowsGlobalMemoryStatusEx
     else if s = ''WINDOWS_PERFORMANCE_INFO'' then Some Prov_WindowsPerformanceInfo
     else if s = ''WINDOWS_PROCESS_MEMORY_INFO'' then Some Prov_WindowsProcessMemoryInfo
     else if s = ''WINDOWS_PROCESS_QUERY'' then Some Prov_WindowsProcessQuery
     else if s = ''CUDA_DRIVER_API'' then Some Prov_CudaDriverApi
     else if s = ''FILESYSTEM'' then Some Prov_Filesystem
     else if s = ''RUNTIME_REGISTRATION'' then Some Prov_RuntimeRegistration
     else if s = ''CONFIGURED_POLICY'' then Some Prov_ConfiguredPolicy
     else if s = ''SYNTHETIC_INPUT'' then Some Prov_SyntheticInput
     else if s = ''IMPORTED_SNAPSHOT'' then Some Prov_ImportedSnapshot
     else if s = ''INFERRED_METRIC'' then Some Prov_InferredMetric
     else if s = ''ALLOCATION_PROBE'' then Some Prov_AllocationProbe
     else if s = ''CUDA_RUNTIME_API'' then Some Prov_CudaRuntimeApi
     else if s = ''UNKNOWN'' then Some Prov_Unknown
     else None)"

interpretation provenance_codec: canonical_codec Provenance_to_string provenance_from_string "\<lambda>_. True"
proof unfold_locales
  show "provenance_from_string (Provenance_to_string x) = Some x" for x by (cases x) (simp_all add: provenance_from_string_def)
qed (auto simp: provenance_from_string_def split: if_splits)

section \<open>Validity\<close>

datatype Validity =
    Val_Valid
  | Val_Stale
  | Val_Partial
  | Val_Failed
  | Val_Unavailable

fun Validity_to_string :: "Validity \<Rightarrow> string" where
  "Validity_to_string Val_Valid = ''VALID''"
| "Validity_to_string Val_Stale = ''STALE''"
| "Validity_to_string Val_Partial = ''PARTIAL''"
| "Validity_to_string Val_Failed = ''FAILED''"
| "Validity_to_string Val_Unavailable = ''UNAVAILABLE''"

definition validity_from_string :: "string \<Rightarrow> Validity option" where
  "validity_from_string s =
    (if s = ''VALID'' then Some Val_Valid
     else if s = ''STALE'' then Some Val_Stale
     else if s = ''PARTIAL'' then Some Val_Partial
     else if s = ''FAILED'' then Some Val_Failed
     else if s = ''UNAVAILABLE'' then Some Val_Unavailable
     else None)"

interpretation validity_codec: canonical_codec Validity_to_string validity_from_string "\<lambda>_. True"
proof unfold_locales
  show "validity_from_string (Validity_to_string x) = Some x" for x by (cases x) (simp_all add: validity_from_string_def)
qed (auto simp: validity_from_string_def split: if_splits)

section \<open>ProviderStatus\<close>

datatype ProviderStatus =
    PS_Healthy
  | PS_Stale
  | PS_Failed
  | PS_Unavailable
  | PS_Partial

fun ProviderStatus_to_string :: "ProviderStatus \<Rightarrow> string" where
  "ProviderStatus_to_string PS_Healthy = ''HEALTHY''"
| "ProviderStatus_to_string PS_Stale = ''STALE''"
| "ProviderStatus_to_string PS_Failed = ''FAILED''"
| "ProviderStatus_to_string PS_Unavailable = ''UNAVAILABLE''"
| "ProviderStatus_to_string PS_Partial = ''UNAVAILABLE''"

definition provider_status_from_string :: "string \<Rightarrow> ProviderStatus option" where
  "provider_status_from_string s =
    (if s = ''HEALTHY'' then Some PS_Healthy
     else if s = ''STALE'' then Some PS_Stale
     else if s = ''FAILED'' then Some PS_Failed
     else if s = ''UNAVAILABLE'' then Some PS_Unavailable
     else if s = ''PARTIAL'' then Some PS_Partial
     else None)"

text \<open>
  The switch of \<open>to_string(ProviderStatus)\<close> has no case for \<open>Partial\<close>, which falls to the final
  \<open>return "UNAVAILABLE"\<close>: the parser undoes the printer on every other status only.
\<close>

interpretation provider_status_codec: codec ProviderStatus_to_string provider_status_from_string "\<lambda>s. s \<noteq> PS_Partial"
proof unfold_locales
  fix x :: ProviderStatus assume "x \<noteq> PS_Partial"
  then show "provider_status_from_string (ProviderStatus_to_string x) = Some x"
    by (cases x) (simp_all add: provider_status_from_string_def)
qed

section \<open>TrendDirection\<close>

datatype TrendDirection =
    Trend_Flat
  | Trend_Rising
  | Trend_Falling
  | Trend_Unknown

fun TrendDirection_to_string :: "TrendDirection \<Rightarrow> string" where
  "TrendDirection_to_string Trend_Flat = ''FLAT''"
| "TrendDirection_to_string Trend_Rising = ''RISING''"
| "TrendDirection_to_string Trend_Falling = ''FALLING''"
| "TrendDirection_to_string Trend_Unknown = ''UNKNOWN''"

definition trend_from_string :: "string \<Rightarrow> TrendDirection option" where
  "trend_from_string s =
    (if s = ''FLAT'' then Some Trend_Flat
     else if s = ''RISING'' then Some Trend_Rising
     else if s = ''FALLING'' then Some Trend_Falling
     else if s = ''UNKNOWN'' then Some Trend_Unknown
     else None)"

interpretation trend_codec: canonical_codec TrendDirection_to_string trend_from_string "\<lambda>_. True"
proof unfold_locales
  show "trend_from_string (TrendDirection_to_string x) = Some x" for x by (cases x) (simp_all add: trend_from_string_def)
qed (auto simp: trend_from_string_def split: if_splits)

section \<open>ResponseAction\<close>

datatype ResponseAction =
    RA_None
  | RA_Warn
  | RA_Throttle
  | RA_Defer
  | RA_RejectNewWork
  | RA_RequestReclaim
  | RA_RequestDemotion
  | RA_RequestPersistence
  | RA_RequestCompaction
  | RA_ReduceAdmission
  | RA_ReserveCapacity
  | RA_EmergencyStopGrowth
  | RA_Custom

fun ResponseAction_to_string :: "ResponseAction \<Rightarrow> string" where
  "ResponseAction_to_string RA_None = ''NONE''"
| "ResponseAction_to_string RA_Warn = ''WARN''"
| "ResponseAction_to_string RA_Throttle = ''THROTTLE''"
| "ResponseAction_to_string RA_Defer = ''DEFER''"
| "ResponseAction_to_string RA_RejectNewWork = ''REJECT_NEW_WORK''"
| "ResponseAction_to_string RA_RequestReclaim = ''REQUEST_RECLAIM''"
| "ResponseAction_to_string RA_RequestDemotion = ''REQUEST_DEMOTION''"
| "ResponseAction_to_string RA_RequestPersistence = ''REQUEST_PERSISTENCE''"
| "ResponseAction_to_string RA_RequestCompaction = ''REQUEST_COMPACTION''"
| "ResponseAction_to_string RA_ReduceAdmission = ''REDUCE_ADMISSION''"
| "ResponseAction_to_string RA_ReserveCapacity = ''RESERVE_CAPACITY''"
| "ResponseAction_to_string RA_EmergencyStopGrowth = ''EMERGENCY_STOP_GROWTH''"
| "ResponseAction_to_string RA_Custom = ''CUSTOM''"

definition response_action_from_string :: "string \<Rightarrow> ResponseAction option" where
  "response_action_from_string s =
    (if s = ''NONE'' then Some RA_None
     else if s = ''WARN'' then Some RA_Warn
     else if s = ''THROTTLE'' then Some RA_Throttle
     else if s = ''DEFER'' then Some RA_Defer
     else if s = ''REJECT_NEW_WORK'' then Some RA_RejectNewWork
     else if s = ''REQUEST_RECLAIM'' then Some RA_RequestReclaim
     else if s = ''REQUEST_DEMOTION'' then Some RA_RequestDemotion
     else if s = ''REQUEST_PERSISTENCE'' then Some RA_RequestPersistence
     else if s = ''REQUEST_COMPACTION'' then Some RA_RequestCompaction
     else if s = ''REDUCE_ADMISSION'' then Some RA_ReduceAdmission
     else if s = ''RESERVE_CAPACITY'' then Some RA_ReserveCapacity
     else if s = ''EMERGENCY_STOP_GROWTH'' then Some RA_EmergencyStopGrowth
     else if s = ''CUSTOM'' then Some RA_Custom
     else None)"

interpretation action_codec: canonical_codec ResponseAction_to_string response_action_from_string "\<lambda>_. True"
proof unfold_locales
  show "response_action_from_string (ResponseAction_to_string x) = Some x" for x by (cases x) (simp_all add: response_action_from_string_def)
qed (auto simp: response_action_from_string_def split: if_splits)

section \<open>AdmissionDecision\<close>

datatype AdmissionDecision =
    Adm_Accept
  | Adm_AcceptWithCaution
  | Adm_Defer
  | Adm_Reject

fun AdmissionDecision_to_string :: "AdmissionDecision \<Rightarrow> string" where
  "AdmissionDecision_to_string Adm_Accept = ''ACCEPT''"
| "AdmissionDecision_to_string Adm_AcceptWithCaution = ''ACCEPT_WITH_CAUTION''"
| "AdmissionDecision_to_string Adm_Defer = ''DEFER''"
| "AdmissionDecision_to_string Adm_Reject = ''REJECT''"

definition admission_from_string :: "string \<Rightarrow> AdmissionDecision option" where
  "admission_from_string s =
    (if s = ''ACCEPT'' then Some Adm_Accept
     else if s = ''ACCEPT_WITH_CAUTION'' then Some Adm_AcceptWithCaution
     else if s = ''DEFER'' then Some Adm_Defer
     else if s = ''REJECT'' then Some Adm_Reject
     else None)"

interpretation admission_codec: canonical_codec AdmissionDecision_to_string admission_from_string "\<lambda>_. True"
proof unfold_locales
  show "admission_from_string (AdmissionDecision_to_string x) = Some x" for x by (cases x) (simp_all add: admission_from_string_def)
qed (auto simp: admission_from_string_def split: if_splits)

section \<open>TierRole\<close>

datatype TierRole =
    TR_Root
  | TR_Accelerator
  | TR_Staging
  | TR_Buffer
  | TR_Persistent
  | TR_Custom

fun TierRole_to_string :: "TierRole \<Rightarrow> string" where
  "TierRole_to_string TR_Root = ''ROOT''"
| "TierRole_to_string TR_Accelerator = ''ACCELERATOR''"
| "TierRole_to_string TR_Staging = ''STAGING''"
| "TierRole_to_string TR_Buffer = ''BUFFER''"
| "TierRole_to_string TR_Persistent = ''PERSISTENT''"
| "TierRole_to_string TR_Custom = ''CUSTOM''"

definition tier_role_from_string :: "string \<Rightarrow> TierRole option" where
  "tier_role_from_string s =
    (if s = ''ROOT'' then Some TR_Root
     else if s = ''ACCELERATOR'' then Some TR_Accelerator
     else if s = ''STAGING'' then Some TR_Staging
     else if s = ''BUFFER'' then Some TR_Buffer
     else if s = ''PERSISTENT'' then Some TR_Persistent
     else if s = ''CUSTOM'' then Some TR_Custom
     else None)"

interpretation tier_codec: canonical_codec TierRole_to_string tier_role_from_string "\<lambda>_. True"
proof unfold_locales
  show "tier_role_from_string (TierRole_to_string x) = Some x" for x by (cases x) (simp_all add: tier_role_from_string_def)
qed (auto simp: tier_role_from_string_def split: if_splits)

section \<open>The status that does not survive printing\<close>

text \<open>
  Every other enumeration prints to a distinct name (the interpretations above), but the printer
  of \<open>ProviderStatus\<close> has no case for \<open>Partial\<close>: after printing and parsing, exactly the status
  \<open>Partial\<close> has changed, into \<open>Unavailable\<close>.
\<close>

lemma provider_status_lossy:
  "provider_status_from_string (ProviderStatus_to_string s) =
    Some (if s = PS_Partial then PS_Unavailable else s)"
  by (cases s) (simp_all add: provider_status_from_string_def)

section \<open>Severity\<close>

fun severity_rank :: "PressureLevel \<Rightarrow> int" where
  "severity_rank PL_Normal = 0"
| "severity_rank PL_Elevated = 1"
| "severity_rank PL_High = 2"
| "severity_rank PL_Critical = 3"
| "severity_rank PL_Exhausted = 4"
| "severity_rank PL_Unknown = - 1"

definition is_known_level :: "PressureLevel \<Rightarrow> bool" where
  "is_known_level v \<longleftrightarrow> v = PL_Normal \<or> v = PL_Elevated \<or> v = PL_High \<or> v = PL_Critical \<or> v = PL_Exhausted"

definition safe_gib :: "double \<Rightarrow> u64 option" where
  "safe_gib v = to_u64 (dmul (dmul (dmul v (Fin 1024)) (Fin 1024)) (Fin 1024))"

lemma severity_rank_inject [simp]: "severity_rank a = severity_rank b \<longleftrightarrow> a = b"
  by (cases a; cases b) simp_all

lemma severity_rank_range: "- 1 \<le> severity_rank v" "severity_rank v \<le> 4"
  by (cases v; simp)+

lemma is_known_level_iff: "is_known_level v \<longleftrightarrow> 0 \<le> severity_rank v"
  by (cases v) (simp_all add: is_known_level_def)

text \<open>The source compares ranks as \<open>std::max(0, severity_rank(v))\<close> converted to \<open>uint64_t\<close>.\<close>

definition sev :: "PressureLevel \<Rightarrow> nat" where
  "sev v = nat (max 0 (severity_rank v))"

lemma sev_simps [simp]:
  "sev PL_Normal = 0" "sev PL_Elevated = 1" "sev PL_High = 2" "sev PL_Critical = 3" "sev PL_Exhausted = 4" "sev PL_Unknown = 0"
  by (simp_all add: sev_def)

lemma sev_le_4: "sev v \<le> 4"
  by (cases v) simp_all

section \<open>Order of the map keys\<close>

text \<open>\<open>std::map<TierRole, double>\<close> orders its keys by the enumerators' values.\<close>

fun tier_index :: "TierRole \<Rightarrow> nat" where
  "tier_index TR_Root = 0"
| "tier_index TR_Accelerator = 1"
| "tier_index TR_Staging = 2"
| "tier_index TR_Buffer = 3"
| "tier_index TR_Persistent = 4"
| "tier_index TR_Custom = 5"

lemma tier_index_inject: "tier_index a = tier_index b \<Longrightarrow> a = b"
  by (cases a; cases b) simp_all

instantiation TierRole :: linorder
begin

definition less_eq_TierRole :: "TierRole \<Rightarrow> TierRole \<Rightarrow> bool" where
  "less_eq_TierRole a b \<longleftrightarrow> tier_index a \<le> tier_index b"

definition less_TierRole :: "TierRole \<Rightarrow> TierRole \<Rightarrow> bool" where
  "less_TierRole a b \<longleftrightarrow> tier_index a < tier_index b"

instance
  by intro_classes (auto simp: less_eq_TierRole_def less_TierRole_def dest: tier_index_inject)

end

end
