(* ===== verification/StdMap.thy ===== *)
theory StdMap imports Prelude begin

text \<open>
  \<open>std::map\<close> as the source uses it: an association list kept in ascending key order, which is also
  the order of iteration. The operations are \<open>find\<close>, the assignment \<open>m[k] = v\<close> and \<open>erase\<close>;
  their contract is the locale \<open>finite_map\<close>, interpreted on the sorted lists.
\<close>

locale finite_map =
  fixes empty :: "'m" and find :: "'m \<Rightarrow> 'k \<Rightarrow> 'v option" and assign :: "'k \<Rightarrow> 'v \<Rightarrow> 'm \<Rightarrow> 'm"
    and erase :: "'k \<Rightarrow> 'm \<Rightarrow> 'm" and invar :: "'m \<Rightarrow> bool"
  assumes find_empty: "find empty k = None"
    and find_assign: "invar m \<Longrightarrow> find (assign k v m) k' = (if k' = k then Some v else find m k')"
    and find_erase: "invar m \<Longrightarrow> find (erase k m) k' = (if k' = k then None else find m k')"
    and invar_empty: "invar empty"
    and invar_assign: "invar m \<Longrightarrow> invar (assign k v m)"
    and invar_erase: "invar m \<Longrightarrow> invar (erase k m)"
begin

lemma find_assign_same: "invar m \<Longrightarrow> find (assign k v m) k = Some v"
  by (simp add: find_assign)

lemma find_assign_twice: "invar m \<Longrightarrow> find (assign k v (assign k w m)) k' = find (assign k v m) k'"
  by (simp add: find_assign invar_assign)

lemma invar_fold_assign: "invar m \<Longrightarrow> invar (fold (\<lambda>(k, v). assign k v) kvs m)"
  by (induction kvs arbitrary: m) (auto intro: invar_assign)

lemma find_fold_assign: "invar m \<Longrightarrow> k \<notin> fst ` set kvs \<Longrightarrow> find (fold (\<lambda>(k, v). assign k v) kvs m) k = find m k"
  by (induction kvs arbitrary: m) (auto simp: find_assign invar_assign)

end

fun sm_find :: "('k \<times> 'v) list \<Rightarrow> 'k \<Rightarrow> 'v option" where
  "sm_find [] k = None"
| "sm_find ((k', v) # m) k = (if k = k' then Some v else sm_find m k)"

fun sm_assign :: "'k::linorder \<Rightarrow> 'v \<Rightarrow> ('k \<times> 'v) list \<Rightarrow> ('k \<times> 'v) list" where
  "sm_assign k v [] = [(k, v)]"
| "sm_assign k v ((k', v') # m) =
     (if k < k' then (k, v) # (k', v') # m
      else if k = k' then (k, v) # m
      else (k', v') # sm_assign k v m)"

fun sm_erase :: "'k \<Rightarrow> ('k \<times> 'v) list \<Rightarrow> ('k \<times> 'v) list" where
  "sm_erase k [] = []"
| "sm_erase k ((k', v) # m) = (if k = k' then m else (k', v) # sm_erase k m)"

definition sm_ok :: "('k::linorder \<times> 'v) list \<Rightarrow> bool" where
  "sm_ok m \<longleftrightarrow> sorted_wrt (<) (map fst m)"

lemma sm_ok_Nil [simp]: "sm_ok []"
  by (simp add: sm_ok_def)

lemma sm_ok_Cons: "sm_ok ((k, v) # m) \<longleftrightarrow> (\<forall>k' \<in> fst ` set m. k < k') \<and> sm_ok m"
  by (auto simp: sm_ok_def)

lemma sm_find_None: "sm_find m k = None \<longleftrightarrow> k \<notin> fst ` set m"
  by (induction m k rule: sm_find.induct) auto

lemma sm_find_set: "sm_find m k = Some v \<Longrightarrow> (k, v) \<in> set m"
  by (induction m k rule: sm_find.induct) (auto split: if_splits)

lemma keys_sm_assign: "fst ` set (sm_assign k v m) = insert k (fst ` set m)"
  by (induction k v m rule: sm_assign.induct) auto

lemma keys_sm_erase: "fst ` set (sm_erase k m) \<subseteq> fst ` set m"
  by (induction k m rule: sm_erase.induct) auto

lemma sm_find_assign: "sm_find (sm_assign k v m) k' = (if k' = k then Some v else sm_find m k')"
  by (induction k v m rule: sm_assign.induct) auto

lemma sm_ok_assign: "sm_ok m \<Longrightarrow> sm_ok (sm_assign k v m)"
  by (induction k v m rule: sm_assign.induct) (auto simp: sm_ok_Cons keys_sm_assign dest: less_trans)

lemma sm_ok_erase: "sm_ok m \<Longrightarrow> sm_ok (sm_erase k m)"
  using keys_sm_erase by (induction k m rule: sm_erase.induct) (fastforce simp: sm_ok_Cons)+

lemma sm_find_erase: "sm_ok m \<Longrightarrow> sm_find (sm_erase k m) k' = (if k' = k then None else sm_find m k')"
  by (induction k m rule: sm_erase.induct) (force simp: sm_ok_Cons sm_find_None)+

text \<open>A map is determined by its lookups.\<close>

lemma sm_ext: "sm_ok a \<Longrightarrow> sm_ok b \<Longrightarrow> (\<And>k. sm_find a k = sm_find b k) \<Longrightarrow> a = b"
proof (induction a arbitrary: b)
  case Nil
  then show ?case by (cases b) (auto split: if_splits, metis option.distinct(1))
next
  case (Cons x a)
  obtain k v where x: "x = (k, v)" by (cases x)
  obtain k' v' b' where b: "b = (k', v') # b'"
    using Cons.prems(3) [of k] x by (cases b) auto
  have ok: "\<forall>j \<in> fst ` set a. k < j" "sm_ok a" "\<forall>j \<in> fst ` set b'. k' < j" "sm_ok b'"
    using Cons.prems(1,2) by (auto simp: x b sm_ok_Cons)
  have "k' = k"
  proof (rule ccontr)
    assume n: "k' \<noteq> k"
    have "sm_find b' k = Some v" using Cons.prems(3) [of k] n by (simp add: x b)
    then have "k \<in> fst ` set b'" by (metis sm_find_None option.distinct(1))
    moreover have "sm_find a k' = Some v'" using Cons.prems(3) [of k'] n by (simp add: x b)
    then have "k' \<in> fst ` set a" by (metis sm_find_None option.distinct(1))
    ultimately show False using ok by force
  qed
  moreover have "v' = v" using Cons.prems(3) [of k] calculation by (simp add: x b)
  moreover have "sm_find a j = sm_find b' j" for j
  proof (cases "j = k")
    case True
    then show ?thesis using ok(1,3) calculation(1) by (metis less_irrefl sm_find_None)
  next
    case False
    then show ?thesis using Cons.prems(3) [of j] calculation(1) by (simp add: x b)
  qed
  ultimately show ?case using Cons.IH [OF ok(2,4)] by (simp add: x b)
qed

interpretation std_map: finite_map "[]" sm_find sm_assign sm_erase sm_ok
  by unfold_locales (simp_all add: sm_find_assign sm_find_erase sm_ok_assign sm_ok_erase)

end
