(* ===== verification/Policies.thy ===== *)
theory Policies imports Vocabulary StdMap begin

text \<open>
  policy.h and \<open>validate_policy\<close>, \<open>default_policy\<close> of core.cpp: the versioned policy with its
  thresholds, hysteresis, weights, aggregation, freshness and response rules. The member
  initializers are the \<open>_init\<close> definitions; a decimal literal is the double nearest to it.
\<close>

record Thresholds =
  normal_exit :: double
  elevated_enter :: double
  elevated_exit :: double
  high_enter :: double
  high_exit :: double
  critical_enter :: double
  critical_exit :: double
  exhausted_enter :: double
  exhausted_exit :: double

record HysteresisConfig =
  min_dwell_observations :: u32
  min_dwell_duration_ms :: double
  escalation_delay_ms :: double
  recovery_delay_ms :: double
  immediate_emergency_escalation :: bool
  max_debounce_observations :: u32

record ScoreWeights =
  w_utilization :: double
  w_free_deficit :: double
  w_reserve_deficit :: double
  w_growth_rate :: double
  w_allocation_failure :: double
  w_fragmentation :: double
  w_reclaimable_deficit :: double
  w_confidence_penalty :: double
  w_stale_penalty :: double

record AggregateConfig =
  consider_hierarchy :: bool
  role_weight :: "(TierRole \<times> double) list"
  bottleneck_penalty :: double
  reserve_exhaustion_penalty :: double
  response_feasibility_penalty :: double

record ResponseRule =
  rule_level :: PressureLevel
  rule_actions :: "ResponseAction list"

record FreshnessConfig =
  default_max_age_us :: u64
  per_provider_max_age_us :: "(string \<times> u64) list"

record PressurePolicy =
  policy_version :: u64
  policy_name :: string
  thresholds :: Thresholds
  hysteresis :: HysteresisConfig
  weights :: ScoreWeights
  aggregate :: AggregateConfig
  freshness :: FreshnessConfig
  response_rules :: "ResponseRule list"
  max_queued_events :: u64
  max_relief_bytes :: u64

section \<open>Member initializers\<close>

definition Thresholds_init :: Thresholds where
  "Thresholds_init = \<lparr>normal_exit = fl (40/100), elevated_enter = fl (60/100), elevated_exit = fl (50/100),
     high_enter = fl (85/100), high_exit = fl (78/100), critical_enter = fl (92/100), critical_exit = fl (86/100),
     exhausted_enter = fl (985/1000), exhausted_exit = fl (93/100)\<rparr>"

definition HysteresisConfig_init :: HysteresisConfig where
  "HysteresisConfig_init = \<lparr>min_dwell_observations = 2, min_dwell_duration_ms = Fin 0,
     escalation_delay_ms = Fin 0, recovery_delay_ms = Fin 0, immediate_emergency_escalation = True,
     max_debounce_observations = 4\<rparr>"

definition ScoreWeights_init :: ScoreWeights where
  "ScoreWeights_init = \<lparr>w_utilization = Fin 1, w_free_deficit = Fin 1, w_reserve_deficit = Fin 1,
     w_growth_rate = Fin (1/2), w_allocation_failure = Fin 2, w_fragmentation = Fin (1/4),
     w_reclaimable_deficit = Fin (1/2), w_confidence_penalty = Fin (1/2), w_stale_penalty = Fin (3/4)\<rparr>"

definition AggregateConfig_init :: AggregateConfig where
  "AggregateConfig_init = \<lparr>consider_hierarchy = True, role_weight = [], bottleneck_penalty = Fin 1,
     reserve_exhaustion_penalty = Fin (5/4), response_feasibility_penalty = Fin (3/4)\<rparr>"

definition ResponseRule_init :: ResponseRule where
  "ResponseRule_init = \<lparr>rule_level = PL_High, rule_actions = []\<rparr>"

definition FreshnessConfig_init :: FreshnessConfig where
  "FreshnessConfig_init = \<lparr>default_max_age_us = 10 * 1000000, per_provider_max_age_us = []\<rparr>"

definition PressurePolicy_init :: PressurePolicy where
  "PressurePolicy_init = \<lparr>policy_version = 1, policy_name = ''default'', thresholds = Thresholds_init,
     hysteresis = HysteresisConfig_init, weights = ScoreWeights_init, aggregate = AggregateConfig_init,
     freshness = FreshnessConfig_init, response_rules = [], max_queued_events = 4096,
     max_relief_bytes = - 1\<rparr>"

definition policy_eq :: "PressurePolicy \<Rightarrow> PressurePolicy \<Rightarrow> bool" where
  "policy_eq p q \<longleftrightarrow> policy_version p = policy_version q \<and> policy_name p = policy_name q \<and>
     deq (elevated_enter (thresholds p)) (elevated_enter (thresholds q)) \<and>
     deq (high_enter (thresholds p)) (high_enter (thresholds q)) \<and>
     deq (critical_enter (thresholds p)) (critical_enter (thresholds q)) \<and>
     deq (exhausted_enter (thresholds p)) (exhausted_enter (thresholds q))"

section \<open>Validation\<close>

definition in01 :: "double \<Rightarrow> bool" where
  "in01 v \<longleftrightarrow> dge v (Fin 0) \<and> dle v (Fin 1) \<and> isfinite v"

definition ascending :: "double \<Rightarrow> double \<Rightarrow> bool" where
  "ascending a b \<longleftrightarrow> dle a b"

definition wok :: "double \<Rightarrow> bool" where
  "wok v \<longleftrightarrow> dge v (Fin 0) \<and> isfinite v"

definition validate_policy :: "PressurePolicy \<Rightarrow> string option" where
  "validate_policy p = (let t = thresholds p; w = weights p in first_problem
    [(\<not> in01 (normal_exit t) \<or> \<not> in01 (elevated_exit t) \<or> \<not> in01 (elevated_enter t) \<or>
      \<not> in01 (high_exit t) \<or> \<not> in01 (high_enter t) \<or> \<not> in01 (critical_exit t) \<or>
      \<not> in01 (critical_enter t) \<or> \<not> in01 (exhausted_exit t) \<or> \<not> in01 (exhausted_enter t),
      ''thresholds must all be finite and within [0,1]''),
     (\<not> (ascending (normal_exit t) (elevated_exit t) \<and>
          ascending (elevated_exit t) (elevated_enter t) \<and>
          ascending (elevated_enter t) (high_exit t) \<and>
          ascending (high_exit t) (high_enter t) \<and>
          ascending (high_enter t) (critical_exit t) \<and>
          ascending (critical_exit t) (critical_enter t) \<and>
          ascending (critical_enter t) (exhausted_exit t) \<and>
          ascending (exhausted_exit t) (exhausted_enter t)),
      ''thresholds are not in ascending order (descending severity or inverted band)''),
     (\<not> wok (w_utilization w) \<or> \<not> wok (w_free_deficit w) \<or> \<not> wok (w_reserve_deficit w) \<or>
      \<not> wok (w_growth_rate w) \<or> \<not> wok (w_allocation_failure w) \<or> \<not> wok (w_fragmentation w) \<or>
      \<not> wok (w_reclaimable_deficit w) \<or> \<not> wok (w_confidence_penalty w) \<or> \<not> wok (w_stale_penalty w),
      ''scoring weights must be finite and non-negative''),
     (max_queued_events p = 0, ''max_queued_events must be positive''),
     (min_dwell_observations (hysteresis p) = 0, ''min_dwell_observations must be positive'')])"

definition default_policy :: PressurePolicy where
  "default_policy = PressurePolicy_init\<lparr>policy_version := 1, policy_name := ''default'', max_relief_bytes := - 1,
     response_rules :=
      [\<lparr>rule_level = PL_High, rule_actions = [RA_Warn, RA_RequestReclaim]\<rparr>,
       \<lparr>rule_level = PL_Critical,
        rule_actions = [RA_RequestDemotion, RA_RequestReclaim, RA_ReduceAdmission, RA_Throttle]\<rparr>,
       \<lparr>rule_level = PL_Exhausted,
        rule_actions = [RA_EmergencyStopGrowth, RA_RejectNewWork, RA_RequestDemotion, RA_RequestReclaim]\<rparr>]\<rparr>"

section \<open>What validation gives\<close>

text \<open>The threshold set of a valid policy: finite values of the unit interval in ascending order.\<close>

definition thresholds_ok :: "Thresholds \<Rightarrow> bool" where
  "thresholds_ok t \<longleftrightarrow> list_all unit_double
      [normal_exit t, elevated_exit t, elevated_enter t, high_exit t, high_enter t, critical_exit t,
       critical_enter t, exhausted_exit t, exhausted_enter t] \<and>
     sorted_wrt dle
      [normal_exit t, elevated_exit t, elevated_enter t, high_exit t, high_enter t, critical_exit t,
       critical_enter t, exhausted_exit t, exhausted_enter t]"

definition weights_ok :: "ScoreWeights \<Rightarrow> bool" where
  "weights_ok w \<longleftrightarrow> list_all wok
      [w_utilization w, w_free_deficit w, w_reserve_deficit w, w_growth_rate w, w_allocation_failure w,
       w_fragmentation w, w_reclaimable_deficit w, w_confidence_penalty w, w_stale_penalty w]"

lemma in01_unit: "in01 v \<longleftrightarrow> unit_double v"
  by (cases v) (auto simp: in01_def unit_double_def)

lemma wok_iff: "wok v \<longleftrightarrow> (\<exists>r. v = Fin r \<and> 0 \<le> r)"
  by (cases v) (auto simp: wok_def)

lemma transp_dle: "transp dle"
  by (rule transpI) (rule dle_trans)

lemma validate_policy_None: "validate_policy p = None \<longleftrightarrow>
    thresholds_ok (thresholds p) \<and> weights_ok (weights p) \<and>
    max_queued_events p \<noteq> 0 \<and> min_dwell_observations (hysteresis p) \<noteq> 0"
  by (simp add: validate_policy_def thresholds_ok_def weights_ok_def in01_unit ascending_def
      sorted_wrt2 [OF transp_dle] sorted_wrt1 Let_def del: sorted_wrt.simps) blast

text \<open>The rationals behind a valid threshold set.\<close>

lemma thresholds_okE:
  assumes "thresholds_ok t"
  obtains ne xe ee xh eh xc ec xx ex where
    "t = \<lparr>normal_exit = Fin ne, elevated_enter = Fin ee, elevated_exit = Fin xe, high_enter = Fin eh,
        high_exit = Fin xh, critical_enter = Fin ec, critical_exit = Fin xc, exhausted_enter = Fin ex,
        exhausted_exit = Fin xx\<rparr>"
    "0 \<le> ne" "ne \<le> xe" "xe \<le> ee" "ee \<le> xh" "xh \<le> eh" "eh \<le> xc" "xc \<le> ec" "ec \<le> xx" "xx \<le> ex" "ex \<le> 1"
  using assms unfolding thresholds_ok_def by (cases t) (auto simp: unit_double_def)

lemma fl_in_unit: "0 \<le> x \<Longrightarrow> x \<le> 1 \<Longrightarrow> unit_double (fl x)"
  using fl_unit [of x] by (simp add: unit_double_def)

lemma thresholds_ok_init: "thresholds_ok Thresholds_init"
  by (simp add: thresholds_ok_def Thresholds_init_def fl_in_unit fl_mono)

lemma weights_ok_init: "weights_ok ScoreWeights_init"
  by (simp add: weights_ok_def ScoreWeights_init_def wok_def)

lemma default_policy_valid: "validate_policy default_policy = None"
  by (simp add: validate_policy_None default_policy_def PressurePolicy_init_def HysteresisConfig_init_def
      thresholds_ok_init weights_ok_init)

end
