(* ===== verification/Scoring.thy ===== *)
theory Scoring imports Policies begin

text \<open>
  score.h and \<open>score_domain\<close> of core.cpp: the normalized components of a domain's pressure
  score and their weighted mean, in the order and the rounding in which the loop computes it.
\<close>

record PressureScore =
  ps_score_version :: i32
  ps_value :: double
  ps_utilization_component :: double
  ps_free_deficit_component :: double
  ps_reserve_deficit_component :: double
  ps_growth_component :: double
  ps_allocation_failure_component :: double
  ps_confidence_penalty :: double
  ps_stale_penalty :: double

fun confidence_penalty :: "Confidence \<Rightarrow> double" where
  "confidence_penalty Conf_Authoritative = Fin 0"
| "confidence_penalty Conf_High = fl (15/100)"
| "confidence_penalty Conf_Medium = fl (40/100)"
| "confidence_penalty Conf_Low = fl (65/100)"
| "confidence_penalty Conf_Unknown = Fin 1"

fun validity_penalty :: "Validity \<Rightarrow> double" where
  "validity_penalty Val_Valid = Fin 0"
| "validity_penalty Val_Stale = fl (85/100)"
| "validity_penalty Val_Partial = fl (35/100)"
| "validity_penalty Val_Failed = Fin 1"
| "validity_penalty Val_Unavailable = Fin 1"

text \<open>\<open>std::min(1.0, static_cast<double>(allocation_failures) / 5.0)\<close>.\<close>

definition allocation_component :: "i32 \<Rightarrow> double" where
  "allocation_component failures = std_min (Fin 1) (ddiv (of_i32 failures) (Fin 5))"

text \<open>One turn of the loop that accumulates the numerator and the denominator.\<close>

definition score_step :: "double \<times> double \<Rightarrow> double \<times> double \<Rightarrow> double \<times> double" where
  "score_step = (\<lambda>(w, c) (num, den). (dadd num (dmul w c), dadd den w))"

definition score_mean :: "(double \<times> double) list \<Rightarrow> double" where
  "score_mean wcs = (case fold score_step wcs (Fin 0, Fin 0) of (num, den) \<Rightarrow>
     if dgt den (Fin 0) then clamp01 (ddiv num den) else Fin 0)"

definition score_domain ::
  "double \<Rightarrow> bool \<Rightarrow> double \<Rightarrow> double \<Rightarrow> double \<Rightarrow> i32 \<Rightarrow> Confidence \<Rightarrow> Validity \<Rightarrow> ScoreWeights \<Rightarrow> PressureScore" where
  "score_domain utilization governed free_fraction reserve_deficit_fraction growth_factor
     allocation_failures confidence validity w =
    (let uc = clamp01 utilization;
         fd = clamp01 (dsub (Fin 1) free_fraction);
         rd = clamp01 reserve_deficit_fraction;
         gc = clamp01 growth_factor;
         af = allocation_component allocation_failures;
         cp = confidence_penalty confidence;
         sp = validity_penalty validity;
         fd = (if \<not> governed then clamp01 (dsub (Fin 1) free_fraction) else fd);
         comps = [uc, fd, rd, gc, af, cp, sp];
         ws = [w_utilization w, w_free_deficit w, w_reserve_deficit w, w_growth_rate w,
               w_allocation_failure w, w_confidence_penalty w, w_stale_penalty w]
     in \<lparr>ps_score_version = 1, ps_value = score_mean (zip ws comps), ps_utilization_component = uc,
         ps_free_deficit_component = fd, ps_reserve_deficit_component = rd, ps_growth_component = gc,
         ps_allocation_failure_component = af, ps_confidence_penalty = cp, ps_stale_penalty = sp\<rparr>)"

section \<open>The components\<close>

lemma confidence_penalty_unit: "unit_double (confidence_penalty c)"
  by (cases c) (simp_all add: fl_in_unit unit_double_def [of "Fin _"])

lemma validity_penalty_unit: "unit_double (validity_penalty v)"
  by (cases v) (simp_all add: fl_in_unit unit_double_def [of "Fin _"])

lemma allocation_component_unit: assumes "0 \<le> sint n" shows "unit_double (allocation_component n)"
proof -
  have n: "0 \<le> i32_rat n" using assms by (simp add: i32_rat_nonneg)
  moreover have "i32_rat n / 5 \<le> pow2 1023"
    using i32_rat_bound [of n] n pow2_mono [of 53 1023] by linarith
  ultimately have "fl (i32_rat n / 5) = Fin (rnd64 (i32_rat n / 5))" "0 \<le> rnd64 (i32_rat n / 5)"
    by (auto intro: fl_Fin b64.nonneg)
  then show ?thesis
    by (auto simp: allocation_component_def of_i32_Fin std_min_def unit_double_def)
qed

lemma clamp01_mono: "dle x y \<Longrightarrow> dle (clamp01 x) (clamp01 y)"
  by (cases x; cases y) (auto simp: clamp01_def)

section \<open>The weighted mean\<close>

text \<open>
  Two runs of the loop over the same weights and pointwise ordered components: both stay finite,
  the denominators agree and the numerators are ordered. \<open>2^1000\<close> bounds the weights, which leaves
  room for the additions below the overflow threshold.
\<close>

definition weight_bounded :: "double \<Rightarrow> bool" where
  "weight_bounded w \<longleftrightarrow> wok w \<and> dle w (Fin (pow2 1000))"

lemma rnd64_pow2_le: "0 \<le> k \<Longrightarrow> x \<le> pow2 k \<Longrightarrow> rnd64 x \<le> pow2 k"
  using b64.le_fixed [OF rnd64_pow2 [of k]] by simp

lemma fl_pow2_Fin: fixes x :: rat and k :: int shows "0 \<le> x \<Longrightarrow> x \<le> pow2 k \<Longrightarrow> k \<le> 1023 \<Longrightarrow> fl x = Fin (rnd64 x)"
  using pow2_mono [of k 1023] by (intro fl_Fin) simp

lemma score_fold_mono:
  assumes "list_all weight_bounded ws" "length cs = length ws" "length cs' = length ws"
    and "list_all unit_double cs" "list_all unit_double cs'" "list_all2 dle cs cs'"
    and "0 \<le> n" "n \<le> n'" "n' \<le> pow2 k" "0 \<le> d" "d \<le> pow2 k" "1000 \<le> k" "k + int (length ws) \<le> 1023"
  shows "\<exists>m m' e. fold score_step (zip ws cs) (Fin n, Fin d) = (Fin m, Fin e) \<and>
     fold score_step (zip ws cs') (Fin n', Fin d) = (Fin m', Fin e) \<and> 0 \<le> m \<and> m \<le> m' \<and> 0 \<le> e"
  using assms
proof (induction ws arbitrary: cs cs' n n' d k)
  case Nil
  then show ?case by simp
next
  case (Cons w ws)
  from Cons.prems obtain c cs1 c' cs1' where cs: "cs = c # cs1" "cs' = c' # cs1'"
    by (cases cs; cases cs') auto
  from Cons.prems(1) obtain wq where w: "w = Fin wq" "0 \<le> wq" "wq \<le> pow2 1000"
    by (auto simp: weight_bounded_def wok_iff)
  from Cons.prems cs obtain cq cq' where c: "c = Fin cq" "c' = Fin cq'" "0 \<le> cq" "cq \<le> cq'" "cq' \<le> 1"
    by (auto simp: unit_double_def)
  have wk: "wq \<le> pow2 k" using w pow2_mono [OF Cons.prems(12)] by linarith
  have prod: "0 \<le> wq * cq" "wq * cq \<le> wq * cq'" "wq * cq' \<le> pow2 k"
    using w c wk mult_left_mono [of cq cq' wq] mult_left_le [of cq' wq] by auto
  let ?p = "rnd64 (wq * cq)" and ?p' = "rnd64 (wq * cq')"
  have p: "0 \<le> ?p" "?p \<le> ?p'" "?p' \<le> pow2 k"
    using prod Cons.prems(12) by (auto intro: b64.nonneg rnd64_mono rnd64_pow2_le)
  have k1: "pow2 (k + 1) = pow2 k + pow2 k" by (simp add: pow2_add)
  have sums: "0 \<le> n + ?p" "n + ?p \<le> n' + ?p'" "n' + ?p' \<le> pow2 (k + 1)" "0 \<le> d + wq" "d + wq \<le> pow2 (k + 1)"
    using Cons.prems p w wk k1 by auto
  have k2: "k + 1 \<le> 1023" "1000 \<le> k + 1" using Cons.prems by auto
  have fin: "score_step (w, c) (Fin n, Fin d) = (Fin (rnd64 (n + ?p)), Fin (rnd64 (d + wq)))"
    "score_step (w, c') (Fin n', Fin d) = (Fin (rnd64 (n' + ?p')), Fin (rnd64 (d + wq)))"
    using w c prod p sums k2 fl_pow2_Fin [of _ k] fl_pow2_Fin [of _ "k + 1"]
    by (auto simp: score_step_def)
  have len: "length cs1 = length ws" "length cs1' = length ws" "k + 1 + int (length ws) \<le> 1023"
    using Cons.prems cs by auto
  have "\<exists>m m' e. fold score_step (zip ws cs1) (Fin (rnd64 (n + ?p)), Fin (rnd64 (d + wq))) = (Fin m, Fin e) \<and>
     fold score_step (zip ws cs1') (Fin (rnd64 (n' + ?p')), Fin (rnd64 (d + wq))) = (Fin m', Fin e) \<and>
     0 \<le> m \<and> m \<le> m' \<and> 0 \<le> e"
    using Cons.prems cs len sums k2
    by (intro Cons.IH [where k = "k + 1"])
       (auto intro: b64.nonneg rnd64_mono rnd64_pow2_le)
  then show ?case using cs fin by simp
qed

lemma score_mean_mono:
  assumes "list_all weight_bounded ws" "length cs = length ws" "length cs' = length ws" "length ws \<le> 20"
    and "list_all unit_double cs" "list_all unit_double cs'" "list_all2 dle cs cs'"
  shows "unit_double (score_mean (zip ws cs)) \<and> dle (score_mean (zip ws cs)) (score_mean (zip ws cs'))"
proof -
  have "\<exists>m m' e. fold score_step (zip ws cs) (Fin 0, Fin 0) = (Fin m, Fin e) \<and>
     fold score_step (zip ws cs') (Fin 0, Fin 0) = (Fin m', Fin e) \<and> 0 \<le> m \<and> m \<le> m' \<and> 0 \<le> e"
    using assms by (intro score_fold_mono [of ws cs cs' 0 0 1000 0]) auto
  then obtain m m' e where e: "fold score_step (zip ws cs) (Fin 0, Fin 0) = (Fin m, Fin e)"
    "fold score_step (zip ws cs') (Fin 0, Fin 0) = (Fin m', Fin e)" "m \<le> m'" by blast
  show ?thesis
  proof (cases "0 < e")
    case True
    then have "m / e \<le> m' / e" using e by (simp add: divide_right_mono)
    then show ?thesis using True e
      by (auto simp: score_mean_def intro!: clamp01_range clamp01_mono fl_mono)
  next
    case False
    then show ?thesis using e by (simp add: score_mean_def unit_double_def)
  qed
qed

section \<open>The score of a domain\<close>

definition score_weights :: "ScoreWeights \<Rightarrow> double list" where
  "score_weights w = [w_utilization w, w_free_deficit w, w_reserve_deficit w, w_growth_rate w,
     w_allocation_failure w, w_confidence_penalty w, w_stale_penalty w]"

definition score_components :: "PressureScore \<Rightarrow> double list" where
  "score_components s = [ps_utilization_component s, ps_free_deficit_component s,
     ps_reserve_deficit_component s, ps_growth_component s, ps_allocation_failure_component s,
     ps_confidence_penalty s, ps_stale_penalty s]"

lemma score_value: "ps_value (score_domain u g f r gr n c v w) =
    score_mean (zip (score_weights w) (score_components (score_domain u g f r gr n c v w)))"
  by (simp add: score_domain_def score_weights_def score_components_def Let_def)

lemma dsub_not_NaN: "f \<noteq> NaN \<Longrightarrow> dsub (Fin a) f \<noteq> NaN"
  by (cases f) (simp_all add: dsub_def)

lemma score_components_unit:
  assumes "u \<noteq> NaN" "f \<noteq> NaN" "r \<noteq> NaN" "gr \<noteq> NaN" "0 \<le> sint n"
  shows "list_all unit_double (score_components (score_domain u g f r gr n c v w))"
  using assms by (simp add: score_components_def score_domain_def Let_def clamp01_range dsub_not_NaN
      allocation_component_unit confidence_penalty_unit validity_penalty_unit)

lemma list_all2_dle_refl: "list_all unit_double cs \<Longrightarrow> list_all2 dle cs cs"
  by (induction cs) (auto simp: dle_refl unit_double_not_NaN)

lemma length_score [simp]: "length (score_weights w) = 7" "length (score_components s) = 7"
  by (simp_all add: score_weights_def score_components_def)

text \<open>Two scores under one weighting, ordered like their components.\<close>

lemma score_domain_mono:
  assumes "list_all weight_bounded (score_weights w)"
    and "list_all unit_double (score_components (score_domain u g f r gr n c v w))"
    and "list_all unit_double (score_components (score_domain u' g' f' r' gr' n' c' v' w))"
    and "list_all2 dle (score_components (score_domain u g f r gr n c v w))
           (score_components (score_domain u' g' f' r' gr' n' c' v' w))"
  shows "unit_double (ps_value (score_domain u g f r gr n c v w)) \<and>
    dle (ps_value (score_domain u g f r gr n c v w)) (ps_value (score_domain u' g' f' r' gr' n' c' v' w))"
  unfolding score_value by (rule score_mean_mono [OF assms(1) _ _ _ assms(2) assms(3) assms(4)]) simp_all

lemma dle_PosInf: "x \<noteq> NaN \<Longrightarrow> dle x PosInf" and dle_NegInf: "x \<noteq> NaN \<Longrightarrow> dle NegInf x"
  by (cases x; simp)+

lemma dsub_antimono: "dle f' f \<Longrightarrow> dle (dsub (Fin 1) f) (dsub (Fin 1) f')"
  by (cases f; cases f') (auto simp: dsub_def dle_PosInf dle_NegInf intro!: fl_mono)

lemma i32_rat_le: "i32_rat m \<le> i32_rat n \<longleftrightarrow> sint m \<le> sint n"
  unfolding i32_rat_def by (rule of_int_le_iff)

lemma allocation_component_mono:
  assumes "sint m \<le> sint n" shows "dle (allocation_component m) (allocation_component n)"
proof -
  have "i32_rat m / 5 \<le> i32_rat n / 5" using assms by (simp add: i32_rat_le divide_right_mono)
  then have "dle (fl (i32_rat m / 5)) (fl (i32_rat n / 5))" by (rule fl_mono)
  then show ?thesis unfolding allocation_component_def of_i32_Fin std_min_def
    by (cases "fl (i32_rat m / 5)"; cases "fl (i32_rat n / 5)") auto
qed

text \<open>
  C7. Under weights that a valid policy allows and that are at most \<open>2^1000\<close>, and for inputs that are
  not NaN with a nonnegative failure count, the score is finite and normalized to \<open>[0,1]\<close>, and it is
  monotone: more utilization, a larger reserve deficit, faster growth or more failures, or
  less free capacity, never lower it. Every rounding of the accumulation and of the division is included.
\<close>

theorem score_normalized_monotone:
  assumes weights: "list_all weight_bounded (score_weights w)"
    and ordered: "dle u u'" "dle f' f" "dle r r'" "dle gr gr'" "0 \<le> sint n" "sint n \<le> sint n'"
  shows "unit_double (ps_value (score_domain u g f r gr n c v w)) \<and>
    dle (ps_value (score_domain u g f r gr n c v w)) (ps_value (score_domain u' g f' r' gr' n' c v w))"
proof (rule score_domain_mono [OF weights])
  have ok: "u \<noteq> NaN" "f \<noteq> NaN" "r \<noteq> NaN" "gr \<noteq> NaN" "u' \<noteq> NaN" "f' \<noteq> NaN" "r' \<noteq> NaN" "gr' \<noteq> NaN" "0 \<le> sint n'"
    using ordered by (auto dest: dle_not_NaN)
  show "list_all unit_double (score_components (score_domain u g f r gr n c v w))"
    "list_all unit_double (score_components (score_domain u' g f' r' gr' n' c v w))"
    using ok ordered(5) by (simp_all add: score_components_unit)
  show "list_all2 dle (score_components (score_domain u g f r gr n c v w))
      (score_components (score_domain u' g f' r' gr' n' c v w))"
    using ordered by (simp add: score_components_def score_domain_def Let_def clamp01_mono dsub_antimono
        allocation_component_mono dle_refl unit_double_not_NaN confidence_penalty_unit validity_penalty_unit)
qed

lemma weight_bounded_init: "list_all weight_bounded (score_weights ScoreWeights_init)"
proof -
  have "(4::rat) \<le> pow2 1000" using pow2_mono [of 2 1000] by (simp add: pow2_nat)
  then show ?thesis
    by (simp add: score_weights_def ScoreWeights_init_def weight_bounded_def wok_def)
qed

lemma score_normalized_monotone_witness:
  "unit_double (ps_value (score_domain (Fin (1/2)) True (Fin (1/2)) (Fin 0) (Fin 0) 0 Conf_High Val_Valid ScoreWeights_init)) \<and>
   dle (ps_value (score_domain (Fin (1/2)) True (Fin (1/2)) (Fin 0) (Fin 0) 0 Conf_High Val_Valid ScoreWeights_init))
     (ps_value (score_domain (Fin 2) True (Fin 0) (Fin (1/4)) PosInf 3 Conf_High Val_Valid ScoreWeights_init))"
  by (rule score_normalized_monotone [OF weight_bounded_init]) simp_all

lemma overflow_fold:
  "list_all (\<lambda>(w, c). isfinite w) wcs \<Longrightarrow> num \<in> {PosInf, NaN} \<Longrightarrow>
    \<exists>m \<in> {PosInf, NaN}. fold score_step wcs (num, PosInf) = (m, PosInf)"
proof (induction wcs arbitrary: num)
  case (Cons wc wcs)
  obtain w c where wc: "wc = (Fin w, c)" using Cons.prems by (cases wc) (auto simp: isfinite_iff)
  have "dadd num x \<in> {PosInf, NaN}" for x using Cons.prems(2) by (cases x) auto
  then show ?case using Cons.IH [of "dadd num (dmul (Fin w) c)"] Cons.prems(1) by (simp add: wc score_step_def)
qed simp

definition huge_weights :: ScoreWeights where
  "huge_weights = ScoreWeights_init\<lparr>w_utilization := Fin (pow2 1023), w_free_deficit := Fin (pow2 1023)\<rparr>"

lemma fl_pow2_1023: "fl (pow2 1023) = Fin (pow2 1023)"
  by (simp add: fl_Fin rnd64_pow2)

lemma fl_pow2_1024: "fl (2 * pow2 1023) = PosInf"
proof -
  have "2 * pow2 1023 = pow2 1024" using pow2_add [of 1023 1] by simp
  then show ?thesis by (simp only: fl_def pow2_1024 Let_def rnd64_pow2) simp
qed

text \<open>
  The bound on the weights is needed: the validator accepts any finite nonnegative weight, and
  with two weights of \<open>2^1023\<close> both sums overflow, so that the published score is NaN.
\<close>

lemma score_overflow:
  "validate_policy (default_policy\<lparr>weights := huge_weights\<rparr>) = None \<and>
   ps_value (score_domain (Fin 1) True (Fin 0) r gr n c v huge_weights) = NaN"
proof
  show "validate_policy (default_policy\<lparr>weights := huge_weights\<rparr>) = None"
    using default_policy_valid by (simp add: validate_policy_None weights_ok_def huge_weights_def wok_def
        default_policy_def PressurePolicy_init_def ScoreWeights_init_def)
  let ?s = "score_domain (Fin 1) True (Fin 0) r gr n c v huge_weights"
  obtain c3 c4 c5 c6 c7 where cs: "score_components ?s = [Fin 1, Fin 1, c3, c4, c5, c6, c7]"
    by (simp add: score_components_def score_domain_def Let_def clamp01_def dsub_def)
  let ?rest = "zip (drop 2 (score_weights huge_weights)) [c3, c4, c5, c6, c7]"
  have "zip (score_weights huge_weights) (score_components ?s) =
      (Fin (pow2 1023), Fin 1) # (Fin (pow2 1023), Fin 1) # ?rest"
    unfolding cs by (simp add: score_weights_def huge_weights_def)
  then have start: "fold score_step (zip (score_weights huge_weights) (score_components ?s)) (Fin 0, Fin 0) =
      fold score_step ?rest (PosInf, PosInf)"
    by (simp add: score_step_def fl_pow2_1023 fl_pow2_1024)
  have "list_all (\<lambda>(w, c). isfinite w) ?rest"
    by (simp add: score_weights_def huge_weights_def ScoreWeights_init_def)
  from overflow_fold [OF this, of PosInf] obtain m where
    "m \<in> {PosInf, NaN}" "fold score_step ?rest (PosInf, PosInf) = (m, PosInf)" by blast
  then show "ps_value ?s = NaN"
    unfolding score_value score_mean_def start by auto
qed

end
