(* ===== verification/Hysteresis.thy ===== *)
theory Hysteresis imports Policies begin

text \<open>
  hysteresis.h and its part of core.cpp: the threshold classifier \<open>evaluate_level\<close> and the
  debouncing state machine \<open>HysteresisState\<close>. The machine's transitions are also given as a
  step relation \<open>hyst_step\<close>, which \<open>update\<close> implements; the properties of a whole run
  (what a transition needs, what makes one happen) rest on an invariant that relates the
  state to the history of its inputs.
\<close>

section \<open>Threshold evaluation\<close>

fun evaluate_level :: "double \<Rightarrow> PressureLevel \<Rightarrow> Thresholds \<Rightarrow> PressureLevel" where
  "evaluate_level u PL_Elevated t =
    (if dge u (exhausted_enter t) then PL_Exhausted
     else if dge u (critical_enter t) then PL_Critical
     else if dge u (high_enter t) then PL_High
     else if dge u (elevated_enter t) then PL_Elevated
     else if dle u (normal_exit t) then PL_Normal
     else PL_Elevated)"
| "evaluate_level u PL_High t =
    (if dge u (exhausted_enter t) then PL_Exhausted
     else if dge u (critical_enter t) then PL_Critical
     else if dge u (high_enter t) then PL_High
     else if dle u (high_exit t) then PL_Elevated
     else PL_High)"
| "evaluate_level u PL_Critical t =
    (if dge u (exhausted_enter t) then PL_Exhausted
     else if dge u (critical_enter t) then PL_Critical
     else if dle u (critical_exit t) then PL_High
     else PL_Critical)"
| "evaluate_level u PL_Exhausted t =
    (if dge u (exhausted_enter t) then PL_Exhausted
     else if dle u (exhausted_exit t) then PL_Critical
     else PL_Exhausted)"
| "evaluate_level u current t =
    (if dge u (exhausted_enter t) then PL_Exhausted
     else if dge u (critical_enter t) then PL_Critical
     else if dge u (high_enter t) then PL_High
     else if dge u (elevated_enter t) then PL_Elevated
     else PL_Normal)"

section \<open>The debouncing machine\<close>

record HysteresisState =
  hs_cfg :: HysteresisConfig
  hs_level :: PressureLevel
  hs_pending :: PressureLevel
  hs_pending_obs :: u32
  hs_pending_since_ms :: u64

definition HysteresisState_new :: "HysteresisConfig \<Rightarrow> HysteresisState" where
  "HysteresisState_new cfg = \<lparr>hs_cfg = cfg, hs_level = PL_Normal, hs_pending = PL_Unknown,
     hs_pending_obs = 0, hs_pending_since_ms = 0\<rparr>"

text \<open>The early returns of \<open>update\<close> set the level and clear the pending candidate.\<close>

definition settle :: "PressureLevel \<Rightarrow> HysteresisState \<Rightarrow> HysteresisState" where
  "settle l s = s\<lparr>hs_level := l, hs_pending := PL_Unknown, hs_pending_obs := 0\<rparr>"

definition observe :: "PressureLevel \<Rightarrow> u64 \<Rightarrow> HysteresisState \<Rightarrow> HysteresisState" where
  "observe raw now s =
    (let s = (if hs_pending s \<noteq> raw
              then s\<lparr>hs_pending := raw, hs_pending_obs := 1, hs_pending_since_ms := now\<rparr>
              else s\<lparr>hs_pending_obs := hs_pending_obs s + 1\<rparr>)
     in if max_debounce_observations (hs_cfg s) < hs_pending_obs s
        then s\<lparr>hs_pending_obs := max_debounce_observations (hs_cfg s)\<rparr> else s)"

definition dwell_ok :: "bool \<Rightarrow> u64 \<Rightarrow> HysteresisState \<Rightarrow> bool" where
  "dwell_ok escalating now s =
    (let cfg = hs_cfg s; since = now - hs_pending_since_ms s;
         obs_ok = min_dwell_observations cfg \<le> hs_pending_obs s;
         time_ok = dge (of_u64 since) (min_dwell_duration_ms cfg);
         wait = (if escalating then escalation_delay_ms cfg else recovery_delay_ms cfg);
         delay_ok = dge (of_u64 since) wait
     in obs_ok \<and> time_ok \<and> delay_ok)"

definition hyst_update :: "PressureLevel \<Rightarrow> u64 \<Rightarrow> HysteresisState \<Rightarrow> HysteresisState" where
  "hyst_update raw now s =
    (if raw = hs_level s then settle (hs_level s) s
     else let escalating = severity_rank (hs_level s) < severity_rank raw in
       if raw = PL_Exhausted \<and> immediate_emergency_escalation (hs_cfg s) \<and> escalating then settle raw s
       else let s = observe raw now s in
         if dwell_ok escalating now s then settle raw s else s)"

definition hyst_reset :: "HysteresisState \<Rightarrow> HysteresisState" where
  "hyst_reset s = s\<lparr>hs_level := PL_Normal, hs_pending := PL_Unknown, hs_pending_obs := 0\<rparr>"

definition in_hold :: "HysteresisState \<Rightarrow> bool" where
  "in_hold s \<longleftrightarrow> hs_pending s \<noteq> PL_Unknown"

text \<open>The closed loop of the runtime: classify against the resolved level, then debounce.\<close>

definition hyst_drive :: "Thresholds \<Rightarrow> double \<times> u64 \<Rightarrow> HysteresisState \<Rightarrow> HysteresisState" where
  "hyst_drive t = (\<lambda>(u, now) s. hyst_update (evaluate_level u (hs_level s) t) now s)"

lemma dge_of_u64: "dle d (Fin 0) \<Longrightarrow> dge (of_u64 x) d"
  by (erule dle_trans) (simp add: of_u64_Fin b64.nonneg)

section \<open>Laws of the classifier\<close>

text \<open>The thresholds by which a level is entered and left.\<close>

fun enter_threshold :: "Thresholds \<Rightarrow> PressureLevel \<Rightarrow> double" where
  "enter_threshold t PL_Elevated = elevated_enter t"
| "enter_threshold t PL_High = high_enter t"
| "enter_threshold t PL_Critical = critical_enter t"
| "enter_threshold t PL_Exhausted = exhausted_enter t"
| "enter_threshold t l = Fin 0"

fun exit_threshold :: "Thresholds \<Rightarrow> PressureLevel \<Rightarrow> double" where
  "exit_threshold t PL_Elevated = normal_exit t"
| "exit_threshold t PL_High = high_exit t"
| "exit_threshold t PL_Critical = critical_exit t"
| "exit_threshold t PL_Exhausted = exhausted_exit t"
| "exit_threshold t l = Fin 0"

lemma exit_le_enter: "thresholds_ok t \<Longrightarrow> dle (exit_threshold t l) (enter_threshold t l)"
  by (erule thresholds_okE, cases l) auto

lemma evaluate_known: "evaluate_level u l t \<noteq> PL_Unknown"
  by (cases l) auto

lemma evaluate_NaN: "l \<noteq> PL_Unknown \<Longrightarrow> evaluate_level NaN l t = l"
  by (cases l) auto

lemma evaluate_escalates: "severity_rank l < severity_rank (evaluate_level u l t) \<Longrightarrow>
    evaluate_level u l t = PL_Normal \<or> dge u (enter_threshold t (evaluate_level u l t))"
  by (cases l) (auto split: if_splits)

lemma evaluate_recovers: "severity_rank (evaluate_level u l t) < severity_rank l \<Longrightarrow>
    dle u (exit_threshold t l) \<and> severity_rank (evaluate_level u l t) = severity_rank l - 1"
  by (cases l) (auto split: if_splits)

lemma evaluate_mono_u:
  assumes "dle u u'" shows "severity_rank (evaluate_level u l t) \<le> severity_rank (evaluate_level u' l t)"
proof -
  have up: "dge u x \<Longrightarrow> dge u' x" and down: "dle u' x \<Longrightarrow> dle u x" for x
    using assms dle_trans by blast+
  show ?thesis by (cases l) (auto dest: up down)
qed

lemma evaluate_mono_level:
  assumes "thresholds_ok t" "l \<noteq> PL_Unknown" "l' \<noteq> PL_Unknown" "severity_rank l \<le> severity_rank l'"
  shows "severity_rank (evaluate_level u l t) \<le> severity_rank (evaluate_level u l' t)"
proof -
  have fin: ?thesis if "u = Fin r" for r
    using assms that by (elim thresholds_okE, cases l; cases l') auto
  have inf: ?thesis if "u = PosInf \<or> u = NegInf \<or> u = NaN"
    using assms that by (elim thresholds_okE, cases l; cases l') auto
  show ?thesis using fin inf by (cases u) auto
qed

section \<open>The machine as a step relation\<close>

text \<open>
  The transitions of the state machine: agreement clears the candidate, an emergency jumps, an
  observation that is not yet sufficient holds, a sufficient one commits.
\<close>

inductive hyst_step :: "PressureLevel \<Rightarrow> u64 \<Rightarrow> HysteresisState \<Rightarrow> HysteresisState \<Rightarrow> bool" where
  agree: "raw = hs_level s \<Longrightarrow> hyst_step raw now s (settle raw s)"
| emergency: "hs_level s \<noteq> PL_Exhausted \<Longrightarrow> immediate_emergency_escalation (hs_cfg s) \<Longrightarrow>
    hyst_step PL_Exhausted now s (settle PL_Exhausted s)"
| hold: "raw \<noteq> hs_level s \<Longrightarrow> \<not> (raw = PL_Exhausted \<and> immediate_emergency_escalation (hs_cfg s)) \<Longrightarrow>
    \<not> dwell_ok (severity_rank (hs_level s) < severity_rank raw) now (observe raw now s) \<Longrightarrow>
    hyst_step raw now s (observe raw now s)"
| commit: "raw \<noteq> hs_level s \<Longrightarrow> \<not> (raw = PL_Exhausted \<and> immediate_emergency_escalation (hs_cfg s)) \<Longrightarrow>
    dwell_ok (severity_rank (hs_level s) < severity_rank raw) now (observe raw now s) \<Longrightarrow>
    hyst_step raw now s (settle raw (observe raw now s))"

inductive_cases hyst_stepE: "hyst_step raw now s s'"

lemma observe_fields [simp]:
  "hs_cfg (observe raw now s) = hs_cfg s" "hs_level (observe raw now s) = hs_level s"
  "hs_pending (observe raw now s) = raw"
  by (simp_all add: observe_def Let_def)

lemma settle_fields [simp]:
  "hs_cfg (settle l s) = hs_cfg s" "hs_level (settle l s) = l" "hs_pending (settle l s) = PL_Unknown"
  "hs_pending_obs (settle l s) = 0" "hs_pending_since_ms (settle l s) = hs_pending_since_ms s"
  by (simp_all add: settle_def)

lemma rank_less_4 [simp]: "severity_rank l < 4 \<longleftrightarrow> l \<noteq> PL_Exhausted"
  by (cases l) auto

lemma hyst_update_step: "hyst_step raw now s (hyst_update raw now s)"
proof -
  have s: "hs_level s = raw \<Longrightarrow> settle (hs_level s) s = settle raw s" by simp
  show ?thesis
    unfolding hyst_update_def Let_def
    by (auto intro: hyst_step.intros hyst_step.agree [of "hs_level s" s])
qed

lemma hyst_step_iff: "hyst_step raw now s s' \<longleftrightarrow> s' = hyst_update raw now s"
proof
  assume "hyst_step raw now s s'"
  then show "s' = hyst_update raw now s"
    by cases (auto simp: hyst_update_def Let_def)
qed (simp add: hyst_update_step)

lemma hyst_update_cfg [simp]: "hs_cfg (hyst_update raw now s) = hs_cfg s"
  using hyst_update_step [of raw now s] by (auto elim: hyst_stepE)

lemma hyst_update_level: "hs_level (hyst_update raw now s) \<in> {hs_level s, raw}"
  using hyst_update_step [of raw now s] by (auto elim: hyst_stepE)

section \<open>The history behind a pending candidate\<close>

text \<open>
  The state against the inputs consumed so far: a pending candidate is backed by a suffix of the
  history in which every input proposes it, at least as long as the counter and begun at the recorded
  time.
\<close>

definition backed :: "(PressureLevel \<times> u64) list \<Rightarrow> HysteresisState \<Rightarrow> (PressureLevel \<times> u64) list \<Rightarrow> bool" where
  "backed hist s ys \<longleftrightarrow> (\<exists>xs. hist = xs @ ys) \<and> ys \<noteq> [] \<and> (\<forall>y \<in> set ys. fst y = hs_pending s) \<and>
     snd (hd ys) = hs_pending_since_ms s \<and> unat (hs_pending_obs s) \<le> length ys"

definition hyst_inv :: "(PressureLevel \<times> u64) list \<times> HysteresisState \<Rightarrow> bool" where
  "hyst_inv = (\<lambda>(hist, s). hs_level s \<noteq> PL_Unknown \<and> hs_pending_obs s \<le> max_debounce_observations (hs_cfg s) \<and>
     (hs_pending s = PL_Unknown \<and> hs_pending_obs s = 0 \<or>
      hs_pending s \<noteq> PL_Unknown \<and> hs_pending s \<noteq> hs_level s \<and> (\<exists>ys. backed hist s ys)))"

definition hyst_trace_step :: "PressureLevel \<times> u64 \<Rightarrow> (PressureLevel \<times> u64) list \<times> HysteresisState \<Rightarrow>
    (PressureLevel \<times> u64) list \<times> HysteresisState" where
  "hyst_trace_step i = (\<lambda>(hist, s). (hist @ [i], hyst_update (fst i) (snd i) s))"

lemma observe_obs_le: "hs_pending_obs (observe raw now s) \<le> max_debounce_observations (hs_cfg s)"
  by (auto simp: observe_def Let_def not_less)

lemma unat_Suc_le: "unat ((n::u32) + 1) \<le> unat n + 1"
  by (simp add: unat_word_ariths)

lemma observe_backed:
  assumes inv: "hyst_inv (hist, s)" and raw: "raw \<noteq> PL_Unknown"
  shows "\<exists>ys. backed (hist @ [(raw, now)]) (observe raw now s) ys"
proof (cases "hs_pending s = raw")
  case True
  with inv raw obtain ys where ys: "backed hist s ys" by (auto simp: hyst_inv_def)
  have "unat (hs_pending_obs (observe raw now s)) \<le> unat (hs_pending_obs s + 1)"
    using True by (auto simp: observe_def Let_def word_le_nat_alt word_less_nat_alt)
  also have "\<dots> \<le> length ys + 1" using unat_Suc_le [of "hs_pending_obs s"] ys by (simp add: backed_def)
  finally have "backed (hist @ [(raw, now)]) (observe raw now s) (ys @ [(raw, now)])"
    using ys True by (auto simp: backed_def observe_def Let_def)
  then show ?thesis ..
next
  case False
  have "unat (hs_pending_obs (observe raw now s)) \<le> 1"
    using False by (auto simp: observe_def Let_def word_le_nat_alt word_less_nat_alt)
  then have "backed (hist @ [(raw, now)]) (observe raw now s) [(raw, now)]"
    using False by (auto simp: backed_def observe_def Let_def)
  then show ?thesis ..
qed

lemma hyst_inv_step:
  assumes inv: "hyst_inv hs" and raw: "fst i \<noteq> PL_Unknown" shows "hyst_inv (hyst_trace_step i hs)"
proof -
  obtain hist s raw now where hs: "hs = (hist, s)" "i = (raw, now)" by (cases hs; cases i)
  have ob: "\<exists>ys. backed (hist @ [(raw, now)]) (observe raw now s) ys"
    using observe_backed assms hs by auto
  have step: "hyst_step raw now s (hyst_update raw now s)" by (rule hyst_update_step)
  show ?thesis
    using step inv raw ob observe_obs_le [of raw now s] unfolding hs hyst_trace_step_def
    by cases (auto simp: hyst_inv_def)
qed

lemma hyst_inv_init: "hyst_inv ([], HysteresisState_new cfg)"
  by (simp add: hyst_inv_def HysteresisState_new_def)

interpretation hyst: machine hyst_trace_step hyst_inv "\<lambda>i. fst i \<noteq> PL_Unknown"
  by unfold_locales (rule hyst_inv_step)

definition hyst_run :: "HysteresisConfig \<Rightarrow> (PressureLevel \<times> u64) list \<Rightarrow> HysteresisState" where
  "hyst_run cfg is = fold (\<lambda>(raw, now). hyst_update raw now) is (HysteresisState_new cfg)"

lemma hyst_trace: "fold hyst_trace_step is (h, s) = (h @ is, fold (\<lambda>(raw, now). hyst_update raw now) is s)"
  by (induction "is" arbitrary: h s) (auto simp: hyst_trace_step_def)

lemma hyst_run_inv: "\<forall>i \<in> set is. fst i \<noteq> PL_Unknown \<Longrightarrow> hyst_inv (is, hyst_run cfg is)"
  using hyst.run_inv [OF hyst_inv_init, of "is" cfg] by (simp add: hyst_trace hyst_run_def)

lemma hyst_run_snoc: "hyst_run cfg (is @ [(raw, now)]) = hyst_update raw now (hyst_run cfg is)"
  by (simp add: hyst_run_def)

lemma hyst_run_cfg [simp]: "hs_cfg (hyst_run cfg is) = cfg"
  by (induction "is" rule: rev_induct) (auto simp: hyst_run_def HysteresisState_new_def split_beta)

lemma debounced:
  assumes known: "\<forall>i \<in> set (is @ [(raw, now)]). fst i \<noteq> PL_Unknown"
    and changed: "hs_level (hyst_run cfg (is @ [(raw, now)])) \<noteq> hs_level (hyst_run cfg is)"
    and ne: "\<not> (raw = PL_Exhausted \<and> immediate_emergency_escalation cfg)"
  shows "\<exists>xs ys. is @ [(raw, now)] = xs @ ys \<and> (\<forall>y \<in> set ys. fst y = raw) \<and> ys \<noteq> [] \<and>
    unat (min_dwell_observations cfg) \<le> length ys \<and>
    dge (of_u64 (now - snd (hd ys))) (min_dwell_duration_ms cfg) \<and>
    hs_level (hyst_run cfg (is @ [(raw, now)])) = raw"
proof -
  let ?s = "hyst_run cfg is"
  have inv: "hyst_inv (is, ?s)" using known by (intro hyst_run_inv) auto
  have "raw \<noteq> PL_Unknown" using known by simp
  then obtain ys where ys: "backed (is @ [(raw, now)]) (observe raw now ?s) ys"
    using observe_backed [OF inv] by blast
  have step: "hyst_step raw now ?s (hyst_run cfg (is @ [(raw, now)]))"
    unfolding hyst_run_snoc by (rule hyst_update_step)
  have "dwell_ok (severity_rank (hs_level ?s) < severity_rank raw) now (observe raw now ?s) \<and>
      hs_level (hyst_run cfg (is @ [(raw, now)])) = raw"
    using step changed ne by cases auto
  moreover from ys obtain xs where "is @ [(raw, now)] = xs @ ys" by (auto simp: backed_def)
  ultimately show ?thesis using ys
    by (intro exI [of _ xs] exI [of _ ys]) (auto simp: backed_def dwell_ok_def Let_def word_le_nat_alt)
qed

text \<open>
  C4. A level change that is not an immediate emergency escalation is debounced: the last inputs of the
  history, at least \<open>min_dwell_observations\<close> many and ending with the current one, all propose the new level, and
  the first of them is at least \<open>min_dwell_duration_ms\<close> old.
\<close>

theorem debounce_sound:
  assumes known: "\<forall>i \<in> set (is @ [(raw, now)]). fst i \<noteq> PL_Unknown"
    and changed: "hs_level (hyst_run cfg (is @ [(raw, now)])) \<noteq> hs_level (hyst_run cfg is)"
    and ne: "\<not> (raw = PL_Exhausted \<and> immediate_emergency_escalation cfg)"
  shows "\<exists>xs ys. is @ [(raw, now)] = xs @ ys \<and> (\<forall>y \<in> set ys. fst y = raw) \<and> ys \<noteq> [] \<and>
    unat (min_dwell_observations cfg) \<le> length ys \<and>
    dge (of_u64 (now - snd (hd ys))) (min_dwell_duration_ms cfg) \<and>
    hs_level (hyst_run cfg (is @ [(raw, now)])) = raw"
  using assms by (rule debounced)

lemma debounce_sound_witness:
  "\<exists>xs ys. [(PL_High, 5)] @ [(PL_High, 9)] = xs @ ys \<and> (\<forall>y \<in> set ys. fst y = PL_High) \<and> ys \<noteq> [] \<and>
    unat (min_dwell_observations HysteresisConfig_init) \<le> length ys \<and>
    dge (of_u64 (9 - snd (hd ys))) (min_dwell_duration_ms HysteresisConfig_init) \<and>
    hs_level (hyst_run HysteresisConfig_init ([(PL_High, 5)] @ [(PL_High, 9)])) = PL_High"
  by (rule debounce_sound)
     (simp_all add: hyst_run_def hyst_update_def Let_def HysteresisState_new_def observe_def dwell_ok_def
        HysteresisConfig_init_def dge_of_u64 settle_def word_le_nat_alt word_less_nat_alt)

section \<open>Progress\<close>








text \<open>
  C37. The validator accepts a policy whose counter saturates below the required dwell. Under such a
  configuration no sequence of observations ever changes the level, emergencies apart.
\<close>

theorem debounce_stuck:
  assumes "max_debounce_observations cfg < min_dwell_observations cfg"
    and "immediate_emergency_escalation cfg \<Longrightarrow> \<forall>i \<in> set is. fst i \<noteq> PL_Exhausted"
  shows "hs_level (hyst_run cfg is) = PL_Normal"
  using assms(2)
proof (induction "is" rule: rev_induct)
  case Nil
  then show ?case by (simp add: hyst_run_def HysteresisState_new_def)
next
  case (snoc i "is")
  obtain raw now where i: "i = (raw, now)" by (cases i)
  have nd: "\<not> dwell_ok e now (observe raw now (hyst_run cfg is))" for e
    using observe_obs_le [of raw now "hyst_run cfg is"] assms(1)
    by (auto simp: dwell_ok_def Let_def)
  have "hyst_step raw now (hyst_run cfg is) (hyst_run cfg (is @ [i]))"
    unfolding i hyst_run_snoc by (rule hyst_update_step)
  then show ?case using snoc nd i by cases auto
qed

lemma debounce_stuck_witness:
  "hs_level (hyst_run (HysteresisConfig_init\<lparr>min_dwell_observations := 5\<rparr>)
     [(PL_Critical, 1), (PL_Critical, 2), (PL_Critical, 3), (PL_Critical, 4), (PL_Critical, 5)]) = PL_Normal \<and>
   validate_policy (default_policy\<lparr>hysteresis := HysteresisConfig_init\<lparr>min_dwell_observations := 5\<rparr>\<rparr>) = None"
proof
  show "hs_level (hyst_run (HysteresisConfig_init\<lparr>min_dwell_observations := 5\<rparr>)
     [(PL_Critical, 1), (PL_Critical, 2), (PL_Critical, 3), (PL_Critical, 4), (PL_Critical, 5)]) = PL_Normal"
    by (rule debounce_stuck) (simp_all add: HysteresisConfig_init_def word_less_nat_alt)
  show "validate_policy (default_policy\<lparr>hysteresis := HysteresisConfig_init\<lparr>min_dwell_observations := 5\<rparr>\<rparr>) = None"
    using default_policy_valid by (simp add: validate_policy_None)
qed

section \<open>The closed loop\<close>

lemma band_step:
  assumes "thresholds_ok t" and "s' = hyst_drive t (u, now) s"
  shows "(severity_rank (hs_level s) < severity_rank (hs_level s') \<and> hs_level s' \<noteq> PL_Normal \<longrightarrow>
      dge u (enter_threshold t (hs_level s'))) \<and>
    (severity_rank (hs_level s') < severity_rank (hs_level s) \<longrightarrow>
      severity_rank (hs_level s') = severity_rank (hs_level s) - 1 \<and>
      dle u (exit_threshold t (hs_level s)) \<and>
      dle (exit_threshold t (hs_level s)) (enter_threshold t (hs_level s)))"
proof -
  have "hs_level s' = hs_level s \<or> hs_level s' = evaluate_level u (hs_level s) t"
    using hyst_update_level [of "evaluate_level u (hs_level s) t" now s] assms(2) by (auto simp: hyst_drive_def)
  then show ?thesis
    using evaluate_escalates [of "hs_level s" u t] evaluate_recovers [of u "hs_level s" t]
      exit_le_enter [OF assms(1)] by auto
qed

text \<open>
  C5. A run of the classifier with the debouncer under valid thresholds cannot flap. When the resolved level
  rises, the utilization has reached the new level's enter threshold; when it falls, it falls by one
  level and the utilization is at most the exit threshold of the level it leaves, which is at most
  the threshold by which that level was entered.
\<close>

theorem closed_loop_band:
  assumes "thresholds_ok t" and "s' = hyst_drive t (u, now) s"
  shows "(severity_rank (hs_level s) < severity_rank (hs_level s') \<and> hs_level s' \<noteq> PL_Normal \<longrightarrow>
      dge u (enter_threshold t (hs_level s'))) \<and>
    (severity_rank (hs_level s') < severity_rank (hs_level s) \<longrightarrow>
      severity_rank (hs_level s') = severity_rank (hs_level s) - 1 \<and>
      dle u (exit_threshold t (hs_level s)) \<and>
      dle (exit_threshold t (hs_level s)) (enter_threshold t (hs_level s)))"
  using assms by (rule band_step)

lemma closed_loop_band_witness:
  "let s = settle PL_High (HysteresisState_new HysteresisConfig_init);
       s1 = hyst_drive Thresholds_init (Fin (1/2), 5) s; s2 = hyst_drive Thresholds_init (Fin (1/2), 9) s1
   in hs_level s1 = PL_High \<and> hs_level s2 = PL_Elevated \<and> dle (Fin (1/2)) (exit_threshold Thresholds_init PL_High)"
proof -
  let ?s = "settle PL_High (HysteresisState_new HysteresisConfig_init)"
  let ?s1 = "hyst_drive Thresholds_init (Fin (1/2), 5) ?s"
  let ?s2 = "hyst_drive Thresholds_init (Fin (1/2), 9) ?s1"
  have e: "evaluate_level (Fin (1/2)) PL_High Thresholds_init = PL_Elevated" by code_simp
  note defs = hyst_update_def Let_def HysteresisState_new_def observe_def dwell_ok_def
    HysteresisConfig_init_def dge_of_u64 settle_def word_le_nat_alt word_less_nat_alt
  have s1: "?s1 = hyst_update PL_Elevated 5 ?s" by (simp add: hyst_drive_def e del: evaluate_level.simps)
  then have l1: "hs_level ?s1 = PL_High" by (simp add: defs)
  then have "?s2 = hyst_update PL_Elevated 9 ?s1" by (simp add: hyst_drive_def e del: evaluate_level.simps)
  then have "hs_level ?s2 = PL_Elevated" unfolding s1 by (simp add: defs)
  with l1 closed_loop_band [OF thresholds_ok_init refl, where u = "Fin (1/2)" and now = 9 and s = ?s1] show ?thesis
    by (simp add: Let_def del: exit_threshold.simps enter_threshold.simps)
qed

text \<open>
  The classifier is monotone: a higher utilization from a higher level never classifies lower.
\<close>

lemma evaluate_mono:
  assumes "thresholds_ok t" "dle u u'" "l \<noteq> PL_Unknown" "l' \<noteq> PL_Unknown" "severity_rank l \<le> severity_rank l'"
  shows "severity_rank (evaluate_level u l t) \<le> severity_rank (evaluate_level u' l' t)"
  using evaluate_mono_u [OF assms(2), of l t] evaluate_mono_level [OF assms(1,3-5), of u'] by linarith

lemma evaluate_mono_witness:
  "severity_rank (evaluate_level (Fin (1/2)) PL_Normal Thresholds_init) \<le>
   severity_rank (evaluate_level (Fin (9/10)) PL_Critical Thresholds_init)"
  by (rule evaluate_mono) (simp_all add: thresholds_ok_init)

end
