(* ===== verification/Trends.thy ===== *)
theory Trends imports Doubles Vocabulary begin

text \<open>
  velocity.h and its part of core.cpp: the bounded window of samples and the least-squares trend.
  Every double operation of the estimate is rounded as the code rounds it, including \<open>std::sqrt\<close>.
  The window is proved to be the newest samples within the maximal age; the estimate is proved free
  of NaN and infinities, with a confidence in \<open>[0,1]\<close>, for windows of up to 16 samples (the size
  that the runtime uses).
\<close>

section \<open>The correctly rounded square root\<close>

fun isqrt :: "nat \<Rightarrow> nat" where
  "isqrt n = (if n = 0 then 0 else
     let r = 2 * isqrt (n div 4) in if (r + 1) * (r + 1) \<le> n then r + 1 else r)"

declare isqrt.simps [simp del]

definition rsqrt :: "rat \<Rightarrow> rat" where
  "rsqrt x = (let q = max (ilog2 x div 2 - 52) (- 1074);
                  s = x / pow2 (2 * q);
                  m = int (isqrt (nat \<lfloor>s\<rfloor>));
                  h = (of_int m + 1/2) * (of_int m + 1/2);
                  n = (if h < s then m + 1 else if s < h then m else if even m then m else m + 1)
              in of_int n * pow2 q)"

fun dsqrt :: "double \<Rightarrow> double" where
  "dsqrt (Fin x) = (if x < 0 then NaN else if x = 0 then Fin 0 else Fin (rsqrt x))"
| "dsqrt PosInf = PosInf"
| "dsqrt x = NaN"

section \<open>The window and the estimate\<close>

record TrendEstimate =
  te_direction :: TrendDirection
  te_rate :: double
  te_confidence :: double
  te_samples :: nat
  te_projected_healthy_ms :: "u64 option"

definition TrendEstimate_init :: TrendEstimate where
  "TrendEstimate_init = \<lparr>te_direction = Trend_Unknown, te_rate = Fin 0, te_confidence = Fin 0, te_samples = 0,
     te_projected_healthy_ms = None\<rparr>"

record Sample =
  smp_t_ms :: u64
  smp_committed :: u64

record TrendEstimator =
  tr_window_samples :: nat
  tr_max_window_age_ms :: u64
  tr_samples :: "Sample list"

definition TrendEstimator_new :: "nat \<Rightarrow> u64 \<Rightarrow> TrendEstimator" where
  "TrendEstimator_new win age = \<lparr>tr_window_samples = win, tr_max_window_age_ms = age, tr_samples = []\<rparr>"

definition trend_cutoff :: "u64 \<Rightarrow> u64 \<Rightarrow> u64" where
  "trend_cutoff age timestamp = (if age > timestamp then 0 else timestamp - age)"

text \<open>The two \<open>pop_front\<close> loops are \<open>dropWhile\<close> and \<open>take_last\<close>.\<close>

definition trend_add_sample :: "u64 \<Rightarrow> u64 \<Rightarrow> TrendEstimator \<Rightarrow> TrendEstimator" where
  "trend_add_sample committed timestamp tr =
    (let cutoff = trend_cutoff (tr_max_window_age_ms tr) timestamp;
         kept = dropWhile (\<lambda>s. smp_t_ms s < cutoff) (tr_samples tr);
         pushed = kept @ [\<lparr>smp_t_ms = timestamp, smp_committed = committed\<rparr>]
     in tr\<lparr>tr_samples := take_last (tr_window_samples tr) pushed\<rparr>)"

definition trend_reset :: "TrendEstimator \<Rightarrow> TrendEstimator" where
  "trend_reset tr = tr\<lparr>tr_samples := []\<rparr>"

text \<open>The first loop: the sums of the times, relative to \<open>t0\<close>, and of the committed bytes.\<close>

definition trend_sum :: "double \<Rightarrow> Sample \<Rightarrow> double \<times> double \<Rightarrow> double \<times> double" where
  "trend_sum t0 s = (\<lambda>(mt, mc).
     (dadd mt (dsub (of_u64 (smp_t_ms s)) t0), dadd mc (of_u64 (smp_committed s))))"

text \<open>The second loop: covariance and variances.\<close>

definition trend_moment :: "double \<Rightarrow> double \<Rightarrow> double \<Rightarrow> Sample \<Rightarrow> double \<times> double \<times> double \<Rightarrow> double \<times> double \<times> double" where
  "trend_moment t0 mt mc s = (\<lambda>(cov, var, varc).
     let dt = dsub (dsub (of_u64 (smp_t_ms s)) t0) mt;
         dc = dsub (of_u64 (smp_committed s)) mc
     in (dadd cov (dmul dt dc), dadd var (dmul dt dt), dadd varc (dmul dc dc)))"

definition trend_direction :: "double \<Rightarrow> TrendDirection" where
  "trend_direction rate =
    (if dgt rate (Fin 1) then Trend_Rising else if dlt rate (dneg (Fin 1)) then Trend_Falling else Trend_Flat)"

definition trend_confidence :: "double \<Rightarrow> double \<Rightarrow> double \<Rightarrow> nat \<Rightarrow> nat \<Rightarrow> double" where
  "trend_confidence cov var varc n win =
    (let r2 = (if dgt varc (Fin 0) then ddiv (dmul cov cov) (dmul var varc) else Fin 0);
         r2 = (if dlt r2 (Fin 0) then Fin 0 else r2);
         r2 = (if dgt r2 (Fin 1) then Fin 1 else r2);
         span_frac = ddiv (of_size n) (of_size (max win 1))
     in clamp01 (dmul (dsqrt r2) (std_min (Fin 1) span_frac)))"

definition trend_estimate :: "TrendEstimator \<Rightarrow> TrendEstimate" where
  "trend_estimate tr =
    (let samples = tr_samples tr; n = length samples; out = TrendEstimate_init\<lparr>te_samples := n\<rparr> in
     if n < 2 then out
     else
       let t0 = of_u64 (smp_t_ms (hd samples));
           (st, sc) = fold (trend_sum t0) samples (Fin 0, Fin 0);
           mt = ddiv st (of_size n); mc = ddiv sc (of_size n);
           (cov, var, varc) = fold (trend_moment t0 mt mc) samples (Fin 0, Fin 0, Fin 0)
       in if dle var (Fin 0) then out\<lparr>te_direction := Trend_Flat, te_confidence := Fin 0\<rparr>
          else
            let slope = ddiv cov var;
                rate = dmul slope (Fin 1000)
            in out\<lparr>te_rate := rate, te_direction := trend_direction rate,
                   te_confidence := trend_confidence cov var varc n (tr_window_samples tr)\<rparr>)"

section \<open>The window is the newest samples within the age limit\<close>

lemma Sample_eta [simp]: "\<lparr>smp_t_ms = smp_t_ms s, smp_committed = smp_committed s\<rparr> = s"
  by (cases s) simp

lemma trend_cutoff_monus: "trend_cutoff age t = monus t age"
  by (auto simp: trend_cutoff_def monus_def)

lemma trend_cutoff_mono: "t \<le> t' \<Longrightarrow> trend_cutoff age t \<le> trend_cutoff age t'"
  by (simp add: trend_cutoff_monus word_le_nat_alt unat_monus)

lemma sorted_dropWhile_filter:
  "sorted (map f xs) \<Longrightarrow> dropWhile (\<lambda>x. f x < c) xs = filter (\<lambda>x. c \<le> f x) xs"
  for f :: "'a \<Rightarrow> 'b::linorder"
proof (induction xs)
  case (Cons x xs)
  show ?case
  proof (cases "f x < c")
    case False
    then have "filter (\<lambda>x. c \<le> f x) xs = xs" using Cons.prems by (intro filter_True) force
    with False show ?thesis by simp
  qed (use Cons in auto)
qed simp

lemma sorted_filter_take_last:
  "sorted (map f xs) \<Longrightarrow> filter (\<lambda>x. c \<le> f x) (take_last w xs) = take_last w (filter (\<lambda>x. c \<le> f x) xs)"
  for f :: "'a \<Rightarrow> 'b::linorder"
proof (induction xs)
  case (Cons x xs)
  show ?case
  proof (cases "length (x # xs) \<le> w")
    case True
    then show ?thesis using length_filter_le [of "\<lambda>x. c \<le> f x" "x # xs"] by (simp del: length_filter_le)
  next
    case False
    then have tl: "take_last w (x # xs) = take_last w xs" by (simp add: take_last_def Suc_diff_le)
    show ?thesis
    proof (cases "c \<le> f x")
      case True
      then have "\<forall>y \<in> set (x # xs). c \<le> f y" using Cons.prems by force
      moreover from this have "\<forall>y \<in> set (take_last w (x # xs)). c \<le> f y" using set_take_last by fast
      ultimately show ?thesis by (simp only: filter_True)
    qed (use Cons tl in auto)
  qed
qed (simp add: take_last_def)

definition trend_run :: "nat \<Rightarrow> u64 \<Rightarrow> Sample list \<Rightarrow> TrendEstimator" where
  "trend_run win age hist = fold (\<lambda>s. trend_add_sample (smp_committed s) (smp_t_ms s)) hist (TrendEstimator_new win age)"

definition window_ok :: "nat \<Rightarrow> TrendEstimator \<Rightarrow> bool" where
  "window_ok win tr \<longleftrightarrow> tr_window_samples tr = win \<and> length (tr_samples tr) \<le> win"

lemma trend_add_window [simp]: "tr_window_samples (trend_add_sample c t tr) = tr_window_samples tr"
  "tr_max_window_age_ms (trend_add_sample c t tr) = tr_max_window_age_ms tr"
  by (simp_all add: trend_add_sample_def Let_def)

interpretation trend: machine "\<lambda>(c, t). trend_add_sample c t" "window_ok win" "\<lambda>_. True"
  by unfold_locales (auto simp: window_ok_def trend_add_sample_def Let_def split: prod.splits)

lemma trend_run_fields: "tr_window_samples (trend_run win age hist) = win"
  "tr_max_window_age_ms (trend_run win age hist) = age"
  by (induction hist rule: rev_induct) (simp_all add: trend_run_def TrendEstimator_new_def)

text \<open>
  C34. When the timestamps do not go back, the window after a run of \<open>add_sample\<close> is exactly the last
  \<open>window_samples\<close> of the samples that are not older than \<open>max_window_age_ms\<close> before the newest.
\<close>

theorem trend_window_spec:
  assumes "sorted (map smp_t_ms (hist @ [s]))"
  shows "tr_samples (trend_run win age (hist @ [s])) =
    take_last win (filter (\<lambda>x. trend_cutoff age (smp_t_ms s) \<le> smp_t_ms x) (hist @ [s]))"
  using assms
proof (induction hist arbitrary: s rule: rev_induct)
  case Nil
  then show ?case
    by (simp add: trend_run_def TrendEstimator_new_def trend_add_sample_def trend_cutoff_monus monus_le)
next
  case (snoc s' hist)
  let ?c = "trend_cutoff age (smp_t_ms s)" and ?c' = "trend_cutoff age (smp_t_ms s')"
  let ?kept = "filter (\<lambda>x. ?c' \<le> smp_t_ms x) (hist @ [s'])"
  have sorted: "sorted (map smp_t_ms (hist @ [s']))" and le: "smp_t_ms s' \<le> smp_t_ms s"
    using snoc.prems by (auto simp: sorted_append)
  have sk: "sorted (map smp_t_ms ?kept)" using sorted by (rule sorted_filter)
  have st: "sorted (map smp_t_ms (take_last win ?kept))"
    using sk unfolding take_last_def drop_map [symmetric] by (rule sorted_wrt_drop)
  have cc: "?c' \<le> ?c" by (rule trend_cutoff_mono [OF le])
  have "filter (\<lambda>x. ?c \<le> smp_t_ms x) ?kept = filter (\<lambda>x. ?c \<le> smp_t_ms x) (hist @ [s'])"
    unfolding filter_filter by (rule filter_cong) (use cc in auto)
  then have kept: "dropWhile (\<lambda>x. smp_t_ms x < ?c) (take_last win ?kept) =
      take_last win (filter (\<lambda>x. ?c \<le> smp_t_ms x) (hist @ [s']))"
    by (simp only: sorted_dropWhile_filter [OF st] sorted_filter_take_last [OF sk])
  have "tr_samples (trend_run win age ((hist @ [s']) @ [s])) =
      take_last win (dropWhile (\<lambda>x. smp_t_ms x < ?c) (tr_samples (trend_run win age (hist @ [s']))) @ [s])"
    using trend_run_fields [of win age "hist @ [s']"]
    by (simp add: trend_run_def trend_add_sample_def Let_def)
  also have "\<dots> = take_last win (take_last win (filter (\<lambda>x. ?c \<le> smp_t_ms x) (hist @ [s'])) @ [s])"
    unfolding snoc.IH [OF sorted] kept ..
  also have "\<dots> = take_last win (filter (\<lambda>x. ?c \<le> smp_t_ms x) (hist @ [s']) @ [s])"
    by (rule take_last_absorb) simp
  also have "filter (\<lambda>x. ?c \<le> smp_t_ms x) (hist @ [s']) @ [s] =
      filter (\<lambda>x. ?c \<le> smp_t_ms x) ((hist @ [s']) @ [s])"
    by (simp add: trend_cutoff_monus monus_le)
  finally show ?case .
qed

lemma trend_window_spec_witness:
  "tr_samples (trend_run 2 10 ([\<lparr>smp_t_ms = 1, smp_committed = 5\<rparr>, \<lparr>smp_t_ms = 20, smp_committed = 6\<rparr>,
       \<lparr>smp_t_ms = 20, smp_committed = 7\<rparr>] @ [\<lparr>smp_t_ms = 25, smp_committed = 8\<rparr>])) =
     [\<lparr>smp_t_ms = 20, smp_committed = 7\<rparr>, \<lparr>smp_t_ms = 25, smp_committed = 8\<rparr>]"
  by (subst trend_window_spec) (simp_all add: trend_cutoff_def take_last_def)

section \<open>Values on a grid\<close>

text \<open>
  The estimate divides by a product of two variances, so it is free of NaN only if that product
  does not underflow. The bookkeeping: \<open>gb g k d\<close> says that \<open>d\<close> is a multiple of \<open>2^g\<close> of size
  at most \<open>2^k\<close>; rounding keeps both.
\<close>

definition gb :: "int \<Rightarrow> int \<Rightarrow> double \<Rightarrow> bool" where
  "gb g k d \<longleftrightarrow> (\<exists>m::int. d = Fin (of_int m * pow2 g) \<and> \<bar>of_int m * pow2 g\<bar> \<le> pow2 k)"

lemma pow2_multiple: assumes "g \<le> q" shows "\<exists>n::int. of_int m * pow2 q = of_int n * pow2 g"
proof -
  have "of_int m * pow2 q = of_int (m * 2 ^ nat (q - g)) * pow2 g"
    using assms pow2_add [of "q - g" g] by (simp add: pow2_nat)
  then show ?thesis ..
qed

lemma rnd64_grid:
  assumes g: "- 1074 \<le> g" shows "\<exists>n::int. rnd64 (of_int m * pow2 g) = of_int n * pow2 g"
proof -
  have pos: "\<exists>n::int. rnd64 x = of_int n * pow2 g" if x: "x = of_int m * pow2 g" "0 < x" for x m
  proof (cases "qexp x \<le> g")
    case True
    then have "rnd64 x = x" using x by (simp add: rnd64_pos rnd_pos_quantum rnd_quantum_exact)
    then show ?thesis using x by blast
  next
    case False
    then show ?thesis using x pow2_multiple [of g "qexp x"] by (simp add: rnd64_pos rnd_pos_def)
  qed
  let ?x = "of_int m * pow2 g :: rat"
  consider "0 < ?x" | "?x = 0" | "0 < - ?x" by linarith
  then show ?thesis
  proof cases
    case 1 then show ?thesis using pos by blast
  next
    case 2 then show ?thesis by (intro exI [of _ 0]) (simp add: rnd64_def)
  next
    case 3
    have "- ?x = of_int (- m) * pow2 g" by simp
    with 3 obtain n where "rnd64 (- ?x) = of_int n * pow2 g" using pos by blast
    then have "rnd64 ?x = of_int (- n) * pow2 g" by (simp add: rnd64_minus)
    then show ?thesis ..
  qed
qed

lemma gb_fl:
  assumes "- 1074 \<le> g" "0 \<le> k" "k \<le> 1023" "\<bar>of_int m * pow2 g\<bar> \<le> pow2 k" shows "gb g k (fl (of_int m * pow2 g))"
proof -
  have "pow2 k \<le> pow2 1023" using assms by (simp add: pow2_mono)
  then have "fl (of_int m * pow2 g) = Fin (rnd64 (of_int m * pow2 g))" using assms by (intro fl_Fin) simp
  moreover have "\<bar>rnd64 (of_int m * pow2 g)\<bar> \<le> pow2 k"
    using assms by (intro b64.abs_le_fixed rnd64_pow2) auto
  moreover obtain n where "rnd64 (of_int m * pow2 g) = of_int n * pow2 g" using rnd64_grid assms(1) by blast
  ultimately show ?thesis unfolding gb_def by (intro exI [of _ n]) simp
qed

lemma gb_0: "gb g k (Fin 0)"
  unfolding gb_def by (intro exI [of _ 0]) simp

lemma gb_weaken: assumes "gb g k d" "g' \<le> g" "k \<le> k'" shows "gb g' k' d"
proof -
  obtain m where m: "d = Fin (of_int m * pow2 g)" "\<bar>of_int m * pow2 g\<bar> \<le> pow2 k"
    using assms by (auto simp: gb_def)
  obtain n where "of_int m * pow2 g = of_int n * pow2 g'" using pow2_multiple [OF assms(2)] by blast
  then show ?thesis using m pow2_mono [OF assms(3)] unfolding gb_def by (intro exI [of _ n]) auto
qed

lemma gb_dneg: "gb g k d \<Longrightarrow> gb g k (dneg d)"
  unfolding gb_def by (elim exE, rule_tac x = "- m" in exI) auto

lemma gb_dadd:
  assumes "gb g k a" "gb g k b" "- 1074 \<le> g" "0 \<le> k" "k + 1 \<le> 1023" shows "gb g (k + 1) (dadd a b)"
proof -
  obtain m n where mn: "a = Fin (of_int m * pow2 g)" "b = Fin (of_int n * pow2 g)"
    "\<bar>of_int m * pow2 g\<bar> \<le> pow2 k" "\<bar>of_int n * pow2 g\<bar> \<le> pow2 k"
    using assms(1,2) by (auto simp: gb_def)
  have "\<bar>of_int m * pow2 g + of_int n * pow2 g\<bar> \<le> pow2 (k + 1)"
    using mn abs_triangle_ineq [of "of_int m * pow2 g" "of_int n * pow2 g"] by (simp add: pow2_add)
  then have "\<bar>of_int (m + n) * pow2 g\<bar> \<le> pow2 (k + 1)" by (simp add: distrib_right)
  from gb_fl [OF assms(3) _ assms(5) this] show ?thesis
    using assms mn by (simp add: distrib_right)
qed

lemma gb_dsub:
  "gb g k a \<Longrightarrow> gb g k b \<Longrightarrow> - 1074 \<le> g \<Longrightarrow> 0 \<le> k \<Longrightarrow> k + 1 \<le> 1023 \<Longrightarrow> gb g (k + 1) (dsub a b)"
  unfolding dsub_def by (rule gb_dadd [OF _ gb_dneg])

lemma gb_dmul:
  assumes "gb g k a" "gb h j b" "- 1074 \<le> g + h" "0 \<le> k + j" "k + j \<le> 1023" shows "gb (g + h) (k + j) (dmul a b)"
proof -
  obtain m n where mn: "a = Fin (of_int m * pow2 g)" "b = Fin (of_int n * pow2 h)"
    "\<bar>of_int m * pow2 g\<bar> \<le> pow2 k" "\<bar>of_int n * pow2 h\<bar> \<le> pow2 j"
    using assms(1,2) by (auto simp: gb_def)
  have eq: "of_int m * pow2 g * (of_int n * pow2 h) = of_int (m * n) * pow2 (g + h)"
    by (simp add: pow2_add)
  have "\<bar>of_int m * pow2 g * (of_int n * pow2 h)\<bar> \<le> pow2 (k + j)"
    unfolding abs_mult [of "of_int m * pow2 g"] pow2_add using mn by (intro mult_mono) auto
  from gb_fl [OF assms(3) _ assms(5) this [unfolded eq]] show ?thesis
    using assms mn by (simp add: eq)
qed

lemma gb_of_u64: "gb 0 64 (of_u64 w)"
proof -
  have eq: "u64_rat w = of_int (int (unat w)) * pow2 0" by (simp only: u64_rat_def of_int_of_nat_eq pow2_0 mult_1_right)
  have "\<bar>of_int (int (unat w)) * pow2 0\<bar> \<le> pow2 64"
    using u64_rat_bound [of w] u64_rat_nonneg [of w] unfolding eq by linarith
  from gb_fl [OF _ _ _ this] show ?thesis unfolding of_u64_def eq by simp
qed

lemma of_size_Fin: "n \<le> 16 \<Longrightarrow> of_size n = Fin (of_nat n)"
  using fl_int [of "int n"] by (simp add: of_size_def)

text \<open>The quotient of an integer by at most 16 is a multiple of \<open>2^-56\<close>.\<close>

lemma rnd_pos_grid: assumes "0 < x" "pow2 (- 4) \<le> x" shows "\<exists>n::int. rnd_pos x = of_int n * pow2 (- 56)"
proof -
  have "pow2 (- 4) < pow2 (ilog2 x + 1)" using ilog2_bounds [OF assms(1)] assms(2) by linarith
  then have "- 56 \<le> qexp x" by (simp add: pow2_less_iff qexp_def)
  then show ?thesis unfolding rnd_pos_def by (rule pow2_multiple)
qed

lemma gb_mean:
  assumes s: "gb 0 k s" and n: "0 < n" "n \<le> 16" and k: "0 \<le> k" "k \<le> 1023" shows "gb (- 56) k (ddiv s (of_size n))"
proof -
  obtain m where m: "s = Fin (of_int m)" "\<bar>of_int m\<bar> \<le> pow2 k" using s by (auto simp: gb_def)
  let ?x = "of_int m / of_nat n :: rat"
  have x: "\<bar>?x\<bar> \<le> pow2 k"
    using m n order_trans [of "\<bar>of_int m\<bar> / of_nat n" "\<bar>of_int m\<bar>" "pow2 k"] by (simp add: divide_le_eq mult_le_cancel_left1)
  have fl: "ddiv s (of_size n) = Fin (rnd64 ?x)" using n m x k pow2_mono [of k 1023] by (simp add: of_size_Fin fl_Fin)
  have bound: "\<bar>rnd64 ?x\<bar> \<le> pow2 k" using k x by (intro b64.abs_le_fixed rnd64_pow2) auto
  have pos: "\<exists>l::int. rnd64 (of_int z / of_nat n) = of_int l * pow2 (- 56)" if z: "0 < z" for z
  proof -
    have "1 \<le> (of_int z :: rat)" using z by linarith
    moreover have "(of_nat n :: rat) \<le> 16" using n by linarith
    ultimately have "1 / 16 \<le> of_int z / (of_nat n :: rat)" using n by (intro frac_le) auto
    then have "pow2 (- 4) \<le> of_int z / of_nat n" by (simp add: pow2_def)
    moreover have "0 < of_int z / (of_nat n :: rat)" using z n by simp
    ultimately show ?thesis using rnd_pos_grid rnd64_pos by metis
  qed
  consider "0 < m" | "m = 0" | "0 < - m" by linarith
  then have "\<exists>l::int. rnd64 ?x = of_int l * pow2 (- 56)"
  proof cases
    case 2 then show ?thesis by (intro exI [of _ 0]) (simp add: rnd64_def)
  next
    case 3
    from pos [OF this] obtain l where "rnd64 (- ?x) = of_int l * pow2 (- 56)" by auto
    then have "rnd64 ?x = of_int (- l) * pow2 (- 56)" by (simp add: rnd64_minus)
    then show ?thesis ..
  qed (rule pos)
  then show ?thesis using fl bound by (auto simp: gb_def)
qed

section \<open>The loops stay on the grid\<close>

lemma trend_sum_fold:
  assumes "gb 0 k a" "gb 0 k b" "66 \<le> k" "k + int (length ss) \<le> 1023"
  shows "\<exists>a' b'. fold (trend_sum (of_u64 t0)) ss (a, b) = (a', b') \<and>
    gb 0 (k + int (length ss)) a' \<and> gb 0 (k + int (length ss)) b'"
  using assms
proof (induction ss arbitrary: a b k)
  case (Cons s ss)
  have "gb 0 k (dsub (of_u64 (smp_t_ms s)) (of_u64 t0))"
    using gb_dsub [OF gb_of_u64 gb_of_u64, of "smp_t_ms s" t0] Cons.prems(3) by (auto elim: gb_weaken)
  then have "gb 0 (k + 1) (dadd a (dsub (of_u64 (smp_t_ms s)) (of_u64 t0)))"
    using Cons.prems by (intro gb_dadd) auto
  moreover have "gb 0 (k + 1) (dadd b (of_u64 (smp_committed s)))"
    using Cons.prems gb_of_u64 [of "smp_committed s"] by (intro gb_dadd) (auto elim: gb_weaken)
  ultimately show ?case
    using Cons.IH [where k = "k + 1"] Cons.prems by (simp add: trend_sum_def add.assoc)
qed auto

lemma trend_moment_fold:
  assumes "gb (- 56) 100 mt" "gb (- 56) 100 mc" "gb (- 112) k a" "gb (- 112) k b" "gb (- 112) k c"
    "210 \<le> k" "k + int (length ss) \<le> 1023"
  shows "\<exists>a' b' c'. fold (trend_moment (of_u64 t0) mt mc) ss (a, b, c) = (a', b', c') \<and>
    gb (- 112) (k + int (length ss)) a' \<and> gb (- 112) (k + int (length ss)) b' \<and> gb (- 112) (k + int (length ss)) c'"
  using assms(3-)
proof (induction ss arbitrary: a b c k)
  case (Cons s ss)
  let ?dt = "dsub (dsub (of_u64 (smp_t_ms s)) (of_u64 t0)) mt" and ?dc = "dsub (of_u64 (smp_committed s)) mc"
  have "gb (- 56) 100 (dsub (of_u64 (smp_t_ms s)) (of_u64 t0))"
    using gb_dsub [OF gb_of_u64 gb_of_u64, of "smp_t_ms s" t0] by (auto elim: gb_weaken)
  then have dt: "gb (- 56) 101 ?dt" using gb_dsub [OF _ assms(1)] by simp
  have "gb (- 56) 100 (of_u64 (smp_committed s))" using gb_of_u64 by (rule gb_weaken) auto
  then have dc: "gb (- 56) 101 ?dc" using gb_dsub [OF _ assms(2)] by simp
  have "gb (- 112) k (dmul ?dt ?dc)" "gb (- 112) k (dmul ?dt ?dt)" "gb (- 112) k (dmul ?dc ?dc)"
    using gb_dmul [OF dt dc] gb_dmul [OF dt dt] gb_dmul [OF dc dc] Cons.prems(4) by (auto elim: gb_weaken)
  then have "gb (- 112) (k + 1) (dadd a (dmul ?dt ?dc))" "gb (- 112) (k + 1) (dadd b (dmul ?dt ?dt))"
    "gb (- 112) (k + 1) (dadd c (dmul ?dc ?dc))"
    using Cons.prems by (auto intro!: gb_dadd)
  then show ?case
    using Cons.IH [where k = "k + 1"] Cons.prems by (simp add: trend_moment_def Let_def add.assoc)
qed auto

section \<open>The estimate is finite and its confidence normalized\<close>

lemma isqrt_bounds: "isqrt n * isqrt n \<le> n \<and> n < (isqrt n + 1) * (isqrt n + 1)"
proof (induction n rule: isqrt.induct)
  case (1 n)
  show ?case
  proof (cases "n = 0")
    case False
    let ?r = "isqrt (n div 4)"
    have "?r * ?r \<le> n div 4" "n div 4 + 1 \<le> (?r + 1) * (?r + 1)" using 1 False by auto
    then have "4 * (?r * ?r) \<le> n" "n < 4 * ((?r + 1) * (?r + 1))" by linarith+
    then have "2 * ?r * (2 * ?r) \<le> n" "n < (2 * ?r + 2) * (2 * ?r + 2)" by (simp_all add: algebra_simps)
    then show ?thesis using False by (subst (1 2 3 4) isqrt.simps) (simp add: Let_def)
  qed (simp add: isqrt.simps)
qed

lemma rsqrt_unit: assumes "0 < x" "x \<le> 1" shows "0 \<le> rsqrt x \<and> rsqrt x \<le> 1"
proof -
  define q where "q = max (ilog2 x div 2 - 52) (- 1074)"
  define s where "s = x / pow2 (2 * q)"
  define m where "m = int (isqrt (nat \<lfloor>s\<rfloor>))"
  define h :: rat where "h = (of_int m + 1/2) * (of_int m + 1/2)"
  define n where "n = (if h < s then m + 1 else if s < h then m else if even m then m else m + 1)"
  define N :: int where "N = 2 ^ nat (- q)"
  have "pow2 (ilog2 x) \<le> pow2 0" using ilog2_bounds [OF assms(1)] assms(2) by simp
  then have "ilog2 x div 2 \<le> 0" unfolding pow2_le_iff by simp
  then have q: "q \<le> 0" by (simp add: q_def)
  then have N: "pow2 (- q) = of_int N" by (simp add: N_def pow2_nat)
  have "s \<le> 1 / pow2 (2 * q)" using assms(2) unfolding s_def by (simp add: divide_right_mono)
  also have "\<dots> = pow2 (- q) * pow2 (- q)" using pow2_diff [of 0 "2 * q"] by (simp flip: pow2_add)
  finally have sN: "s \<le> of_int N * of_int N" by (simp add: N)
  have s0: "0 \<le> s" using assms(1) by (simp add: s_def)
  have m0: "0 \<le> m" and N0: "0 < N" by (simp_all add: m_def N_def)
  have "m * m \<le> \<lfloor>s\<rfloor>" using isqrt_bounds [of "nat \<lfloor>s\<rfloor>"] s0
    unfolding m_def by (simp add: le_nat_iff flip: of_nat_mult)
  then have "of_int (m * m) \<le> s" by (simp add: le_floor_iff)
  then have "of_int (m * m) \<le> (of_int (N * N) :: rat)" using sN by simp
  then have mN: "m \<le> N" unfolding of_int_le_iff using m0 N0 by (metis less_le_not_le linorder_not_le mult_strict_mono')
  have "m + 1 \<le> N" if "h \<le> s"
  proof (rule ccontr)
    assume "\<not> m + 1 \<le> N"
    then have "m = N" using mN by simp
    then have "of_int N * of_int N < h" using N0 by (simp add: h_def algebra_simps)
    with that sN show False by simp
  qed
  then have "n \<le> N" "0 \<le> n" using mN m0 by (auto simp: n_def)
  then have "of_int n * pow2 q \<le> of_int N * pow2 q" "0 \<le> of_int n * pow2 q" by simp_all
  moreover have "of_int N * pow2 q = 1" unfolding N [symmetric] by (simp flip: pow2_add)
  moreover have "rsqrt x = of_int n * pow2 q"
    unfolding rsqrt_def Let_def n_def h_def m_def s_def q_def ..
  ultimately show ?thesis by simp
qed

lemma gb_pos: assumes "gb g k d" "\<not> dle d (Fin 0)" shows "\<exists>v. d = Fin v \<and> pow2 g \<le> v \<and> v \<le> pow2 k"
proof -
  obtain m where m: "d = Fin (of_int m * pow2 g)" "\<bar>of_int m * pow2 g\<bar> \<le> pow2 k" using assms(1) by (auto simp: gb_def)
  then have "0 < m" using assms(2) by (simp add: mult_le_0_iff not_le)
  then have "1 * pow2 g \<le> of_int m * pow2 g" by (intro mult_right_mono) auto
  with m show ?thesis by auto
qed

lemma gb_Fin: "gb g k d \<Longrightarrow> \<exists>c. d = Fin c \<and> \<bar>c\<bar> \<le> pow2 k"
  by (auto simp: gb_def)

lemma fl_quotient:
  assumes "\<bar>c\<bar> \<le> pow2 k" "pow2 g \<le> v" "0 \<le> k - g" "k - g \<le> 1023"
  shows "\<exists>z. fl (c / v) = Fin z \<and> \<bar>z\<bar> \<le> pow2 (k - g)"
proof -
  have v: "0 < v" using assms(2) pow2_pos [of g] by linarith
  have "\<bar>c / v\<bar> = \<bar>c\<bar> / v" using v by simp
  also have "\<dots> \<le> pow2 k / pow2 g" using assms v by (intro frac_le) auto
  finally have q: "\<bar>c / v\<bar> \<le> pow2 (k - g)" by (simp add: pow2_diff)
  then have "fl (c / v) = Fin (rnd64 (c / v))" using pow2_mono [OF assms(4)] by (intro fl_Fin) simp
  moreover have "\<bar>rnd64 (c / v)\<bar> \<le> pow2 (k - g)" using q assms(3) by (intro b64.abs_le_fixed rnd64_pow2) auto
  ultimately show ?thesis by blast
qed

lemma dsqrt_unit: "unit_double x \<Longrightarrow> unit_double (dsqrt x)"
  using rsqrt_unit by (auto simp: unit_double_def)

lemma unit_dmul: "unit_double a \<Longrightarrow> unit_double b \<Longrightarrow> unit_double (dmul a b)"
  using fl_unit by (fastforce simp: unit_double_def mult_le_one)

lemma trend_confidence_unit:
  assumes "gb (- 112) 226 cov" "gb (- 112) 226 var" "gb (- 112) 226 varc" "\<not> dle var (Fin 0)" "n \<le> 16" "win \<le> 16"
  shows "unit_double (trend_confidence cov var varc n win)"
proof -
  define r0 where "r0 = (if dgt varc (Fin 0) then ddiv (dmul cov cov) (dmul var varc) else Fin 0)"
  define r1 where "r1 = (if dlt r0 (Fin 0) then Fin 0 else r0)"
  define r2 where "r2 = (if dgt r1 (Fin 1) then Fin 1 else r1)"
  have "\<exists>z. r0 = Fin z"
  proof (cases "dgt varc (Fin 0)")
    case True
    then have "\<not> dle varc (Fin 0)" by (simp add: dlt_def)
    with gb_pos assms(2-4) obtain v vc where v: "var = Fin v" "varc = Fin vc" "pow2 (- 112) \<le> v" "pow2 (- 112) \<le> vc"
      by meson
    have "pow2 (- 224) \<le> v * vc"
      using pow2_add [of "- 112" "- 112"] mult_mono [OF v(3,4)] v order_trans [OF pow2_nonneg v(3)] by simp
    then have vv: "pow2 (- 224) \<le> rnd64 (v * vc)" by (intro b64.ge_fixed rnd64_pow2) auto
    have prod: "gb (- 224) 452 (dmul cov cov)" "gb (- 224) 452 (dmul var varc)"
      using gb_dmul [OF assms(1) assms(1)] gb_dmul [OF assms(2) assms(3)] by simp_all
    then obtain cc w where cc: "dmul cov cov = Fin cc" "\<bar>cc\<bar> \<le> pow2 452" "dmul var varc = Fin w"
      using gb_Fin by blast
    have "w = rnd64 (v * vc)" using cc(3) v by (auto simp: fl_def Let_def split: if_splits)
    moreover have "rnd64 (v * vc) \<noteq> 0" using vv pow2_pos [of "- 224"] by linarith
    ultimately show ?thesis using fl_quotient [OF cc(2) vv] cc True by (auto simp: r0_def)
  qed (simp add: r0_def)
  then have r2: "unit_double r2" by (auto simp: r2_def r1_def unit_double_def)
  have "(of_nat n :: rat) / of_nat (max win 1) \<le> 16 / 1" using assms(5) by (intro frac_le) auto
  moreover have "(16::rat) \<le> pow2 1023" using pow2_mono [of 4 1023] by (simp add: pow2_nat)
  ultimately have "fl (of_nat n / of_nat (max win 1)) = Fin (rnd64 (of_nat n / of_nat (max win 1)))"
    by (intro fl_Fin) auto
  moreover have "0 \<le> rnd64 (of_nat n / of_nat (max win 1))" by (intro b64.nonneg) simp
  ultimately have "unit_double (std_min (Fin 1) (ddiv (of_size n) (of_size (max win 1))))"
    using assms(5,6) by (auto simp: of_size_Fin std_min_def unit_double_def)
  then have "unit_double (dmul (dsqrt r2) (std_min (Fin 1) (ddiv (of_size n) (of_size (max win 1)))))"
    using unit_dmul dsqrt_unit r2 by blast
  moreover have "trend_confidence cov var varc n win =
      clamp01 (dmul (dsqrt r2) (std_min (Fin 1) (ddiv (of_size n) (of_size (max win 1)))))"
    unfolding trend_confidence_def Let_def r2_def r1_def r0_def ..
  ultimately show ?thesis by (simp only: clamp01_unit)
qed

lemma trend_rate_finite:
  assumes "gb (- 112) 226 cov" "gb (- 112) 226 var" "\<not> dle var (Fin 0)"
  shows "isfinite (dmul (ddiv cov var) (Fin 1000))"
proof -
  obtain v where v: "var = Fin v" "pow2 (- 112) \<le> v" using gb_pos [OF assms(2,3)] by blast
  then have "v \<noteq> 0" using pow2_pos [of "- 112"] by linarith
  moreover obtain c where c: "cov = Fin c" "\<bar>c\<bar> \<le> pow2 226" using gb_Fin [OF assms(1)] by blast
  moreover obtain z where z: "fl (c / v) = Fin z" "\<bar>z\<bar> \<le> pow2 338" using fl_quotient [OF c(2) v(2)] by auto
  moreover have "\<bar>z * 1000\<bar> \<le> pow2 1023"
  proof -
    have "\<bar>z * 1000\<bar> \<le> pow2 338 * pow2 10" using z(2) by (simp add: abs_mult pow2_nat)
    then show ?thesis using pow2_mono [of 348 1023] by (simp flip: pow2_add)
  qed
  ultimately show ?thesis using v by (simp add: fl_Fin)
qed

text \<open>The moments that the two loops deliver for a window of 2 to 16 samples.\<close>

lemma trend_moments:
  assumes "0 < length ss" "length ss \<le> 16" "fold (trend_sum (of_u64 t0)) ss (Fin 0, Fin 0) = (st, sc)"
    and "fold (trend_moment (of_u64 t0) (ddiv st (of_size (length ss))) (ddiv sc (of_size (length ss)))) ss
      (Fin 0, Fin 0, Fin 0) = (cov, var, varc)"
  shows "gb (- 112) 226 cov \<and> gb (- 112) 226 var \<and> gb (- 112) 226 varc"
proof -
  let ?mt = "ddiv st (of_size (length ss))" and ?mc = "ddiv sc (of_size (length ss))"
  have "gb 0 (66 + int (length ss)) st" "gb 0 (66 + int (length ss)) sc"
    using trend_sum_fold [OF gb_0 gb_0, of 66 ss t0] assms by auto
  then have "gb 0 100 st" "gb 0 100 sc" using assms(2) by (auto elim: gb_weaken)
  then have "gb (- 56) 100 ?mt" "gb (- 56) 100 ?mc" using gb_mean assms(1,2) by auto
  from trend_moment_fold [OF this gb_0 gb_0 gb_0, of 210 ss t0] assms
  show ?thesis by (auto elim: gb_weaken)
qed

lemma trend_estimate_ok:
  assumes "window_ok win tr" "win \<le> 16"
  shows "unit_double (te_confidence (trend_estimate tr)) \<and> isfinite (te_rate (trend_estimate tr))"
proof (cases "length (tr_samples tr) < 2")
  case True
  then show ?thesis by (simp add: trend_estimate_def Let_def TrendEstimate_init_def unit_double_def)
next
  case False
  let ?ss = "tr_samples tr" and ?t0 = "smp_t_ms (hd (tr_samples tr))"
  obtain st sc where s: "fold (trend_sum (of_u64 ?t0)) ?ss (Fin 0, Fin 0) = (st, sc)" by fastforce
  obtain cov var varc where m: "fold (trend_moment (of_u64 ?t0) (ddiv st (of_size (length ?ss)))
      (ddiv sc (of_size (length ?ss)))) ?ss (Fin 0, Fin 0, Fin 0) = (cov, var, varc)" using prod_cases3 by blast
  have len: "0 < length ?ss" "length ?ss \<le> 16" using False assms by (auto simp: window_ok_def)
  note gbs = trend_moments [OF len s m]
  show ?thesis
    using False assms gbs trend_rate_finite [of cov var] trend_confidence_unit [of cov var varc, OF _ _ _ _ len(2)]
    by (simp add: trend_estimate_def Let_def s m TrendEstimate_init_def window_ok_def unit_double_def [of "Fin 0"])
qed

lemma trend_run_window: "window_ok win (trend_run win age hist)"
proof -
  have run: "trend_run win age hist = fold (\<lambda>(c, t). trend_add_sample c t)
      (map (\<lambda>s. (smp_committed s, smp_t_ms s)) hist) (TrendEstimator_new win age)"
    by (simp add: trend_run_def fold_map comp_def)
  show ?thesis unfolding run
    by (rule trend.run_inv) (simp_all add: window_ok_def TrendEstimator_new_def)
qed

text \<open>
  C8. For windows of at most 16 samples, and whatever the samples fed to it, the estimated
  rate is finite and the confidence is a number in \<open>[0,1]\<close>: no step of the least-squares computation
  overflows, and its divisions never meet \<open>0/0\<close>, although the variances are rounded and squared.
\<close>

theorem trend_estimate_bounded:
  assumes "win \<le> 16"
  shows "unit_double (te_confidence (trend_estimate (trend_run win age hist))) \<and>
    isfinite (te_rate (trend_estimate (trend_run win age hist)))"
  by (rule trend_estimate_ok [OF trend_run_window assms])

lemma trend_estimate_bounded_witness:
  "unit_double (te_confidence (trend_estimate (trend_run 16 60000
     [\<lparr>smp_t_ms = 1, smp_committed = 5\<rparr>, \<lparr>smp_t_ms = 2, smp_committed = - 1\<rparr>]))) \<and>
   isfinite (te_rate (trend_estimate (trend_run 16 60000
     [\<lparr>smp_t_ms = 1, smp_committed = 5\<rparr>, \<lparr>smp_t_ms = 2, smp_committed = - 1\<rparr>])))"
  by (rule trend_estimate_bounded) simp

end
