(* ===== verification/DomainId.thy ===== *)
theory DomainId imports Prelude begin

text \<open>
  \<open>PressureDomainId\<close> of types.h: the 128-bit identity, its order, its hash, the FNV-1a seed
  that providers derive identities from, and the 32-digit hexadecimal form that the serializer
  and the command line use, with the parser of that form.
\<close>

datatype PressureDomainId = DomainId (id_high: u64) (id_low: u64)

definition id_is_zero :: "PressureDomainId \<Rightarrow> bool" where
  "id_is_zero i \<longleftrightarrow> id_high i = 0 \<and> id_low i = 0"

text \<open>\<open>operator<\<close> compares the halves lexicographically (\<open>std::tie\<close>).\<close>

definition id_less :: "PressureDomainId \<Rightarrow> PressureDomainId \<Rightarrow> bool" where
  "id_less a b \<longleftrightarrow> id_high a < id_high b \<or> (id_high a = id_high b \<and> id_low a < id_low b)"

instantiation PressureDomainId :: linorder
begin

definition less_PressureDomainId :: "PressureDomainId \<Rightarrow> PressureDomainId \<Rightarrow> bool" where
  "less_PressureDomainId a b \<longleftrightarrow> id_less a b"

definition less_eq_PressureDomainId :: "PressureDomainId \<Rightarrow> PressureDomainId \<Rightarrow> bool" where
  "less_eq_PressureDomainId a b \<longleftrightarrow> id_less a b \<or> a = b"

instance
  by intro_classes (auto simp: less_PressureDomainId_def less_eq_PressureDomainId_def id_less_def
      intro: PressureDomainId.expand)

end

section \<open>Hashing\<close>

definition fnv1a :: "string \<Rightarrow> u64" where
  "fnv1a key = fold (\<lambda>c h. (h XOR of_char c) * 1099511628211) key 14695981039346656037"

definition domain_id_hash :: "PressureDomainId \<Rightarrow> u64" where
  "domain_id_hash i =
    (let h = id_high i XOR (id_low i + 0x9e3779b97f4a7c15 + push_bit 6 (id_high i) + drop_bit 2 (id_high i));
         h = h XOR drop_bit 33 h;
         h = h * 0xff51afd7ed558ccd
     in h XOR drop_bit 33 h)"

section \<open>Hexadecimal form\<close>

definition hex_digit :: "nat \<Rightarrow> char" where
  "hex_digit n = (if n < 10 then char_of (48 + n) else char_of (87 + n))"

text \<open>\<open>%0*llx\<close>: the \<open>k\<close> low hexadecimal digits, most significant first.\<close>

fun hex_digits :: "nat \<Rightarrow> u64 \<Rightarrow> string" where
  "hex_digits 0 w = []"
| "hex_digits (Suc k) w = hex_digits k (drop_bit 4 w) @ [hex_digit (unat (take_bit 4 w))]"

definition to_hex :: "PressureDomainId \<Rightarrow> string" where
  "to_hex i = hex_digits 16 (id_high i) @ hex_digits 16 (id_low i)"

definition hex_nibble :: "char \<Rightarrow> u64 option" where
  "hex_nibble c = (let n = of_char c :: nat in
     if 48 \<le> n \<and> n \<le> 57 then Some (of_nat (n - 48))
     else if 97 \<le> n \<and> n \<le> 102 then Some (of_nat (n - 97 + 10))
     else if 65 \<le> n \<and> n \<le> 70 then Some (of_nat (n - 65 + 10))
     else None)"

fun parse_nibbles :: "u64 \<Rightarrow> string \<Rightarrow> u64 option" where
  "parse_nibbles v [] = Some v"
| "parse_nibbles v (c # cs) =
     (case hex_nibble c of None \<Rightarrow> None | Some n \<Rightarrow> parse_nibbles (push_bit 4 v OR n) cs)"

definition parse16 :: "string \<Rightarrow> u64 option" where
  "parse16 chunk = (if length chunk \<noteq> 16 then None else parse_nibbles 0 chunk)"

definition from_hex :: "string \<Rightarrow> PressureDomainId option" where
  "from_hex s =
    (if length s \<noteq> 32 then None
     else case (parse16 (take 16 s), parse16 (take 16 (drop 16 s))) of
         (Some hi, Some lo) \<Rightarrow> Some (DomainId hi lo)
       | _ \<Rightarrow> None)"

subsection \<open>Digits\<close>

text \<open>What the parser makes of a letter's case.\<close>

definition lower_hex :: "char \<Rightarrow> char" where
  "lower_hex c = (let n = of_char c :: nat in if 65 \<le> n \<and> n \<le> 70 then char_of (n + 32) else c)"

lemma length_hex_digits [simp]: "length (hex_digits k w) = k"
  by (induction k arbitrary: w) simp_all

lemma hex_digit_cases: assumes "n < 16" shows "hex_nibble (hex_digit n) = Some (of_nat n)"
proof -
  have "n \<in> set [0..<16]" using assms by simp
  then show ?thesis by (auto simp: upt_rec hex_nibble_def hex_digit_def)
qed

lemma hex_nibble_Some:
  assumes "hex_nibble c = Some n" shows "unat n < 16" and "hex_digit (unat n) = lower_hex c"
proof -
  define k where "k = (of_char c :: nat)"
  have c: "c = char_of k" by (simp add: k_def)
  have "\<exists>m < 16. n = of_nat m \<and> (k = 48 + m \<and> m < 10 \<or> k = 87 + m \<and> 10 \<le> m \<or> k = 55 + m \<and> 10 \<le> m)"
  proof -
    consider "48 \<le> k" "k \<le> 57" "n = of_nat (k - 48)" | "97 \<le> k" "k \<le> 102" "n = of_nat (k - 97 + 10)"
      | "65 \<le> k" "k \<le> 70" "n = of_nat (k - 65 + 10)"
      using assms unfolding hex_nibble_def k_def [symmetric] Let_def by (metis option.distinct(1) option.inject)
    then show ?thesis
    proof cases
      case 1 then show ?thesis by (intro exI [of _ "k - 48"]) auto
    next
      case 2 then show ?thesis by (intro exI [of _ "k - 97 + 10"]) auto
    next
      case 3 then show ?thesis by (intro exI [of _ "k - 65 + 10"]) auto
    qed
  qed
  then obtain m where m: "m < 16" "n = of_nat m"
      "k = 48 + m \<and> m < 10 \<or> k = 87 + m \<and> 10 \<le> m \<or> k = 55 + m \<and> 10 \<le> m" by blast
  then have u: "unat n = m" by (simp add: unat_of_nat)
  show "unat n < 16" using u m by simp
  show "hex_digit (unat n) = lower_hex c"
    unfolding u using m by (auto simp: hex_digit_def lower_hex_def c Let_def)
qed

lemma parse_nibbles_append:
  "parse_nibbles v (xs @ ys) = Option.bind (parse_nibbles v xs) (\<lambda>w. parse_nibbles w ys)"
  by (induction v xs rule: parse_nibbles.induct) (auto split: option.splits)

lemma nibble_shift: "push_bit 4 (take_bit k (drop_bit 4 w)) OR take_bit 4 w = take_bit (k + 4) (w::u64)"
  by (rule bit_eqI) (auto simp: bit_simps)

lemma parse_hex_digits: "parse_nibbles 0 (hex_digits k w) = Some (take_bit (4 * k) w)"
proof (induction k arbitrary: w)
  case 0
  show ?case by simp
next
  case (Suc k)
  have "unat (take_bit 4 w) < 16" using take_bit_nat_less_exp [of 4] by (simp add: unsigned_take_bit_eq)
  then have "hex_nibble (hex_digit (unat (take_bit 4 w))) = Some (take_bit 4 w)" by (simp add: hex_digit_cases)
  then show ?case by (simp add: Suc parse_nibbles_append nibble_shift add.commute)
qed

lemma from_to_hex: "from_hex (to_hex i) = Some i"
  by (cases i) (simp add: from_hex_def to_hex_def parse16_def parse_hex_digits take_bit_word_eq_self)

interpretation domain_id_codec: codec to_hex from_hex "\<lambda>_. True"
  by unfold_locales (rule from_to_hex)

subsection \<open>What the parser accepts\<close>

lemma parse_nibbles_None: "parse_nibbles v xs = None \<longleftrightarrow> (\<exists>c \<in> set xs. hex_nibble c = None)"
  by (induction v xs rule: parse_nibbles.induct) (auto split: option.splits)

lemma parse_nibbles_digits:
  "parse_nibbles 0 xs = Some v \<Longrightarrow> length xs \<le> 16 \<Longrightarrow>
     take_bit (4 * length xs) v = v \<and> hex_digits (length xs) v = map lower_hex xs"
proof (induction xs arbitrary: v rule: rev_induct)
  case Nil
  then show ?case by simp
next
  case (snoc c xs)
  then obtain w n where w: "parse_nibbles 0 xs = Some w" and n: "hex_nibble c = Some n"
    and v: "v = push_bit 4 w OR n"
    by (auto simp: parse_nibbles_append split: option.splits Option.bind_splits)
  have IH: "take_bit (4 * length xs) w = w" "hex_digits (length xs) w = map lower_hex xs"
    using snoc.IH [OF w] snoc.prems(2) by auto
  have n4: "take_bit 4 n = n"
    using hex_nibble_Some(1) [OF n] by (simp add: word_unat_eq_iff unsigned_take_bit_eq take_bit_nat_eq_self)
  have nb: "bit n i \<Longrightarrow> i < 4" for i using n4 by (metis bit_take_bit_iff)
  have wb: "bit w i \<Longrightarrow> i < 4 * length xs" for i using IH(1) by (metis bit_take_bit_iff)
  have len: "4 * length xs + 4 \<le> 64" using snoc.prems(2) by simp
  have d: "drop_bit 4 v = w"
    using nb wb len by (intro bit_eqI) (fastforce simp: v bit_simps)
  have t: "take_bit 4 v = n"
    using nb by (intro bit_eqI) (auto simp: v bit_simps)
  have "take_bit (4 * length xs + 4) v = v"
    using nb wb by (intro bit_eqI) (fastforce simp: v bit_simps)
  then show ?case using d t IH(2) hex_nibble_Some(2) [OF n] by (simp add: add.commute)
qed

lemma parse16_Some: "parse16 s = Some v \<Longrightarrow> length s = 16 \<and> hex_digits 16 v = map lower_hex s"
  using parse_nibbles_digits [of s v] by (auto simp: parse16_def split: if_splits)

lemma from_hex_Some: assumes "from_hex s = Some i" shows "length s = 32 \<and> to_hex i = map lower_hex s"
proof -
  from assms have l: "length s = 32" and
    h: "parse16 (take 16 s) = Some (id_high i)" "parse16 (take 16 (drop 16 s)) = Some (id_low i)"
    by (auto simp: from_hex_def split: if_splits option.splits)
  have "to_hex i = map lower_hex (take 16 s @ take 16 (drop 16 s))"
    using h [THEN parse16_Some] by (simp add: to_hex_def)
  also have "take 16 s @ take 16 (drop 16 s) = s" using l by (simp flip: take_add)
  finally show ?thesis using l by simp
qed

lemma from_hex_None: "from_hex s = None \<longleftrightarrow> length s \<noteq> 32 \<or> (\<exists>c \<in> set s. hex_nibble c = None)"
proof (cases "length s = 32")
  case False
  then show ?thesis by (simp add: from_hex_def)
next
  case True
  then have "s = take 16 s @ take 16 (drop 16 s)" by (simp flip: take_add)
  then have "set s = set (take 16 s) \<union> set (take 16 (drop 16 s))" by (metis set_append)
  moreover have "from_hex s = None \<longleftrightarrow> parse16 (take 16 s) = None \<or> parse16 (take 16 (drop 16 s)) = None"
    using True by (auto simp: from_hex_def split: option.splits)
  ultimately show ?thesis using True by (auto simp: parse16_def parse_nibbles_None)
qed

text \<open>
  \<open>from_hex\<close> undoes \<open>to_hex\<close>, and accepts nothing but the printed form, up to the case of its digits: a
  string denotes at most one identity, and that identity prints as the string in lower case.
\<close>

lemma domain_id_hex:
  "from_hex (to_hex i) = Some i \<and> (from_hex s = Some j \<longrightarrow> length s = 32 \<and> to_hex j = map lower_hex s)"
  using from_to_hex from_hex_Some by blast

lemma domain_id_hex_witness:
  "to_hex (DomainId 0xAB 0x12) = map lower_hex ''00000000000000AB0000000000000012''"
proof -
  have "from_hex ''00000000000000AB0000000000000012'' = Some (DomainId 0xAB 0x12)" by code_simp
  then show ?thesis using domain_id_hex [of "DomainId 0 0" "''00000000000000AB0000000000000012''" "DomainId 0xAB 0x12"] by blast
qed

end
