(* ===== verification/Events.thy ===== *)
theory Events imports Vocabulary DomainId "HOL-Library.Sublist" begin

text \<open>
  events.h and the class \<open>Subscription\<close> of core.cpp: the events, the filter, and the bounded queue with
  its three overflow policies. The mutex makes each member function one atomic step; the callback
  runs after the step and is returned as the flag that says whether it is called. \<open>std::deque\<close> is a
  list with its front at the head; \<open>pop_front\<close> on an empty deque is undefined behaviour, here
  \<open>None\<close>.
\<close>

datatype PressureEventType =
    Ev_DomainAdded
  | Ev_DomainRemoved
  | Ev_PressureEntered
  | Ev_PressureEscalated
  | Ev_PressureRelieved
  | Ev_PressureRecovered
  | Ev_BudgetChanged
  | Ev_ReserveChanged
  | Ev_ProviderStale
  | Ev_ProviderFailed
  | Ev_ProviderRecovered
  | Ev_BackpressureIssued
  | Ev_ReclaimRequested
  | Ev_DemotionRequested
  | Ev_PolicyChanged
  | Ev_GenerationChanged
  | Ev_Custom

fun PressureEventType_to_string :: "PressureEventType \<Rightarrow> string" where
  "PressureEventType_to_string Ev_DomainAdded = ''DOMAIN_ADDED''"
| "PressureEventType_to_string Ev_DomainRemoved = ''DOMAIN_REMOVED''"
| "PressureEventType_to_string Ev_PressureEntered = ''PRESSURE_ENTERED''"
| "PressureEventType_to_string Ev_PressureEscalated = ''PRESSURE_ESCALATED''"
| "PressureEventType_to_string Ev_PressureRelieved = ''PRESSURE_RELIEVED''"
| "PressureEventType_to_string Ev_PressureRecovered = ''PRESSURE_RECOVERED''"
| "PressureEventType_to_string Ev_BudgetChanged = ''BUDGET_CHANGED''"
| "PressureEventType_to_string Ev_ReserveChanged = ''RESERVE_CHANGED''"
| "PressureEventType_to_string Ev_ProviderStale = ''PROVIDER_STALE''"
| "PressureEventType_to_string Ev_ProviderFailed = ''PROVIDER_FAILED''"
| "PressureEventType_to_string Ev_ProviderRecovered = ''PROVIDER_RECOVERED''"
| "PressureEventType_to_string Ev_BackpressureIssued = ''BACKPRESSURE_ISSUED''"
| "PressureEventType_to_string Ev_ReclaimRequested = ''RECLAIM_REQUESTED''"
| "PressureEventType_to_string Ev_DemotionRequested = ''DEMOTION_REQUESTED''"
| "PressureEventType_to_string Ev_PolicyChanged = ''POLICY_CHANGED''"
| "PressureEventType_to_string Ev_GenerationChanged = ''GENERATION_CHANGED''"
| "PressureEventType_to_string Ev_Custom = ''CUSTOM''"

record PressureEvent =
  ev_id :: u64
  ev_type :: PressureEventType
  ev_generation :: u64
  ev_timestamp_ms :: u64
  ev_domain :: "PressureDomainId option"
  ev_detail :: string
  ev_severity_rank :: u32

record SubscriptionFilter =
  filter_domains :: "PressureDomainId list"
  filter_domain_types :: "DomainType list"
  filter_severities :: "PressureLevel list"
  filter_event_types :: "PressureEventType list"

datatype EventOverflowPolicy = DropNewest | DropOldest | Reject

record Subscription =
  sub_filter :: SubscriptionFilter
  sub_max_queue :: nat
  sub_overflow_policy :: EventOverflowPolicy
  sub_queue :: "PressureEvent list"
  sub_callback :: bool
  sub_closed :: bool
  sub_delivered :: u64
  sub_dropped :: u64
  sub_rejected :: u64

definition Subscription_new :: "SubscriptionFilter \<Rightarrow> nat \<Rightarrow> EventOverflowPolicy \<Rightarrow> bool \<Rightarrow> Subscription" where
  "Subscription_new flt max_queue overflow callback = \<lparr>sub_filter = flt, sub_max_queue = max_queue,
     sub_overflow_policy = overflow, sub_queue = [], sub_callback = callback, sub_closed = False,
     sub_delivered = 0, sub_dropped = 0, sub_rejected = 0\<rparr>"

definition sub_matches :: "PressureEvent \<Rightarrow> Subscription \<Rightarrow> bool" where
  "sub_matches e s =
    (let f = sub_filter s in
     if filter_domains f \<noteq> [] \<and> (ev_domain e = None \<or> the (ev_domain e) \<notin> set (filter_domains f)) then False
     else if filter_event_types f \<noteq> [] \<and> ev_type e \<notin> set (filter_event_types f) then False
     else if filter_severities f \<noteq> [] \<and>
             \<not> list_ex (\<lambda>lv. severity_rank lv = sint (ev_severity_rank e)) (filter_severities f) then False
     else True)"

text \<open>The result of \<open>push\<close>: the value returned, whether the callback runs, and the new state.\<close>

definition sub_push :: "PressureEvent \<Rightarrow> Subscription \<Rightarrow> (bool \<times> bool \<times> Subscription) option" where
  "sub_push e s =
    (let enqueue = (\<lambda>s. Some (True, sub_callback s,
           s\<lparr>sub_queue := sub_queue s @ [e], sub_delivered := sub_delivered s + 1\<rparr>)) in
     if \<not> sub_matches e s then Some (False, False, s)
     else if sub_closed s then Some (False, False, s)
     else if sub_max_queue s \<le> length (sub_queue s) then
       (case sub_overflow_policy s of
          Reject \<Rightarrow> Some (False, False, s\<lparr>sub_rejected := sub_rejected s + 1\<rparr>)
        | DropNewest \<Rightarrow> Some (False, False, s\<lparr>sub_dropped := sub_dropped s + 1\<rparr>)
        | DropOldest \<Rightarrow>
            (case sub_queue s of
               [] \<Rightarrow> None
             | _ # q \<Rightarrow> enqueue (s\<lparr>sub_queue := q, sub_dropped := sub_dropped s + 1\<rparr>)))
     else enqueue s)"

definition sub_try_pop :: "Subscription \<Rightarrow> PressureEvent option \<times> Subscription" where
  "sub_try_pop s = (case sub_queue s of [] \<Rightarrow> (None, s) | e # q \<Rightarrow> (Some e, s\<lparr>sub_queue := q\<rparr>))"

definition sub_pending :: "Subscription \<Rightarrow> nat" where
  "sub_pending s = length (sub_queue s)"

definition sub_set_callback :: "bool \<Rightarrow> Subscription \<Rightarrow> Subscription" where
  "sub_set_callback cb s = s\<lparr>sub_callback := cb\<rparr>"

definition sub_close :: "Subscription \<Rightarrow> Subscription" where
  "sub_close s = s\<lparr>sub_closed := True, sub_callback := False\<rparr>"

definition sub_clear :: "Subscription \<Rightarrow> Subscription" where
  "sub_clear s = s\<lparr>sub_queue := []\<rparr>"

section \<open>Interleavings of the member functions\<close>

text \<open>
  Any interleaving of callers is a sequence of operations. A run carries the history against which the
  queue is specified: the events that were pushed, those that were accepted (\<open>push\<close> returned true) and
  those that were popped.
\<close>

datatype sub_op =
    Op_push PressureEvent
  | Op_pop
  | Op_set_callback bool
  | Op_close
  | Op_clear

record sub_trace =
  tr_sub :: Subscription
  tr_pushed :: "PressureEvent list"
  tr_accepted :: "PressureEvent list"
  tr_popped :: "PressureEvent list"

fun sub_exec :: "sub_op \<Rightarrow> sub_trace \<Rightarrow> sub_trace option" where
  "sub_exec (Op_push e) t =
    (case sub_push e (tr_sub t) of None \<Rightarrow> None
     | Some (ok, _, s) \<Rightarrow> Some (t\<lparr>tr_sub := s, tr_pushed := tr_pushed t @ [e],
         tr_accepted := tr_accepted t @ (if ok then [e] else [])\<rparr>))"
| "sub_exec Op_pop t =
    (case sub_try_pop (tr_sub t) of (None, s) \<Rightarrow> Some (t\<lparr>tr_sub := s\<rparr>)
     | (Some e, s) \<Rightarrow> Some (t\<lparr>tr_sub := s, tr_popped := tr_popped t @ [e]\<rparr>))"
| "sub_exec (Op_set_callback b) t = Some (t\<lparr>tr_sub := sub_set_callback b (tr_sub t)\<rparr>)"
| "sub_exec Op_close t = Some (t\<lparr>tr_sub := sub_close (tr_sub t)\<rparr>)"
| "sub_exec Op_clear t = Some (t\<lparr>tr_sub := sub_clear (tr_sub t)\<rparr>)"

fun sub_run :: "sub_op list \<Rightarrow> sub_trace \<Rightarrow> sub_trace option" where
  "sub_run [] t = Some t"
| "sub_run (x # xs) t = (case sub_exec x t of None \<Rightarrow> None | Some t' \<Rightarrow> sub_run xs t')"

definition sub_start :: "SubscriptionFilter \<Rightarrow> nat \<Rightarrow> EventOverflowPolicy \<Rightarrow> bool \<Rightarrow> sub_trace" where
  "sub_start flt n pol cb =
     \<lparr>tr_sub = Subscription_new flt n pol cb, tr_pushed = [], tr_accepted = [], tr_popped = []\<rparr>"

text \<open>The events pushed while the subscription is open.\<close>

fun open_pushes :: "sub_op list \<Rightarrow> PressureEvent list" where
  "open_pushes (Op_push e # xs) = e # open_pushes xs"
| "open_pushes (Op_close # xs) = []"
| "open_pushes (_ # xs) = open_pushes xs"
| "open_pushes [] = []"

lemma open_pushes_snoc:
  "open_pushes (xs @ [x]) =
     open_pushes xs @ (if Op_close \<in> set xs then [] else case x of Op_push e \<Rightarrow> [e] | _ \<Rightarrow> [])"
  by (induction xs rule: open_pushes.induct) (auto split: sub_op.splits)

lemma sub_run_snoc:
  "sub_run (xs @ [x]) t = (case sub_run xs t of None \<Rightarrow> None | Some t' \<Rightarrow> sub_exec x t')"
  by (induction xs arbitrary: t) (auto split: option.splits)

text \<open>The filter and the bounds never change.\<close>

lemma sub_matches_filter: "sub_filter s = sub_filter s' \<Longrightarrow> sub_matches e s = sub_matches e s'"
  by (simp add: sub_matches_def)

lemma sub_push_cases [consumes 1]:
  assumes "sub_push e s = Some (ok, cb, s')"
  obtains (refused) "\<not> ok" "sub_queue s' = sub_queue s" "sub_filter s' = sub_filter s" "sub_max_queue s' = sub_max_queue s"
        "sub_closed s' = sub_closed s" "sub_overflow_policy s' = sub_overflow_policy s" "sub_delivered s' = sub_delivered s"
        "\<not> sub_matches e s \<or> sub_closed s \<or>
           sub_max_queue s \<le> length (sub_queue s) \<and> sub_overflow_policy s \<noteq> DropOldest"
    | (accepted) "ok" "sub_matches e s" "\<not> sub_closed s" "length (sub_queue s) < sub_max_queue s"
        "sub_queue s' = sub_queue s @ [e]" "sub_filter s' = sub_filter s" "sub_max_queue s' = sub_max_queue s"
        "sub_closed s' = sub_closed s" "sub_overflow_policy s' = sub_overflow_policy s" "sub_delivered s' = sub_delivered s + 1"
    | (displaced) x q where "ok" "sub_matches e s" "\<not> sub_closed s" "sub_queue s = x # q" "sub_max_queue s \<le> length (x # q)"
        "sub_queue s' = q @ [e]" "sub_filter s' = sub_filter s" "sub_max_queue s' = sub_max_queue s"
        "sub_closed s' = sub_closed s" "sub_overflow_policy s' = sub_overflow_policy s" "sub_delivered s' = sub_delivered s + 1"
        "sub_overflow_policy s = DropOldest"
  using assms unfolding sub_push_def Let_def
  by (auto split: if_splits EventOverflowPolicy.splits list.splits simp: not_le)

lemma sub_push_defined: "0 < sub_max_queue s \<Longrightarrow> sub_push e s \<noteq> None"
  by (auto simp: sub_push_def Let_def split: EventOverflowPolicy.splits list.splits)

text \<open>
  What holds of every run: the bound is kept, the accepted events end with the queue, and what was
  popped is a subsequence of the accepted events before it.
\<close>

definition sub_ok :: "SubscriptionFilter \<Rightarrow> nat \<Rightarrow> sub_trace \<Rightarrow> bool" where
  "sub_ok flt n t \<longleftrightarrow> sub_filter (tr_sub t) = flt \<and> sub_max_queue (tr_sub t) = n \<and> length (sub_queue (tr_sub t)) \<le> n \<and>
     (\<exists>past. tr_accepted t = past @ sub_queue (tr_sub t) \<and> subseq (tr_popped t) past) \<and>
     subseq (tr_accepted t) (filter (\<lambda>e. sub_matches e (tr_sub t)) (tr_pushed t)) \<and>
     sub_delivered (tr_sub t) = of_nat (length (tr_accepted t))"

lemma sub_ok_start: "sub_ok flt n (sub_start flt n pol cb)"
  by (simp add: sub_ok_def sub_start_def Subscription_new_def)

lemma subseq_snoc: "subseq xs ys \<Longrightarrow> subseq (xs @ [z]) (ys @ [z])"
  by (simp add: list_emb_append_mono)

lemma sub_fields [simp]:
  "sub_filter (sub_clear s) = sub_filter s" "sub_filter (sub_close s) = sub_filter s"
  "sub_filter (sub_set_callback b s) = sub_filter s" "sub_queue (sub_clear s) = []"
  "sub_queue (sub_close s) = sub_queue s" "sub_queue (sub_set_callback b s) = sub_queue s"
  "sub_max_queue (sub_clear s) = sub_max_queue s" "sub_max_queue (sub_close s) = sub_max_queue s"
  "sub_max_queue (sub_set_callback b s) = sub_max_queue s"
  "sub_overflow_policy (sub_clear s) = sub_overflow_policy s" "sub_overflow_policy (sub_close s) = sub_overflow_policy s"
  "sub_overflow_policy (sub_set_callback b s) = sub_overflow_policy s"
  "sub_closed (sub_clear s) = sub_closed s" "sub_closed (sub_close s)" "sub_closed (sub_set_callback b s) = sub_closed s"
  "sub_delivered (sub_clear s) = sub_delivered s" "sub_delivered (sub_close s) = sub_delivered s"
  "sub_delivered (sub_set_callback b s) = sub_delivered s"
  by (simp_all add: sub_clear_def sub_close_def sub_set_callback_def)

lemma sub_matches_same [simp]:
  "sub_matches e (sub_clear s) = sub_matches e s" "sub_matches e (sub_close s) = sub_matches e s"
  "sub_matches e (sub_set_callback b s) = sub_matches e s" "sub_matches e (s\<lparr>sub_queue := q\<rparr>) = sub_matches e s"
  by (rule sub_matches_filter, simp)+

lemma sub_exec_ok:
  assumes ok: "sub_ok flt n t" and n: "0 < n"
  shows "\<exists>t'. sub_exec x t = Some t' \<and> sub_ok flt n t'"
proof -
  obtain past where past: "tr_accepted t = past @ sub_queue (tr_sub t)" "subseq (tr_popped t) past"
    using ok by (auto simp: sub_ok_def)
  show ?thesis
  proof (cases x)
    case (Op_push e)
    have "sub_push e (tr_sub t) \<noteq> None" using ok n by (intro sub_push_defined) (simp add: sub_ok_def)
    then obtain r cb s' where p: "sub_push e (tr_sub t) = Some (r, cb, s')" by (metis not_None_eq prod_cases3)
    let ?t' = "t\<lparr>tr_sub := s', tr_pushed := tr_pushed t @ [e], tr_accepted := tr_accepted t @ (if r then [e] else [])\<rparr>"
    have m: "sub_matches e' s' = sub_matches e' (tr_sub t)" if "sub_filter s' = sub_filter (tr_sub t)" for e'
      using that by (rule sub_matches_filter)
    have "sub_ok flt n ?t'"
      using p
    proof (cases rule: sub_push_cases)
      case refused then show ?thesis using ok m by (auto simp: sub_ok_def intro: subseq_rev_drop_many)
    next
      case accepted
      then show ?thesis using ok m past subseq_snoc [of "tr_accepted t"] by (auto simp: sub_ok_def)
    next
      case (displaced y q)
      then have "tr_accepted t @ [e] = (past @ [y]) @ sub_queue s'" "subseq (tr_popped t) (past @ [y])"
        using past by (auto intro: subseq_rev_drop_many)
      then have acc: "\<exists>past'. tr_accepted t @ [e] = past' @ sub_queue s' \<and> subseq (tr_popped t) past'" by blast
      have "sub_delivered s' = of_nat (length (tr_accepted t @ [e]))" "length (sub_queue s') \<le> n"
        "subseq (tr_accepted t @ [e]) (filter (\<lambda>e. sub_matches e (tr_sub t)) (tr_pushed t @ [e]))"
        using displaced ok subseq_snoc [of "tr_accepted t"] by (auto simp: sub_ok_def)
      with acc displaced ok m show ?thesis by (simp add: sub_ok_def)
    qed
    with p Op_push show ?thesis by simp
  next
    case Op_pop
    show ?thesis
    proof (cases "sub_queue (tr_sub t)")
      case Nil
      with ok Op_pop show ?thesis by (auto simp: sub_ok_def sub_try_pop_def)
    next
      case (Cons y q)
      then have "tr_accepted t = (past @ [y]) @ q" "subseq (tr_popped t @ [y]) (past @ [y])"
        using past subseq_snoc by auto
      with ok Op_pop Cons show ?thesis by (auto simp: sub_ok_def sub_try_pop_def)
    qed
  next
    case Op_clear
    have "subseq (tr_popped t) (tr_accepted t)" using past by (auto intro: subseq_rev_drop_many)
    with ok Op_clear show ?thesis by (auto simp: sub_ok_def)
  qed (use ok in \<open>auto simp: sub_ok_def\<close>)
qed

text \<open>The step as a total machine, for runs of any length: the trace stands still where the code is undefined.\<close>

interpretation subscription: machine "\<lambda>x t. case sub_exec x t of None \<Rightarrow> t | Some t' \<Rightarrow> t'"
    "\<lambda>t. sub_ok flt (Suc n) t" "\<lambda>_. True"
proof unfold_locales
  show "sub_ok flt (Suc n) (case sub_exec x t of None \<Rightarrow> t | Some t' \<Rightarrow> t')" if "sub_ok flt (Suc n) t" for t x
    using sub_exec_ok [OF that, of x] by auto
qed

lemma sub_run_total:
  "sub_ok flt n t \<Longrightarrow> 0 < n \<Longrightarrow>
     sub_run xs t = Some (fold (\<lambda>x t. case sub_exec x t of None \<Rightarrow> t | Some t' \<Rightarrow> t') xs t)"
proof (induction xs arbitrary: t)
  case (Cons x xs)
  then show ?case using sub_exec_ok [of flt n t x] by auto
qed simp

text \<open>
  What the run's operations say of the accepted events: under \<open>DropOldest\<close> every matching event pushed
  before the subscription was closed; under the other policies, without \<open>clear\<close>, exactly what was popped
  and what is queued.
\<close>

definition sub_hist :: "EventOverflowPolicy \<Rightarrow> sub_op list \<Rightarrow> sub_trace \<Rightarrow> bool" where
  "sub_hist pol xs t \<longleftrightarrow> sub_overflow_policy (tr_sub t) = pol \<and>
     (sub_closed (tr_sub t) \<longleftrightarrow> Op_close \<in> set xs) \<and>
     (pol = DropOldest \<longrightarrow> tr_accepted t = filter (\<lambda>e. sub_matches e (tr_sub t)) (open_pushes xs)) \<and>
     (pol \<noteq> DropOldest \<longrightarrow> Op_clear \<notin> set xs \<longrightarrow> tr_popped t @ sub_queue (tr_sub t) = tr_accepted t)"

lemma sub_exec_hist:
  assumes h: "sub_hist pol xs t" and x: "sub_exec x t = Some t'"
  shows "sub_hist pol (xs @ [x]) t'"
proof (cases x)
  case (Op_push e)
  then obtain r cb s' where p: "sub_push e (tr_sub t) = Some (r, cb, s')"
    and t': "t' = t\<lparr>tr_sub := s', tr_pushed := tr_pushed t @ [e], tr_accepted := tr_accepted t @ (if r then [e] else [])\<rparr>"
    using x by (auto split: option.splits)
  have m: "sub_matches e' s' = sub_matches e' (tr_sub t)" if "sub_filter s' = sub_filter (tr_sub t)" for e'
    using that by (rule sub_matches_filter)
  from p show ?thesis
    by (cases rule: sub_push_cases)
       (use h m Op_push in \<open>auto simp: t' sub_hist_def open_pushes_snoc\<close>)
next
  case Op_pop
  with h x show ?thesis
    by (cases "sub_queue (tr_sub t)") (auto simp: sub_hist_def open_pushes_snoc sub_try_pop_def)
qed (use h x in \<open>auto simp: sub_hist_def open_pushes_snoc\<close>)

lemma sub_run_hist: "sub_run xs (sub_start flt n pol cb) = Some t \<Longrightarrow> sub_hist pol xs t"
proof (induction xs arbitrary: t rule: rev_induct)
  case Nil
  then show ?case by (auto simp: sub_hist_def sub_start_def Subscription_new_def)
next
  case (snoc x xs)
  then show ?case by (auto simp: sub_run_snoc split: option.splits intro: sub_exec_hist)
qed

lemma sub_push_result:
  assumes "0 < sub_max_queue s" "length (sub_queue s) \<le> sub_max_queue s"
  shows "\<exists>cb' s'. sub_push e s = Some (sub_matches e s \<and> \<not> sub_closed s \<and>
        (length (sub_queue s) < sub_max_queue s \<or> sub_overflow_policy s = DropOldest), cb', s') \<and>
      sub_queue s' = (if sub_matches e s \<and> \<not> sub_closed s \<and>
        (length (sub_queue s) < sub_max_queue s \<or> sub_overflow_policy s = DropOldest)
        then take_last (sub_max_queue s) (sub_queue s @ [e]) else sub_queue s)"
proof -
  obtain ok cb s' where p: "sub_push e s = Some (ok, cb, s')"
    using sub_push_defined [OF assms(1), of e] by (metis not_None_eq prod_cases3)
  then show ?thesis
  proof (cases rule: sub_push_cases)
    case refused
    then show ?thesis using p assms by (auto simp: not_less)
  next
    case accepted
    then show ?thesis using p by simp
  next
    case (displaced x q)
    then have "take_last (sub_max_queue s) (sub_queue s @ [e]) = q @ [e]"
      using assms by (simp add: take_last_def Suc_diff_le)
    then show ?thesis using p displaced by simp
  qed
qed

text \<open>
  C22. A subscription with a positive bound never runs into undefined behaviour, whatever the order of its
  member functions, and its queue never exceeds the bound. It is first in first out: the accepted events (those
  for which \<open>push\<close> returned true) are in the order of the pushes and match the filter, the queue is their end, and what
  was popped is a subsequence, in order, of those before the queue. \<open>delivered\<close> counts the accepted events modulo
  2^64. Under \<open>DropOldest\<close> every matching event pushed before \<open>close\<close> is accepted; under the other two policies nothing
  accepted is lost unless \<open>clear\<close> is called: the popped events followed by the queue are exactly the accepted ones. The
  next \<open>push\<close> returns true exactly when the event matches, the subscription is open and there is room or the policy is
  \<open>DropOldest\<close>; it then leaves the newest \<open>max_queue\<close> of the queue followed by the event, and otherwise the queue as it was.
\<close>

theorem subscription_fifo:
  assumes "0 < n"
  shows "\<exists>t past cb' s'. sub_run xs (sub_start flt n pol cb) = Some t \<and> length (sub_queue (tr_sub t)) \<le> n \<and>
    (sub_closed (tr_sub t) \<longleftrightarrow> Op_close \<in> set xs) \<and>
    tr_accepted t = past @ sub_queue (tr_sub t) \<and> subseq (tr_popped t) past \<and>
    subseq (tr_accepted t) (filter (\<lambda>e. sub_matches e (tr_sub t)) (tr_pushed t)) \<and>
    sub_delivered (tr_sub t) = of_nat (length (tr_accepted t)) \<and>
    (pol = DropOldest \<longrightarrow> tr_accepted t = filter (\<lambda>e. sub_matches e (tr_sub t)) (open_pushes xs)) \<and>
    (pol \<noteq> DropOldest \<longrightarrow> Op_clear \<notin> set xs \<longrightarrow> tr_popped t @ sub_queue (tr_sub t) = tr_accepted t) \<and>
    sub_push e (tr_sub t) = Some (sub_matches e (tr_sub t) \<and> Op_close \<notin> set xs \<and>
      (length (sub_queue (tr_sub t)) < n \<or> pol = DropOldest), cb', s') \<and>
    sub_queue s' = (if sub_matches e (tr_sub t) \<and> Op_close \<notin> set xs \<and>
      (length (sub_queue (tr_sub t)) < n \<or> pol = DropOldest)
      then take_last n (sub_queue (tr_sub t) @ [e]) else sub_queue (tr_sub t))"
proof -
  obtain m where n: "n = Suc m" using assms by (cases n) auto
  have run: "sub_ok flt n (fold (\<lambda>x t. case sub_exec x t of None \<Rightarrow> t | Some t' \<Rightarrow> t') xs (sub_start flt n pol cb))"
    unfolding n by (rule subscription.run_inv [OF sub_ok_start]) simp
  obtain t where t: "sub_run xs (sub_start flt n pol cb) = Some t" "sub_ok flt n t"
    using sub_run_total [OF sub_ok_start assms] run by simp
  obtain past where past: "tr_accepted t = past @ sub_queue (tr_sub t)" "subseq (tr_popped t) past"
    using t(2) by (auto simp: sub_ok_def)
  obtain cb' s' where s': "sub_push e (tr_sub t) = Some (sub_matches e (tr_sub t) \<and> \<not> sub_closed (tr_sub t) \<and>
        (length (sub_queue (tr_sub t)) < n \<or> sub_overflow_policy (tr_sub t) = DropOldest), cb', s')"
      "sub_queue s' = (if sub_matches e (tr_sub t) \<and> \<not> sub_closed (tr_sub t) \<and>
        (length (sub_queue (tr_sub t)) < n \<or> sub_overflow_policy (tr_sub t) = DropOldest)
        then take_last n (sub_queue (tr_sub t) @ [e]) else sub_queue (tr_sub t))"
    using sub_push_result [of "tr_sub t" e] t(2) assms by (auto simp: sub_ok_def)
  show ?thesis
    using t past s' sub_run_hist [OF t(1)]
    by (intro exI [of _ t] exI [of _ past] exI [of _ cb'] exI [of _ s']) (simp add: sub_ok_def sub_hist_def)
qed

definition demo_event :: "u64 \<Rightarrow> PressureEvent" where
  "demo_event i = \<lparr>ev_id = i, ev_type = Ev_DomainAdded, ev_generation = 1, ev_timestamp_ms = 0, ev_domain = None,
     ev_detail = ''domain added'', ev_severity_rank = 0\<rparr>"

definition every_event :: SubscriptionFilter where
  "every_event = \<lparr>filter_domains = [], filter_domain_types = [], filter_severities = [], filter_event_types = []\<rparr>"

text \<open>
  Two places, \<open>DropOldest\<close>: three pushes displace the first event, one pop takes the second, and a fourth
  event is accepted beside the third.
\<close>

lemma subscription_fifo_witness:
  "\<exists>t cb' s'. sub_run [Op_push (demo_event 1), Op_push (demo_event 2), Op_push (demo_event 3), Op_pop]
      (sub_start every_event 2 DropOldest True) = Some t \<and>
    tr_accepted t = [demo_event 1, demo_event 2, demo_event 3] \<and> tr_popped t = [demo_event 2] \<and>
    sub_queue (tr_sub t) = [demo_event 3] \<and> sub_delivered (tr_sub t) = 3 \<and>
    sub_push (demo_event 4) (tr_sub t) = Some (True, cb', s') \<and> sub_queue s' = [demo_event 3, demo_event 4]"
proof -
  have run: "\<exists>t. sub_run [Op_push (demo_event 1), Op_push (demo_event 2), Op_push (demo_event 3), Op_pop]
      (sub_start every_event 2 DropOldest True) = Some t \<and>
    tr_accepted t = [demo_event 1, demo_event 2, demo_event 3] \<and> tr_popped t = [demo_event 2] \<and>
    sub_queue (tr_sub t) = [demo_event 3] \<and> sub_delivered (tr_sub t) = 3 \<and> (\<forall>e. sub_matches e (tr_sub t))"
    by (simp add: sub_start_def Subscription_new_def sub_push_def sub_try_pop_def sub_matches_def every_event_def)
  show ?thesis
    using subscription_fifo [of 2 "[Op_push (demo_event 1), Op_push (demo_event 2), Op_push (demo_event 3), Op_pop]"
        every_event DropOldest True "demo_event 4"] run
    by (fastforce simp: take_last_def)
qed

section \<open>Which events are kept\<close>

lemma sub_push_drop_oldest:
  assumes "sub_matches e s" "\<not> sub_closed s" "sub_overflow_policy s = DropOldest" "length (sub_queue s) \<le> sub_max_queue s"
    and "0 < sub_max_queue s"
  shows "sub_push e s = Some (True, sub_callback s,
    s\<lparr>sub_queue := take_last (sub_max_queue s) (sub_queue s @ [e]),
      sub_dropped := sub_dropped s + (if sub_max_queue s \<le> length (sub_queue s) then 1 else 0),
      sub_delivered := sub_delivered s + 1\<rparr>)"
proof (cases "sub_max_queue s \<le> length (sub_queue s)")
  case True
  then obtain x q where q: "sub_queue s = x # q" using assms(5) by (cases "sub_queue s") auto
  then have "take_last (sub_max_queue s) (sub_queue s @ [e]) = q @ [e]"
    using True assms(4) by (simp add: take_last_def Suc_diff_le)
  then show ?thesis using True q assms by (simp add: sub_push_def)
next
  case False
  then show ?thesis using assms by (simp add: sub_push_def)
qed

text \<open>
  Under \<open>DropOldest\<close> (the policy of every subscription that the runtime creates), pushing a sequence
  of events leaves exactly the newest \<open>max_queue\<close> of the events that match the filter.
\<close>

lemma drop_oldest_keeps_newest:
  assumes "0 < n"
  shows "\<exists>t. sub_run (map Op_push es) (sub_start flt n DropOldest cb) = Some t \<and>
    sub_queue (tr_sub t) = take_last n (filter (\<lambda>e. sub_matches e (tr_sub t)) es)"
proof -
  have "\<exists>t'. sub_run (map Op_push es) t = Some t' \<and> sub_filter (tr_sub t') = sub_filter (tr_sub t) \<and>
      sub_queue (tr_sub t') = take_last n (sub_queue (tr_sub t) @ filter (\<lambda>e. sub_matches e (tr_sub t)) es)"
    if "sub_max_queue (tr_sub t) = n" "sub_overflow_policy (tr_sub t) = DropOldest" "\<not> sub_closed (tr_sub t)"
      "length (sub_queue (tr_sub t)) \<le> n" for t
    using that
  proof (induction es arbitrary: t)
    case (Cons e es)
    let ?s = "tr_sub t"
    show ?case
    proof (cases "sub_matches e ?s")
      case False
      then show ?thesis using Cons.IH [of "t\<lparr>tr_pushed := tr_pushed t @ [e]\<rparr>"] Cons.prems by (simp add: sub_push_def)
    next
      case True
      obtain s' where s': "sub_push e ?s = Some (True, sub_callback ?s, s')" "sub_queue s' = take_last n (sub_queue ?s @ [e])"
        "sub_filter s' = sub_filter ?s" "sub_max_queue s' = n" "sub_overflow_policy s' = DropOldest" "\<not> sub_closed s'"
        using sub_push_drop_oldest [OF True] Cons.prems assms by simp
      let ?t' = "t\<lparr>tr_sub := s', tr_pushed := tr_pushed t @ [e], tr_accepted := tr_accepted t @ [e]\<rparr>"
      have m: "sub_matches e' s' = sub_matches e' ?s" for e' using s'(3) by (rule sub_matches_filter)
      obtain t'' where t'': "sub_run (map Op_push es) ?t' = Some t''" "sub_filter (tr_sub t'') = sub_filter ?s"
        "sub_queue (tr_sub t'') = take_last n (take_last n (sub_queue ?s @ [e]) @ filter (\<lambda>e. sub_matches e ?s) es)"
        using Cons.IH [of ?t'] s' by (auto simp: m)
      have "sub_queue (tr_sub t'') = take_last n (sub_queue ?s @ filter (\<lambda>e. sub_matches e ?s) (e # es))"
        unfolding t''(3) using True by (simp add: take_last_absorb)
      then show ?thesis using t'' s'(1) by (intro exI [of _ t'']) simp
    qed
  qed simp
  from this [of "sub_start flt n DropOldest cb"] obtain t where
    t: "sub_run (map Op_push es) (sub_start flt n DropOldest cb) = Some t"
      "sub_filter (tr_sub t) = sub_filter (tr_sub (sub_start flt n DropOldest cb))"
      "sub_queue (tr_sub t) = take_last n (filter (\<lambda>e. sub_matches e (tr_sub (sub_start flt n DropOldest cb))) es)"
    by (auto simp: sub_start_def Subscription_new_def)
  have "sub_matches e (tr_sub (sub_start flt n DropOldest cb)) = sub_matches e (tr_sub t)" for e
    using t(2) by (rule sub_matches_filter [OF sym])
  with t show ?thesis by simp
qed

lemma drop_oldest_keeps_newest_witness:
  "\<exists>t. sub_run (map Op_push []) (sub_start \<lparr>filter_domains = [], filter_domain_types = [], filter_severities = [],
      filter_event_types = []\<rparr> 2 DropOldest False) = Some t \<and>
    sub_queue (tr_sub t) = take_last 2 (filter (\<lambda>e. sub_matches e (tr_sub t)) [])"
  by (rule drop_oldest_keeps_newest) simp

text \<open>
  The positive bound is needed: with \<open>max_queue\<close> 0 and \<open>DropOldest\<close>, the first matching event makes \<open>push\<close>
  pop an empty deque, which is undefined behaviour.
\<close>

theorem drop_oldest_zero_queue:
  "sub_push e (Subscription_new flt 0 DropOldest cb) = None \<longleftrightarrow> sub_matches e (Subscription_new flt 0 DropOldest cb)"
  by (simp add: sub_push_def Subscription_new_def)

end
