(* ===== verification/Budgets.thy ===== *)
theory Budgets imports Vocabulary begin

text \<open>
  budget.h and \<open>validate_budget\<close> of core.cpp: governed budgets, their reserves, the capacity that
  the reserves leave, and the validation that \<open>set_budget\<close> and the deserializer apply. The byte
  counts are \<open>uint64_t\<close>, so the sum of the reserves wraps.
\<close>

section \<open>Reserves and budgets\<close>

datatype ReserveKind =
    RK_Emergency
  | RK_Migration
  | RK_Checkpoint
  | RK_TransferStaging
  | RK_Recovery
  | RK_Fragmentation
  | RK_System
  | RK_Application
  | RK_Custom

fun ReserveKind_to_string :: "ReserveKind \<Rightarrow> string" where
  "ReserveKind_to_string RK_Emergency = ''EMERGENCY''"
| "ReserveKind_to_string RK_Migration = ''MIGRATION''"
| "ReserveKind_to_string RK_Checkpoint = ''CHECKPOINT''"
| "ReserveKind_to_string RK_TransferStaging = ''TRANSFER_STAGING''"
| "ReserveKind_to_string RK_Recovery = ''RECOVERY''"
| "ReserveKind_to_string RK_Fragmentation = ''FRAGMENTATION''"
| "ReserveKind_to_string RK_System = ''SYSTEM''"
| "ReserveKind_to_string RK_Application = ''APPLICATION''"
| "ReserveKind_to_string RK_Custom = ''CUSTOM''"

definition reserve_kind_from_string :: "string \<Rightarrow> ReserveKind option" where
  "reserve_kind_from_string s =
    (if s = ''EMERGENCY'' then Some RK_Emergency
     else if s = ''MIGRATION'' then Some RK_Migration
     else if s = ''CHECKPOINT'' then Some RK_Checkpoint
     else if s = ''TRANSFER_STAGING'' then Some RK_TransferStaging
     else if s = ''RECOVERY'' then Some RK_Recovery
     else if s = ''FRAGMENTATION'' then Some RK_Fragmentation
     else if s = ''SYSTEM'' then Some RK_System
     else if s = ''APPLICATION'' then Some RK_Application
     else if s = ''CUSTOM'' then Some RK_Custom
     else None)"

interpretation reserve_kind_codec: canonical_codec ReserveKind_to_string reserve_kind_from_string "\<lambda>_. True"
proof unfold_locales
  show "reserve_kind_from_string (ReserveKind_to_string x) = Some x" for x
    by (cases x) (simp_all add: reserve_kind_from_string_def)
qed (auto simp: reserve_kind_from_string_def split: if_splits)

record Reserve =
  rsv_kind :: ReserveKind
  rsv_name :: string
  rsv_bytes :: u64

record Budget =
  hard_capacity :: u64
  soft_capacity :: "u64 option"
  reserves :: "Reserve list"
  emergency_reserve_bytes :: u64
  minimum_free_reserve :: u64
  reclaim_target :: u64
  demotion_target :: u64
  admission_headroom :: u64
  owner :: string
  budget_version :: u64

definition reserve_bytes :: "Budget \<Rightarrow> u64" where
  "reserve_bytes b = fold (\<lambda>r total. total + rsv_bytes r) (reserves b) (emergency_reserve_bytes b)"

definition usable_capacity :: "Budget \<Rightarrow> u64" where
  "usable_capacity b = (let res = reserve_bytes b in
     if res \<le> hard_capacity b then hard_capacity b - res else 0)"

definition available :: "Budget \<Rightarrow> u64 \<Rightarrow> u64" where
  "available b committed = (let usable = usable_capacity b in
     if committed < usable then usable - committed else 0)"

definition budget_eq :: "Budget \<Rightarrow> Budget \<Rightarrow> bool" where
  "budget_eq a o' \<longleftrightarrow>
     hard_capacity a = hard_capacity o' \<and>
     soft_capacity a = soft_capacity o' \<and>
     reserve_bytes a = reserve_bytes o' \<and>
     emergency_reserve_bytes a = emergency_reserve_bytes o' \<and>
     minimum_free_reserve a = minimum_free_reserve o' \<and>
     reclaim_target a = reclaim_target o' \<and>
     demotion_target a = demotion_target o' \<and>
     admission_headroom a = admission_headroom o' \<and>
     owner a = owner o' \<and> budget_version a = budget_version o'"

text \<open>\<open>Budget{}\<close>, the member initializers.\<close>

definition Budget_init :: Budget where
  "Budget_init = \<lparr>hard_capacity = 0, soft_capacity = None, reserves = [], emergency_reserve_bytes = 0,
     minimum_free_reserve = 0, reclaim_target = 0, demotion_target = 0, admission_headroom = 0,
     owner = '''', budget_version = 0\<rparr>"

definition default_budget :: Budget where
  "default_budget = Budget_init\<lparr>hard_capacity := 0\<rparr>"

section \<open>Validation\<close>

definition validate_budget :: "Budget \<Rightarrow> string option" where
  "validate_budget b =
    (if hard_capacity b = 0 then
       (if soft_capacity b \<noteq> None \<and> the (soft_capacity b) \<noteq> 0
        then Some ''soft capacity set but no hard capacity'' else None)
     else first_problem
      [(soft_capacity b \<noteq> None \<and> the (soft_capacity b) > hard_capacity b, ''soft capacity exceeds hard capacity''),
       (reserve_bytes b > hard_capacity b, ''reserves exceed hard capacity''),
       (emergency_reserve_bytes b > hard_capacity b, ''emergency reserve exceeds hard capacity''),
       (minimum_free_reserve b > hard_capacity b, ''minimum free reserve exceeds hard capacity''),
       (reclaim_target b > hard_capacity b, ''reclaim target exceeds hard capacity''),
       (demotion_target b > hard_capacity b, ''demotion target exceeds hard capacity''),
       (admission_headroom b > hard_capacity b, ''admission headroom exceeds hard capacity'')])"

section \<open>The sum of the reserves\<close>

text \<open>The bytes that the reserves hold aside, as a number: what \<open>reserve_bytes\<close> computes modulo \<open>2^64\<close>.\<close>

definition reserve_total :: "Budget \<Rightarrow> nat" where
  "reserve_total b = unat (emergency_reserve_bytes b) + (\<Sum>r\<leftarrow>reserves b. unat (rsv_bytes r))"

lemma fold_reserves: "unat (fold (\<lambda>r total. total + rsv_bytes r) rs t) =
    (unat t + (\<Sum>r\<leftarrow>rs. unat (rsv_bytes r))) mod 2 ^ 64"
proof (induction rs arbitrary: t)
  case Nil
  show ?case using unsigned_less [of t, where 'a = nat] by simp
next
  case (Cons r rs)
  then show ?case by (simp add: unat_word_ariths mod_add_left_eq add.assoc)
qed

lemma unat_reserve_bytes: "unat (reserve_bytes b) = reserve_total b mod 2 ^ 64"
  by (simp add: reserve_bytes_def reserve_total_def fold_reserves)

lemma reserve_bytes_exact: "reserve_total b < 2 ^ 64 \<Longrightarrow> unat (reserve_bytes b) = reserve_total b"
  by (simp add: unat_reserve_bytes)

lemma usable_monus: "usable_capacity b = monus (hard_capacity b) (reserve_bytes b)"
  by (simp add: usable_capacity_def monus_def Let_def)

lemma available_monus: "available b c = monus (usable_capacity b) c"
  by (simp add: available_def Let_def monus_strict)

lemma usable_le_hard: "usable_capacity b \<le> hard_capacity b"
  by (simp add: usable_monus monus_le)

lemma unat_usable: "unat (usable_capacity b) = unat (hard_capacity b) - unat (reserve_bytes b)"
  by (simp add: usable_monus unat_monus)

lemma unat_available: "unat (available b c) = unat (usable_capacity b) - unat c"
  by (simp add: available_monus unat_monus)

section \<open>What validation gives\<close>

definition budget_fits :: "Budget \<Rightarrow> bool" where
  "budget_fits b \<longleftrightarrow>
     (\<forall>s. soft_capacity b = Some s \<longrightarrow> s \<le> hard_capacity b) \<and>
     reserve_bytes b \<le> hard_capacity b \<and> emergency_reserve_bytes b \<le> hard_capacity b \<and>
     minimum_free_reserve b \<le> hard_capacity b \<and> reclaim_target b \<le> hard_capacity b \<and>
     demotion_target b \<le> hard_capacity b \<and> admission_headroom b \<le> hard_capacity b"

lemma validate_budget_governed:
  "hard_capacity b \<noteq> 0 \<Longrightarrow> validate_budget b = None \<longleftrightarrow> budget_fits b"
  by (auto simp: validate_budget_def budget_fits_def not_less)

lemma validate_budget_ungoverned:
  "hard_capacity b = 0 \<Longrightarrow> validate_budget b = None \<longleftrightarrow> soft_capacity b \<in> {None, Some 0}"
  by (cases "soft_capacity b") (auto simp: validate_budget_def)

lemma validate_default_budget [simp]: "validate_budget default_budget = None"
  by (simp add: validate_budget_def default_budget_def Budget_init_def)

lemma validated_budget_split: "validate_budget b = None \<Longrightarrow> hard_capacity b \<noteq> 0 \<Longrightarrow>
    unat (usable_capacity b) + unat (reserve_bytes b) = unat (hard_capacity b)"
  by (simp add: validate_budget_governed budget_fits_def unat_usable word_le_nat_alt)

text \<open>
  A validated governed budget partitions its hard capacity: what the reserves hold, what is
  available at a committed amount, and the committed bytes (as far as they fit) add up to it exactly,
  provided the sum of the reserves does not exceed 64 bits.
\<close>

lemma budget_partition:
  assumes "validate_budget b = None" "hard_capacity b \<noteq> 0" "reserve_total b < 2 ^ 64"
  shows "reserve_total b + min (unat c) (unat (usable_capacity b)) + unat (available b c) = unat (hard_capacity b)"
  using validated_budget_split [OF assms(1,2)] reserve_bytes_exact [OF assms(3)] by (simp add: unat_available)

definition sample_budget :: Budget where
  "sample_budget = Budget_init\<lparr>hard_capacity := 1000, emergency_reserve_bytes := 100,
     reserves := [\<lparr>rsv_kind = RK_Migration, rsv_name = ''mig'', rsv_bytes = 50\<rparr>]\<rparr>"

lemma budget_partition_witness:
  "reserve_total sample_budget + min (unat (900::u64)) (unat (usable_capacity sample_budget)) +
     unat (available sample_budget 900) = unat (hard_capacity sample_budget)"
  by (rule budget_partition)
     (simp_all add: sample_budget_def Budget_init_def validate_budget_def reserve_bytes_def reserve_total_def)

text \<open>
  The bound on the sum is needed: the reserves are added modulo \<open>2^64\<close>, and the validator accepts
  reserves of \<open>2^64\<close> bytes under a hard capacity of one byte, all of which then counts as usable.
\<close>

lemma reserve_sum_wraps:
  "let b = Budget_init\<lparr>hard_capacity := 1,
      reserves := [\<lparr>rsv_kind = RK_Migration, rsv_name = [], rsv_bytes = 2 ^ 63\<rparr>,
                   \<lparr>rsv_kind = RK_Recovery, rsv_name = [], rsv_bytes = 2 ^ 63\<rparr>]\<rparr>
   in validate_budget b = None \<and> reserve_total b = 2 ^ 64 \<and> usable_capacity b = hard_capacity b"
  by (simp add: Let_def Budget_init_def validate_budget_def reserve_bytes_def reserve_total_def usable_capacity_def
      word_less_nat_alt word_le_nat_alt)

end
