(* ===== verification/Domains.thy ===== *)
theory Domains imports Budgets DomainId begin

text \<open>
  domain.h: what a provider reports of a domain (\<open>DomainObservation\<close>) and what the runtime makes
  of it (\<open>DomainState\<close>), with the helper \<open>compute_domain_available\<close> of core.cpp.
\<close>

record DomainObservation =
  obs_id :: PressureDomainId
  obs_type :: DomainType
  obs_provider :: string
  obs_native_resource_id :: string
  obs_total_capacity :: u64
  obs_committed :: u64
  obs_resident :: u64
  obs_reclaimable :: "u64 option"
  obs_unavailable :: u64
  obs_available :: u64
  obs_usable_capacity :: "u64 option"
  obs_reserved :: "u64 option"
  obs_confidence :: Confidence
  obs_provenance :: Provenance
  obs_validity :: Validity
  obs_observed_at_ms :: u64
  obs_allocation_failures :: i32
  obs_growth_bytes_per_s :: double
  obs_detail :: string

definition DomainObservation_init :: DomainObservation where
  "DomainObservation_init = \<lparr>obs_id = DomainId 0 0, obs_type = DT_Unknown, obs_provider = [],
     obs_native_resource_id = [], obs_total_capacity = 0, obs_committed = 0, obs_resident = 0,
     obs_reclaimable = None, obs_unavailable = 0, obs_available = 0, obs_usable_capacity = None,
     obs_reserved = None, obs_confidence = Conf_Unknown, obs_provenance = Prov_Unknown,
     obs_validity = Val_Valid, obs_observed_at_ms = 0, obs_allocation_failures = 0,
     obs_growth_bytes_per_s = Fin 0, obs_detail = []\<rparr>"

record DomainBudgetAssignment =
  assignment_present :: bool
  assignment_budget :: Budget

record DomainState =
  ds_id :: PressureDomainId
  ds_type :: DomainType
  ds_provider :: string
  ds_native_resource_id :: string
  ds_budget :: Budget
  ds_governed :: bool
  ds_total_capacity :: u64
  ds_usable_capacity :: u64
  ds_reserved_bytes :: u64
  ds_committed :: u64
  ds_resident :: u64
  ds_available :: u64
  ds_reclaimable :: u64
  ds_utilization :: double
  ds_level :: PressureLevel
  ds_previous_level :: PressureLevel
  ds_in_hysteresis_hold :: bool
  ds_level_hold_observations :: u64
  ds_score :: double
  ds_utilization_component :: double
  ds_free_deficit_component :: double
  ds_reserve_deficit_component :: double
  ds_growth_component :: double
  ds_allocation_failure_component :: double
  ds_stigma :: double
  ds_trend :: TrendDirection
  ds_trend_rate :: double
  ds_trend_confidence :: double
  ds_trend_window_samples :: u64
  ds_confidence :: Confidence
  ds_provenance :: Provenance
  ds_validity :: Validity
  ds_timestamp_ms :: u64
  ds_responses :: "ResponseAction list"
  ds_explanation :: string
  ds_entered_level_at_ms :: u64
  ds_peak_level :: u64

definition DomainState_init :: DomainState where
  "DomainState_init = \<lparr>ds_id = DomainId 0 0, ds_type = DT_Unknown, ds_provider = [], ds_native_resource_id = [],
     ds_budget = Budget_init, ds_governed = False, ds_total_capacity = 0, ds_usable_capacity = 0,
     ds_reserved_bytes = 0, ds_committed = 0, ds_resident = 0, ds_available = 0, ds_reclaimable = 0,
     ds_utilization = Fin 0, ds_level = PL_Unknown, ds_previous_level = PL_Unknown,
     ds_in_hysteresis_hold = False, ds_level_hold_observations = 0, ds_score = Fin 0,
     ds_utilization_component = Fin 0, ds_free_deficit_component = Fin 0, ds_reserve_deficit_component = Fin 0,
     ds_growth_component = Fin 0, ds_allocation_failure_component = Fin 0, ds_stigma = Fin 0,
     ds_trend = Trend_Unknown, ds_trend_rate = Fin 0, ds_trend_confidence = Fin 0, ds_trend_window_samples = 0,
     ds_confidence = Conf_Unknown, ds_provenance = Prov_Unknown, ds_validity = Val_Valid, ds_timestamp_ms = 0,
     ds_responses = [], ds_explanation = [], ds_entered_level_at_ms = 0, ds_peak_level = 0\<rparr>"

definition compute_domain_available :: "Budget \<Rightarrow> DomainObservation \<Rightarrow> u64" where
  "compute_domain_available b obs =
    (if hard_capacity b = 0 then obs_available obs
     else let usable = usable_capacity b
          in if obs_committed obs < usable then usable - obs_committed obs else 0)"

lemma compute_domain_available_governed:
  "hard_capacity b \<noteq> 0 \<Longrightarrow> compute_domain_available b obs = available b (obs_committed obs)"
  by (simp add: compute_domain_available_def available_def)

end
