(* ===== verification/Snapshots.thy ===== *)
theory Snapshots imports Domains StdMap begin

text \<open>
  snapshot.h and its part of core.cpp: the published snapshot, the lookup of a domain in it, and the
  structural difference of two snapshots, by which the runtime decides whether the generation
  advances. \<open>provider_health\<close> is a \<open>std::map\<close>, so equality of maps is equality of the sorted lists.
\<close>

record SnapshotEventSummary =
  ses_classes :: "string list"
  ses_count :: u32
  ses_dropped :: u32

record Snapshot =
  sn_id :: u64
  sn_generation :: u64
  sn_timestamp_ms :: u64
  sn_domains :: "DomainState list"
  sn_provider_health :: "(string \<times> ProviderStatus) list"
  sn_aggregate_level :: PressureLevel
  sn_aggregate_score :: double
  sn_aggregate_explanation :: string
  sn_policy_version :: u64
  sn_policy_name :: string
  sn_warnings :: "string list"
  sn_stale_data :: bool
  sn_partial_data :: bool
  sn_confidence :: Confidence
  sn_provenance :: Provenance
  sn_events :: SnapshotEventSummary

definition Snapshot_init :: Snapshot where
  "Snapshot_init = \<lparr>sn_id = 0, sn_generation = 0, sn_timestamp_ms = 0, sn_domains = [], sn_provider_health = [],
     sn_aggregate_level = PL_Unknown, sn_aggregate_score = Fin 0, sn_aggregate_explanation = [],
     sn_policy_version = 0, sn_policy_name = [], sn_warnings = [], sn_stale_data = False, sn_partial_data = False,
     sn_confidence = Conf_Unknown, sn_provenance = Prov_Unknown,
     sn_events = \<lparr>ses_classes = [], ses_count = 0, ses_dropped = 0\<rparr>\<rparr>"

definition find_domain :: "PressureDomainId \<Rightarrow> Snapshot \<Rightarrow> DomainState option" where
  "find_domain i s = find (\<lambda>d. ds_id d = i) (sn_domains s)"

record SnapshotDiff =
  added_domains :: "PressureDomainId list"
  removed_domains :: "PressureDomainId list"
  level_changed :: "PressureDomainId list"
  budget_changed :: "string list"
  reserve_changed :: "PressureDomainId list"
  aggregate_changed :: bool
  policy_changed :: bool
  provider_health_changed :: bool

definition diff_any :: "SnapshotDiff \<Rightarrow> bool" where
  "diff_any d \<longleftrightarrow> added_domains d \<noteq> [] \<or> removed_domains d \<noteq> [] \<or> level_changed d \<noteq> [] \<or> budget_changed d \<noteq> [] \<or>
     reserve_changed d \<noteq> [] \<or> aggregate_changed d \<or> policy_changed d \<or> provider_health_changed d"

text \<open>The domains of \<open>b\<close> that \<open>a\<close> has too and for which \<open>P\<close> holds of both states.\<close>

definition common_where :: "(DomainState \<Rightarrow> DomainState \<Rightarrow> bool) \<Rightarrow> Snapshot \<Rightarrow> Snapshot \<Rightarrow> DomainState list" where
  "common_where P a b = filter (\<lambda>s. case find_domain (ds_id s) a of None \<Rightarrow> False | Some pa \<Rightarrow> P pa s) (sn_domains b)"

definition diff_snapshots :: "Snapshot \<Rightarrow> Snapshot \<Rightarrow> SnapshotDiff" where
  "diff_snapshots a b = \<lparr>
     added_domains = map ds_id (filter (\<lambda>s. find_domain (ds_id s) a = None) (sn_domains b)),
     removed_domains = map ds_id (filter (\<lambda>s. find_domain (ds_id s) b = None) (sn_domains a)),
     level_changed = map ds_id (common_where (\<lambda>pa s. ds_level pa \<noteq> ds_level s) a b),
     budget_changed = map (\<lambda>s. to_hex (ds_id s)) (common_where (\<lambda>pa s.
        hard_capacity (ds_budget pa) \<noteq> hard_capacity (ds_budget s) \<or>
        reserve_bytes (ds_budget pa) \<noteq> reserve_bytes (ds_budget s)) a b),
     reserve_changed = map ds_id (common_where (\<lambda>pa s.
        reserve_bytes (ds_budget pa) \<noteq> reserve_bytes (ds_budget s)) a b),
     aggregate_changed = (sn_aggregate_level a \<noteq> sn_aggregate_level b \<or>
        dne (sn_aggregate_score a) (sn_aggregate_score b)),
     policy_changed = (sn_policy_version a \<noteq> sn_policy_version b),
     provider_health_changed = (sn_provider_health a \<noteq> sn_provider_health b)\<rparr>"

section \<open>Lookup\<close>

lemma find_domain_Some: "find_domain i s = Some d \<Longrightarrow> d \<in> set (sn_domains s) \<and> ds_id d = i"
  by (auto simp: find_domain_def find_Some_iff)

lemma find_domain_None: "find_domain i s = None \<longleftrightarrow> i \<notin> ds_id ` set (sn_domains s)"
  by (auto simp: find_domain_def find_None_iff)

lemma find_domain_self:
  "distinct (map ds_id (sn_domains s)) \<Longrightarrow> d \<in> set (sn_domains s) \<Longrightarrow> find_domain (ds_id d) s = Some d"
proof -
  have "distinct (map ds_id ds) \<Longrightarrow> d \<in> set ds \<Longrightarrow> find (\<lambda>x. ds_id x = ds_id d) ds = Some d" for ds
    by (induction ds) (auto simp: image_iff)
  then show "distinct (map ds_id (sn_domains s)) \<Longrightarrow> d \<in> set (sn_domains s) \<Longrightarrow> ?thesis"
    by (simp add: find_domain_def)
qed

section \<open>What a difference reports\<close>

lemma common_where_self:
  assumes "distinct (map ds_id (sn_domains s))" "\<And>d. \<not> P d d" shows "common_where P s s = []"
  using find_domain_self [OF assms(1)] assms(2) by (auto simp: common_where_def filter_empty_conv)

text \<open>What the difference does not report has not changed: the summary of a snapshot that it compares.\<close>

definition material :: "Snapshot \<Rightarrow> PressureDomainId \<Rightarrow> (PressureLevel \<times> u64 \<times> u64) option" where
  "material s i = map_option (\<lambda>d. (ds_level d, hard_capacity (ds_budget d), reserve_bytes (ds_budget d))) (find_domain i s)"

text \<open>The difference is exact on snapshots without duplicate identities.\<close>

lemma diff_snapshots_exact:
  assumes "distinct (map ds_id (sn_domains a))" "distinct (map ds_id (sn_domains b))"
  shows "\<not> diff_any (diff_snapshots a b) \<longleftrightarrow>
    material a = material b \<and> sn_aggregate_level a = sn_aggregate_level b \<and>
    sn_aggregate_score a \<noteq> NaN \<and> sn_aggregate_score a = sn_aggregate_score b \<and>
    sn_policy_version a = sn_policy_version b \<and> sn_provider_health a = sn_provider_health b"
proof -
  have key: "material a = material b \<longleftrightarrow>
      (\<forall>d \<in> set (sn_domains b). find_domain (ds_id d) a \<noteq> None) \<and>
      (\<forall>d \<in> set (sn_domains a). find_domain (ds_id d) b \<noteq> None) \<and>
      (\<forall>d \<in> set (sn_domains b). \<forall>pa. find_domain (ds_id d) a = Some pa \<longrightarrow> ds_level pa = ds_level d \<and>
         hard_capacity (ds_budget pa) = hard_capacity (ds_budget d) \<and> reserve_bytes (ds_budget pa) = reserve_bytes (ds_budget d))"
    (is "_ \<longleftrightarrow> ?same")
  proof
    assume eq: "material a = material b"
    have "find_domain i a = None \<longleftrightarrow> find_domain i b = None" for i
      using fun_cong [OF eq, of i]
      by (cases "find_domain i a"; cases "find_domain i b") (simp_all add: material_def)
    moreover have "find_domain i b \<noteq> None" if "i \<in> ds_id ` set (sn_domains b)" for i
      using that by (simp add: find_domain_None)
    moreover have "find_domain i a \<noteq> None" if "i \<in> ds_id ` set (sn_domains a)" for i
      using that by (simp add: find_domain_None)
    moreover have "ds_level pa = ds_level d \<and> hard_capacity (ds_budget pa) = hard_capacity (ds_budget d) \<and>
        reserve_bytes (ds_budget pa) = reserve_bytes (ds_budget d)"
      if "d \<in> set (sn_domains b)" "find_domain (ds_id d) a = Some pa" for d pa
      using fun_cong [OF eq, of "ds_id d", unfolded material_def that(2) find_domain_self [OF assms(2) that(1)]] by simp
    ultimately show ?same by blast
  next
    assume same: ?same
    show "material a = material b"
    proof
      fix i
      show "material a i = material b i"
      proof (cases "find_domain i b")
        case None
        then have "find_domain i a = None" using same find_domain_Some [of i a] by (metis not_None_eq)
        with None show ?thesis by (simp add: material_def)
      next
        case (Some d)
        then have d: "d \<in> set (sn_domains b)" "ds_id d = i" using find_domain_Some by auto
        then obtain pa where "find_domain i a = Some pa" using same by (metis not_None_eq)
        with Some d same show ?thesis by (simp add: material_def)
      qed
    qed
  qed
  have c: "common_where P a b = [] \<longleftrightarrow>
      (\<forall>d \<in> set (sn_domains b). \<forall>pa. find_domain (ds_id d) a = Some pa \<longrightarrow> \<not> P pa d)" for P
    by (auto simp: common_where_def filter_empty_conv split: option.splits)
  show ?thesis
    unfolding key diff_any_def diff_snapshots_def
    by (simp add: c filter_empty_conv deq_def, intro iffI; elim conjE; simp)
qed

end
