(* ===== verification/Decimal.thy ===== *)
theory Decimal imports Doubles begin

text \<open>
  \<open>std::to_string\<close>: the decimal form of an unsigned integer, with its inverse, and the \<open>%f\<close> form of
  a double (the exact value rounded to six decimals, ties to even).
\<close>

definition dec_digit :: "nat \<Rightarrow> char" where
  "dec_digit n = char_of (48 + n)"

fun dec :: "nat \<Rightarrow> string" where
  "dec n = (if n < 10 then [dec_digit n] else dec (n div 10) @ [dec_digit (n mod 10)])"

declare dec.simps [simp del]

definition u64_to_string :: "u64 \<Rightarrow> string" where
  "u64_to_string w = dec (unat w)"

text \<open>The digits of the fraction, with leading zeros.\<close>

definition pad_left :: "nat \<Rightarrow> string \<Rightarrow> string" where
  "pad_left k s = replicate (k - length s) CHR ''0'' @ s"

definition micro_string :: "nat \<Rightarrow> string" where
  "micro_string m = dec (m div 1000000) @ ''.'' @ pad_left 6 (dec (m mod 1000000))"

fun double_to_string :: "double \<Rightarrow> string" where
  "double_to_string NaN = ''nan''"
| "double_to_string PosInf = ''inf''"
| "double_to_string NegInf = ''-inf''"
| "double_to_string (Fin r) =
    (if r < 0 then ''-'' else []) @ micro_string (nat (rne (\<bar>r\<bar> * 1000000)))"

section \<open>Reading the decimal form back\<close>

definition digit_value :: "char \<Rightarrow> nat option" where
  "digit_value c = (let n = of_char c :: nat in if 48 \<le> n \<and> n \<le> 57 then Some (n - 48) else None)"

definition undec :: "string \<Rightarrow> nat option" where
  "undec s = (if s = [] then None else
     fold (\<lambda>c acc. case (acc, digit_value c) of (Some v, Some d) \<Rightarrow> Some (10 * v + d) | _ \<Rightarrow> None) s (Some 0))"

lemma digit_value_dec_digit: "n < 10 \<Longrightarrow> digit_value (dec_digit n) = Some n"
  by (simp add: digit_value_def dec_digit_def)

lemma dec_not_Nil [simp]: "dec n \<noteq> []"
  by (subst dec.simps) simp

lemma undec_dec: "undec (dec n) = Some n"
proof (induction n rule: dec.induct)
  case (1 n)
  show ?case
  proof (cases "n < 10")
    case True
    then show ?thesis by (simp add: dec.simps [of n] undec_def digit_value_dec_digit)
  next
    case False
    then show ?thesis using 1 by (subst dec.simps) (simp add: undec_def digit_value_dec_digit)
  qed
qed

interpretation dec_codec: codec dec undec "\<lambda>_. True"
  by unfold_locales (rule undec_dec)

lemma u64_to_string_inject: "u64_to_string a = u64_to_string b \<longleftrightarrow> a = b"
  by (simp add: u64_to_string_def dec_codec.enc_inject word_unat_eq_iff)

end
