(* ===== verification/Responses.thy ===== *)
theory Responses imports Snapshots Decimal begin

text \<open>
  response.h, the helper functions of runtime.cpp, and the queries that the runtime answers from a
  snapshot: admission, backpressure, the recommended response with its relief request, and the
  explanation. The counters that \<open>admit\<close> bumps are in the theory \<open>Runtime\<close>.
\<close>

section \<open>Signals\<close>

record Backpressure =
  bp_target :: PressureDomainId
  bp_severity :: PressureLevel
  bp_reason :: string
  bp_recommended_response :: ResponseAction
  bp_max_new_allocation :: u64
  bp_admission_reduction :: double
  bp_defer_duration_ms :: u64
  bp_generation :: u64
  bp_issued_at_ms :: u64
  bp_expiry_ms :: u64
  bp_confidence :: Confidence
  bp_target_role :: TierRole

definition Backpressure_init :: Backpressure where
  "Backpressure_init = \<lparr>bp_target = DomainId 0 0, bp_severity = PL_Unknown, bp_reason = [],
     bp_recommended_response = RA_None, bp_max_new_allocation = 0, bp_admission_reduction = Fin 0,
     bp_defer_duration_ms = 0, bp_generation = 0, bp_issued_at_ms = 0, bp_expiry_ms = 0,
     bp_confidence = Conf_Unknown, bp_target_role = TR_Root\<rparr>"

record AdmissionHint =
  ah_decision :: AdmissionDecision
  ah_explanation :: string
  ah_requested_bytes :: u64
  ah_safe_bytes :: u64
  ah_domain_level :: PressureLevel
  ah_reserve_available :: bool

definition AdmissionHint_init :: AdmissionHint where
  "AdmissionHint_init = \<lparr>ah_decision = Adm_Reject, ah_explanation = [], ah_requested_bytes = 0,
     ah_safe_bytes = 0, ah_domain_level = PL_Unknown, ah_reserve_available = False\<rparr>"

datatype ReliefKind = Relief_Reclaim | Relief_Demotion

fun ReliefKind_to_string :: "ReliefKind \<Rightarrow> string" where
  "ReliefKind_to_string Relief_Reclaim = ''RECLAIM''"
| "ReliefKind_to_string Relief_Demotion = ''DEMOTION''"

record ReliefRequest =
  rr_kind :: ReliefKind
  rr_domain :: PressureDomainId
  rr_target_bytes :: u64
  rr_urgency :: PressureLevel
  rr_generation :: u64
  rr_reason :: string
  rr_minimum_useful_relief :: u64
  rr_preferred_tier :: "DomainType option"
  rr_deadline_us :: u64
  rr_confidence :: Confidence

definition ReliefRequest_init :: ReliefRequest where
  "ReliefRequest_init = \<lparr>rr_kind = Relief_Reclaim, rr_domain = DomainId 0 0, rr_target_bytes = 0,
     rr_urgency = PL_Unknown, rr_generation = 0, rr_reason = [], rr_minimum_useful_relief = 0,
     rr_preferred_tier = None, rr_deadline_us = 0, rr_confidence = Conf_Unknown\<rparr>"

definition is_reclaim :: "ReliefRequest \<Rightarrow> bool" where
  "is_reclaim r \<longleftrightarrow> rr_kind r = Relief_Reclaim"

definition is_demotion :: "ReliefRequest \<Rightarrow> bool" where
  "is_demotion r \<longleftrightarrow> rr_kind r = Relief_Demotion"

record DomainResponse =
  dr_domain :: PressureDomainId
  dr_level :: PressureLevel
  dr_actions :: "ResponseAction list"
  dr_explanation :: string
  dr_relief :: "ReliefRequest option"

definition DomainResponse_init :: DomainResponse where
  "DomainResponse_init = \<lparr>dr_domain = DomainId 0 0, dr_level = PL_Unknown, dr_actions = [],
     dr_explanation = [], dr_relief = None\<rparr>"

section \<open>Helper functions of the runtime\<close>

definition utilization_for :: "u64 \<Rightarrow> u64 \<Rightarrow> double" where
  "utilization_for committed usable = (if usable = 0 then Fin 0 else ddiv (of_u64 committed) (of_u64 usable))"

definition is_accelerator :: "DomainType \<Rightarrow> bool" where
  "is_accelerator t \<longleftrightarrow> t = DT_AcceleratorMemory"

definition is_hostlike :: "DomainType \<Rightarrow> bool" where
  "is_hostlike t \<longleftrightarrow> t = DT_HostMemory \<or> t = DT_PinnedHostMemory \<or> t = DT_SharedHostMemory \<or>
     t = DT_ProcessCommit \<or> t = DT_SystemCommit"

definition role_for :: "DomainType \<Rightarrow> TierRole" where
  "role_for t =
    (if is_accelerator t then TR_Accelerator
     else if t = DT_HostMemory \<or> t = DT_SystemCommit \<or> t = DT_ProcessCommit then TR_Root
     else if t = DT_PinnedHostMemory \<or> t = DT_SharedHostMemory then TR_Staging
     else if t = DT_PersistentStorageCapacity \<or> t = DT_FileBackedMemory then TR_Persistent
     else TR_Custom)"

fun relief_bytes_for :: "PressureLevel \<Rightarrow> Budget \<Rightarrow> u64" where
  "relief_bytes_for PL_High b =
     (if reclaim_target b \<noteq> 0 then reclaim_target b
      else if hard_capacity b \<noteq> 0 then hard_capacity b div 8 else 0)"
| "relief_bytes_for PL_Critical b =
     (if reclaim_target b \<noteq> 0 then reclaim_target b + demotion_target b
      else if hard_capacity b \<noteq> 0 then hard_capacity b div 4 else 0)"
| "relief_bytes_for PL_Exhausted b =
     (if demotion_target b \<noteq> 0 then demotion_target b
      else if hard_capacity b \<noteq> 0 then hard_capacity b div 2 else 0)"
| "relief_bytes_for level b = 0"

definition build_explanation :: "DomainState \<Rightarrow> string" where
  "build_explanation d =
     DomainType_to_string (ds_type d) @ '' is '' @ PressureLevel_to_string (ds_level d) @
     '' because governed capacity='' @ u64_to_string (ds_total_capacity d) @
     '' committed='' @ u64_to_string (ds_committed d) @
     '' available='' @ u64_to_string (ds_available d) @
     '' reserved='' @ u64_to_string (ds_reserved_bytes d) @
     '' utilization='' @ double_to_string (ds_utilization d) @
     '' score='' @ double_to_string (ds_score d) @
     '' trend='' @ TrendDirection_to_string (ds_trend d)"

fun initial_actions :: "PressureLevel \<Rightarrow> ResponseAction list" where
  "initial_actions PL_Normal = [RA_None]"
| "initial_actions PL_Elevated = [RA_Warn]"
| "initial_actions PL_High = [RA_Warn, RA_RequestReclaim]"
| "initial_actions PL_Critical = [RA_RequestDemotion, RA_RequestReclaim, RA_ReduceAdmission, RA_Throttle]"
| "initial_actions PL_Exhausted = [RA_EmergencyStopGrowth, RA_RejectNewWork, RA_RequestDemotion, RA_RequestReclaim]"
| "initial_actions PL_Unknown = [RA_None]"

section \<open>Queries on a snapshot\<close>

text \<open>The decision and the explanation of \<open>admit\<close> for a domain that the snapshot has.\<close>

fun admission_for :: "PressureLevel \<Rightarrow> u64 \<Rightarrow> u64 \<Rightarrow> AdmissionDecision \<times> string" where
  "admission_for PL_Normal bytes avail =
     (if bytes \<le> avail then Adm_Accept else Adm_Defer,
      ''domain NORMAL; request '' @ u64_to_string bytes @ '' vs available '' @ u64_to_string avail)"
| "admission_for PL_Elevated bytes avail =
     (if bytes \<le> avail div 2 then Adm_AcceptWithCaution else Adm_Defer,
      ''domain ELEVATED; only cautious admission'')"
| "admission_for PL_High bytes avail =
     (if bytes \<le> avail div 4 then Adm_AcceptWithCaution else Adm_Defer,
      ''domain HIGH; defer unless the request is small and headroom exists'')"
| "admission_for PL_Critical bytes avail = (Adm_Reject, ''domain CRITICAL; reject new work'')"
| "admission_for PL_Exhausted bytes avail = (Adm_Reject, ''domain EXHAUSTED; reject new work'')"
| "admission_for PL_Unknown bytes avail = (Adm_Defer, ''domain UNKNOWN; defer'')"

text \<open>The hint, and whether the counters are bumped (the early return for an unknown domain skips them).\<close>

definition admit_hint :: "PressureDomainId \<Rightarrow> u64 \<Rightarrow> Snapshot \<Rightarrow> AdmissionHint \<times> bool" where
  "admit_hint i bytes snap =
    (let h = AdmissionHint_init\<lparr>ah_requested_bytes := bytes\<rparr> in
     case find_domain i snap of
       None \<Rightarrow> (h\<lparr>ah_decision := Adm_Defer, ah_explanation := ''domain unknown''\<rparr>, False)
     | Some ds \<Rightarrow>
         let (decision, explanation) = admission_for (ds_level ds) bytes (ds_available ds)
         in (h\<lparr>ah_domain_level := ds_level ds, ah_safe_bytes := ds_available ds,
               ah_reserve_available := (admission_headroom (ds_budget ds) \<le> ds_available ds),
               ah_decision := decision, ah_explanation := explanation\<rparr>, True))"

definition backpressure :: "PressureDomainId \<Rightarrow> Snapshot \<Rightarrow> Backpressure" where
  "backpressure i snap =
    (let bp = Backpressure_init\<lparr>bp_target := i\<rparr> in
     case find_domain i snap of
       None \<Rightarrow> bp
     | Some ds \<Rightarrow> bp\<lparr>
         bp_severity := ds_level ds,
         bp_confidence := ds_confidence ds,
         bp_generation := sn_generation snap,
         bp_issued_at_ms := sn_timestamp_ms snap,
         bp_expiry_ms := ds_timestamp_ms ds + 10 * 1000,
         bp_target_role := role_for (ds_type ds),
         bp_reason := DomainType_to_string (ds_type ds) @ '' '' @ PressureLevel_to_string (ds_level ds),
         bp_recommended_response := (case ds_responses ds of [] \<Rightarrow> RA_None | a # _ \<Rightarrow> a),
         bp_max_new_allocation := (if ds_governed ds then (if ds_available ds > 0 then ds_available ds div 4 else 0)
                                   else ds_available ds div 4),
         bp_admission_reduction := (if ds_level ds = PL_High then Fin (1/2)
                                    else if ds_level ds = PL_Critical then fl (8/10)
                                    else if ds_level ds = PL_Exhausted then Fin 1 else Fin 0)\<rparr>)"

text \<open>One turn of the loop of \<open>response_for\<close> over the responses of the domain.\<close>

definition relief_step :: "PressureDomainId \<Rightarrow> Snapshot \<Rightarrow> DomainState \<Rightarrow> ResponseAction \<Rightarrow> ReliefRequest option \<Rightarrow> ReliefRequest option" where
  "relief_step i snap ds a relief =
    (let target = relief_bytes_for (ds_level ds) (ds_budget ds);
         r = ReliefRequest_init\<lparr>rr_domain := i, rr_urgency := ds_level ds, rr_generation := sn_generation snap,
               rr_target_bytes := target\<rparr> in
     if a = RA_RequestReclaim then
       Some (r\<lparr>rr_kind := Relief_Reclaim,
         rr_minimum_useful_relief := min (if target \<noteq> 0 then target div 2 else 0) (max 1 (ds_committed ds div 2)),
         rr_reason := ''reclaim '' @ u64_to_string target @ '' bytes''\<rparr>)
     else if a = RA_RequestDemotion then
       Some (r\<lparr>rr_kind := Relief_Demotion,
         rr_reason := ''demote '' @ u64_to_string target @ '' bytes'',
         rr_preferred_tier := Some DT_PinnedHostMemory\<rparr>)
     else relief)"

definition response_for :: "PressureDomainId \<Rightarrow> Snapshot \<Rightarrow> DomainResponse" where
  "response_for i snap =
    (let dr = DomainResponse_init\<lparr>dr_domain := i\<rparr> in
     case find_domain i snap of
       None \<Rightarrow> dr
     | Some ds \<Rightarrow> dr\<lparr>dr_level := ds_level ds, dr_actions := ds_responses ds, dr_explanation := ds_explanation ds,
         dr_relief := fold (relief_step i snap ds) (ds_responses ds) None\<rparr>)"

definition explain :: "PressureDomainId \<Rightarrow> Snapshot \<Rightarrow> string" where
  "explain i snap = (case find_domain i snap of None \<Rightarrow> ''domain not present'' | Some ds \<Rightarrow> ds_explanation ds)"

section \<open>Admission is safe\<close>

definition admitted :: "AdmissionDecision \<Rightarrow> bool" where
  "admitted d \<longleftrightarrow> d = Adm_Accept \<or> d = Adm_AcceptWithCaution"

lemma admission_for_safe:
  "admitted (fst (admission_for l bytes avail)) \<Longrightarrow> bytes \<le> avail \<and> sev l < 3 \<and> l \<noteq> PL_Unknown"
  using u64_div_le [of avail 2] u64_div_le [of avail 4] by (cases l) (auto simp: admitted_def split: if_splits)

lemma u64_div4_le_div2: "(a::u64) div 4 \<le> a div 2"
  by (simp add: word_le_nat_alt unat_div div_le_mono2)

lemma admission_for_mono:
  assumes "admitted (fst (admission_for l bytes avail))" "bytes' \<le> bytes" "avail \<le> avail'" "sev l' \<le> sev l" "l' \<noteq> PL_Unknown"
  shows "admitted (fst (admission_for l' bytes' avail'))"
proof -
  have d: "avail div 2 \<le> avail' div 2" "avail div 4 \<le> avail' div 4"
    using assms(3) by (simp_all add: word_le_nat_alt unat_div div_le_mono)
  note le = assms(2) d u64_div4_le_div2 [of avail'] u64_div_le [of avail' 2] assms(3)
  show ?thesis
    using assms(1,4,5) le by (cases l; cases l') (auto simp: admitted_def split: if_splits)
qed

text \<open>
  C23. Admission is safe and monotone. A request is admitted only if the snapshot has the domain, at a known level below
  CRITICAL, and its bytes fit in what is available; and whatever is admitted stays
  admitted for a smaller request, with more available bytes, or at a lower (known) level.
\<close>

theorem admission_safe_monotone:
  assumes "admitted (ah_decision (fst (admit_hint i bytes snap)))"
  shows "\<exists>ds. find_domain i snap = Some ds \<and> bytes \<le> ds_available ds \<and> is_known_level (ds_level ds) \<and> sev (ds_level ds) < 3 \<and>
    (\<forall>ds' snap' bytes'. find_domain i snap' = Some ds' \<longrightarrow> bytes' \<le> bytes \<longrightarrow> ds_available ds \<le> ds_available ds' \<longrightarrow>
      is_known_level (ds_level ds') \<longrightarrow> sev (ds_level ds') \<le> sev (ds_level ds) \<longrightarrow>
      admitted (ah_decision (fst (admit_hint i bytes' snap'))))"
proof (cases "find_domain i snap")
  case None
  then show ?thesis using assms by (simp add: admit_hint_def admitted_def Let_def)
next
  case (Some ds)
  have dec: "ah_decision (fst (admit_hint i b s)) = fst (admission_for (ds_level d) b (ds_available d))"
    if "find_domain i s = Some d" for b s d
    using that by (simp add: admit_hint_def Let_def split_beta)
  have known: "is_known_level l \<longleftrightarrow> l \<noteq> PL_Unknown" for l by (cases l) (simp_all add: is_known_level_def)
  have adm: "admitted (fst (admission_for (ds_level ds) bytes (ds_available ds)))"
    using assms dec [OF Some] by simp
  show ?thesis
    using admission_for_safe [OF adm] admission_for_mono [OF adm] Some dec known by auto
qed

definition sample_snapshot :: "PressureLevel \<Rightarrow> u64 \<Rightarrow> Snapshot" where
  "sample_snapshot l avail = Snapshot_init\<lparr>sn_domains :=
     [DomainState_init\<lparr>ds_id := DomainId 1 2, ds_level := l, ds_available := avail, ds_responses := initial_actions l\<rparr>]\<rparr>"

lemma find_sample_snapshot: "find_domain (DomainId 1 2) (sample_snapshot l a) =
    Some (DomainState_init\<lparr>ds_id := DomainId 1 2, ds_level := l, ds_available := a, ds_responses := initial_actions l\<rparr>)"
  by (simp add: sample_snapshot_def find_domain_def)

lemma admission_safe_monotone_witness:
  "(100::u64) \<le> 1000 \<and> admitted (ah_decision (fst (admit_hint (DomainId 1 2) 50 (sample_snapshot PL_Normal 60))))"
proof -
  have "admitted (ah_decision (fst (admit_hint (DomainId 1 2) 100 (sample_snapshot PL_Elevated 1000))))"
    by (simp add: admit_hint_def find_sample_snapshot admitted_def word_le_nat_alt unat_div)
  from admission_safe_monotone [OF this]
  have le: "(100::u64) \<le> 1000" by (auto simp: find_sample_snapshot)
  have "admitted (ah_decision (fst (admit_hint (DomainId 1 2) 50 (sample_snapshot PL_Elevated 1000))))"
    by (simp add: admit_hint_def find_sample_snapshot admitted_def word_le_nat_alt unat_div)
  then show ?thesis using le by (simp add: admit_hint_def find_sample_snapshot admitted_def word_le_nat_alt)
qed

section \<open>Relief targets\<close>

text \<open>The relief of a response is the one of the last request in the list.\<close>

definition relief_kind_of :: "ResponseAction list \<Rightarrow> ReliefKind option" where
  "relief_kind_of acts = fold (\<lambda>a k. if a = RA_RequestReclaim then Some Relief_Reclaim
     else if a = RA_RequestDemotion then Some Relief_Demotion else k) acts None"

lemma relief_kind_fold: "map_option rr_kind (fold (relief_step i snap ds) acts r) =
    fold (\<lambda>a k. if a = RA_RequestReclaim then Some Relief_Reclaim
     else if a = RA_RequestDemotion then Some Relief_Demotion else k) acts (map_option rr_kind r)"
proof (induction acts arbitrary: r)
  case (Cons a acts)
  have "map_option rr_kind (relief_step i snap ds a r) = (if a = RA_RequestReclaim then Some Relief_Reclaim
     else if a = RA_RequestDemotion then Some Relief_Demotion else map_option rr_kind r)"
    by (simp add: relief_step_def Let_def)
  then show ?case using Cons.IH [of "relief_step i snap ds a r"] by simp
qed simp

lemma response_relief_kind:
  "find_domain i snap = Some ds \<Longrightarrow> map_option rr_kind (dr_relief (response_for i snap)) = relief_kind_of (ds_responses ds)"
  using relief_kind_fold [of i snap ds "ds_responses ds" None] by (simp add: response_for_def relief_kind_of_def Let_def)

text \<open>
  Without configured targets, the relief that is asked for grows with the level and stays within the hard capacity.
\<close>

lemma relief_grows_by_default:
  assumes "reclaim_target b = 0" "demotion_target b = 0" "sev l \<le> sev l'"
  shows "relief_bytes_for l b \<le> relief_bytes_for l' b \<and> relief_bytes_for l' b \<le> hard_capacity b"
proof -
  have "hard_capacity b div 8 \<le> hard_capacity b div 4" "hard_capacity b div 4 \<le> hard_capacity b div 2"
    "hard_capacity b div 8 \<le> hard_capacity b div 2"
    by (simp_all add: word_le_nat_alt unat_div div_le_mono2)
  then show ?thesis using assms u64_div_le [of "hard_capacity b"]
    by (cases l; cases l') auto
qed

lemma relief_grows_by_default_witness:
  "relief_bytes_for PL_High sample_budget \<le> relief_bytes_for PL_Exhausted sample_budget \<and>
   relief_bytes_for PL_Exhausted sample_budget \<le> hard_capacity sample_budget"
  by (rule relief_grows_by_default) (simp_all add: sample_budget_def Budget_init_def)

text \<open>
  With configured targets it need not: the validator accepts targets under which the request at EXHAUSTED
  is smaller than the one at CRITICAL, and targets whose sum at CRITICAL exceeds the hard capacity.
\<close>

theorem relief_shrinks:
  "let b = Budget_init\<lparr>hard_capacity := 1000, reclaim_target := 800, demotion_target := 300\<rparr>
   in validate_budget b = None \<and> relief_bytes_for PL_Exhausted b < relief_bytes_for PL_Critical b \<and>
      hard_capacity b < relief_bytes_for PL_Critical b"
  by (simp add: Let_def Budget_init_def validate_budget_def reserve_bytes_def word_less_nat_alt)

end
