(* ===== verification/Runtime.thy ===== *)
theory Runtime imports Scoring Hysteresis Trends Events Responses begin

text \<open>
  runtime.h and runtime.cpp: the class \<open>PressureRuntime\<close>. Its mutexes make every member function an
  atomic step on the state; \<open>refresh\<close> is modelled stage by stage on a record \<open>Cycle\<close> of the local
  variables and of the members that it updates.

  What is not under src/ is a parameter of \<open>refresh\<close>, the record \<open>World\<close>: the order in which the
  hash table of the providers iterates, what each registered provider answers (a sample, or the \<open>what\<close>
  of an exception), and the measured latency. A provider is identified by its name, which is also its key
  in the registry.
\<close>

section \<open>State\<close>

record RuntimeStats =
  st_observations :: u64
  st_snapshots :: u64
  st_pressure_transitions :: u64
  st_provider_failures :: u64
  st_stale_observations :: u64
  st_admission_accept :: u64
  st_admission_caution :: u64
  st_admission_defer :: u64
  st_admission_reject :: u64
  st_backpressure_signals :: u64
  st_reclaim_requests :: u64
  st_demotion_requests :: u64
  st_event_dropped :: u64
  st_policy_changes :: u64
  st_generation_changes :: u64
  st_refresh_latency_us :: u64
  st_query_count :: u64

definition RuntimeStats_init :: RuntimeStats where
  "RuntimeStats_init = \<lparr>st_observations = 0, st_snapshots = 0, st_pressure_transitions = 0, st_provider_failures = 0,
     st_stale_observations = 0, st_admission_accept = 0, st_admission_caution = 0, st_admission_defer = 0,
     st_admission_reject = 0, st_backpressure_signals = 0, st_reclaim_requests = 0, st_demotion_requests = 0,
     st_event_dropped = 0, st_policy_changes = 0, st_generation_changes = 0, st_refresh_latency_us = 0,
     st_query_count = 0\<rparr>"

record DomainRuntimeState =
  drs_type :: DomainType
  drs_provider :: string
  drs_native_resource_id :: string
  drs_budget :: Budget
  drs_governed :: bool
  drs_entered_level_at_ms :: u64
  drs_peak_level_rank :: u64
  drs_hysteresis :: HysteresisState
  drs_trend :: TrendEstimator

definition DomainRuntimeState_new :: "HysteresisConfig \<Rightarrow> nat \<Rightarrow> DomainRuntimeState" where
  "DomainRuntimeState_new cfg win = \<lparr>drs_type = DT_Unknown, drs_provider = [], drs_native_resource_id = [],
     drs_budget = Budget_init, drs_governed = False, drs_entered_level_at_ms = 0, drs_peak_level_rank = 0,
     drs_hysteresis = HysteresisState_new cfg, drs_trend = TrendEstimator_new win (60 * 1000)\<rparr>"

record PressureRuntime =
  rt_policy :: PressurePolicy
  rt_current_snapshot :: Snapshot
  rt_budgets :: "PressureDomainId \<rightharpoonup> Budget"
  rt_providers :: "PressureDomainId \<rightharpoonup> string"
  rt_domain_states :: "PressureDomainId \<rightharpoonup> DomainRuntimeState"
  rt_provider_health :: "(string \<times> ProviderStatus) list"
  rt_subscriptions :: "Subscription list"
  rt_history :: "Snapshot list"
  rt_history_limit :: nat
  rt_generation :: u64
  rt_snapshot_id :: u64
  rt_event_id :: u64
  rt_stats :: RuntimeStats

definition PressureRuntime_new :: PressureRuntime where
  "PressureRuntime_new = \<lparr>rt_policy = default_policy, rt_current_snapshot = Snapshot_init,
     rt_budgets = Map.empty, rt_providers = Map.empty, rt_domain_states = Map.empty, rt_provider_health = [],
     rt_subscriptions = [], rt_history = [], rt_history_limit = 64, rt_generation = 0, rt_snapshot_id = 0,
     rt_event_id = 0, rt_stats = RuntimeStats_init\<rparr>"

record ProviderSample =
  sample_status :: ProviderStatus
  sample_observations :: "DomainObservation list"
  sample_error :: string
  sampled_at_ms :: u64

record World =
  w_order :: "PressureDomainId list"
  w_sample :: "string \<Rightarrow> string + ProviderSample"
  w_latency_us :: u64

section \<open>Configuration\<close>

definition set_policy :: "PressurePolicy \<Rightarrow> PressureRuntime \<Rightarrow> string option \<times> PressureRuntime" where
  "set_policy p rt =
    (case validate_policy p of
       Some err \<Rightarrow> (Some err, rt)
     | None \<Rightarrow>
         (None, rt\<lparr>
           rt_domain_states := (\<lambda>i. map_option (\<lambda>st. st\<lparr>drs_hysteresis := HysteresisState_new (hysteresis p)\<rparr>)
              (rt_domain_states rt i)),
           rt_policy := p,
           rt_stats := (rt_stats rt)\<lparr>st_policy_changes := st_policy_changes (rt_stats rt) + 1\<rparr>\<rparr>))"

definition provider_key :: "string \<Rightarrow> PressureDomainId" where
  "provider_key name = DomainId 0x70726F76 (fnv1a (''provider::'' @ name))"

text \<open>A null pointer is ignored.\<close>

definition register_provider :: "string option \<Rightarrow> PressureRuntime \<Rightarrow> PressureRuntime" where
  "register_provider p rt = (case p of None \<Rightarrow> rt
     | Some name \<Rightarrow> rt\<lparr>rt_providers := (rt_providers rt)(provider_key name \<mapsto> name)\<rparr>)"

definition set_budget :: "PressureDomainId \<Rightarrow> Budget \<Rightarrow> PressureRuntime \<Rightarrow> string option \<times> PressureRuntime" where
  "set_budget i b rt =
    (case validate_budget b of
       Some err \<Rightarrow> (Some err, rt)
     | None \<Rightarrow> (None, rt\<lparr>rt_budgets := (rt_budgets rt)(i \<mapsto> b)\<rparr>))"

definition clear_budget :: "PressureDomainId \<Rightarrow> PressureRuntime \<Rightarrow> PressureRuntime" where
  "clear_budget i rt = rt\<lparr>rt_budgets := (rt_budgets rt)(i := None)\<rparr>"

text \<open>The handle of a subscription is its index.\<close>

definition subscribe :: "SubscriptionFilter \<Rightarrow> bool \<Rightarrow> PressureRuntime \<Rightarrow> nat \<times> PressureRuntime" where
  "subscribe flt cb rt = (length (rt_subscriptions rt),
     rt\<lparr>rt_subscriptions := rt_subscriptions rt @ [Subscription_new flt 256 DropOldest cb]\<rparr>)"

definition update_subscription :: "nat \<Rightarrow> (Subscription \<Rightarrow> Subscription) \<Rightarrow> PressureRuntime \<Rightarrow> PressureRuntime" where
  "update_subscription k f rt = (if k < length (rt_subscriptions rt)
     then rt\<lparr>rt_subscriptions := (rt_subscriptions rt)[k := f (rt_subscriptions rt ! k)]\<rparr> else rt)"

definition close_subscription :: "nat \<Rightarrow> PressureRuntime \<Rightarrow> PressureRuntime" where
  "close_subscription k = update_subscription k sub_close"

definition set_history_limit :: "nat \<Rightarrow> PressureRuntime \<Rightarrow> PressureRuntime" where
  "set_history_limit n rt = rt\<lparr>rt_history_limit := n\<rparr>"

text \<open>The destructor.\<close>

definition close_all :: "PressureRuntime \<Rightarrow> PressureRuntime" where
  "close_all rt = rt\<lparr>rt_subscriptions := map sub_close (rt_subscriptions rt)\<rparr>"

definition snapshot_by_id :: "u64 \<Rightarrow> PressureRuntime \<Rightarrow> Snapshot option" where
  "snapshot_by_id i rt = find (\<lambda>s. sn_id s = i) (rt_history rt)"

text \<open>\<open>admit\<close>: the hint from the current snapshot, and the counter of the decision.\<close>

definition admit :: "PressureDomainId \<Rightarrow> u64 \<Rightarrow> PressureRuntime \<Rightarrow> AdmissionHint \<times> PressureRuntime" where
  "admit i bytes rt =
    (let (h, counted) = admit_hint i bytes (rt_current_snapshot rt); st = rt_stats rt;
         st' = (case ah_decision h of
             Adm_Accept \<Rightarrow> st\<lparr>st_admission_accept := st_admission_accept st + 1\<rparr>
           | Adm_AcceptWithCaution \<Rightarrow> st\<lparr>st_admission_caution := st_admission_caution st + 1\<rparr>
           | Adm_Defer \<Rightarrow> st\<lparr>st_admission_defer := st_admission_defer st + 1\<rparr>
           | Adm_Reject \<Rightarrow> st\<lparr>st_admission_reject := st_admission_reject st + 1\<rparr>)
     in (h, if counted then rt\<lparr>rt_stats := st'\<rparr> else rt))"

section \<open>The refresh cycle: its local state\<close>

record Cycle =
  cy_event_id :: u64
  cy_events :: "PressureEvent list"
  cy_stats :: RuntimeStats
  cy_health :: "(string \<times> ProviderStatus) list"
  cy_warnings :: "string list"
  cy_partial :: bool
  cy_stale :: bool
  cy_all :: "(string \<times> DomainObservation list) list"
  cy_states :: "PressureDomainId \<rightharpoonup> DomainRuntimeState"
  cy_domains :: "DomainState list"
  cy_observed :: "PressureDomainId list"
  cy_obs_count :: u64

definition make_pressure_event ::
  "u64 \<Rightarrow> PressureEventType \<Rightarrow> u64 \<Rightarrow> u64 \<Rightarrow> PressureDomainId option \<Rightarrow> string \<Rightarrow> u32 \<Rightarrow> PressureEvent \<times> u64" where
  "make_pressure_event next_id type generation now domain detail rank =
    (let next_id = next_id + 1 in
     (\<lparr>ev_id = next_id, ev_type = type, ev_generation = generation, ev_timestamp_ms = now, ev_domain = domain,
       ev_detail = detail, ev_severity_rank = rank\<rparr>, next_id))"

text \<open>\<open>pending_events.push_back(make_pressure_event(event_id_, ...))\<close>.\<close>

definition emit ::
  "PressureEventType \<Rightarrow> u64 \<Rightarrow> u64 \<Rightarrow> PressureDomainId option \<Rightarrow> string \<Rightarrow> u32 \<Rightarrow> Cycle \<Rightarrow> Cycle" where
  "emit type generation now domain detail rank cy =
    (case make_pressure_event (cy_event_id cy) type generation now domain detail rank of
       (e, next_id) \<Rightarrow> cy\<lparr>cy_events := cy_events cy @ [e], cy_event_id := next_id\<rparr>)"

definition bump :: "(RuntimeStats \<Rightarrow> RuntimeStats) \<Rightarrow> Cycle \<Rightarrow> Cycle" where
  "bump f cy = cy\<lparr>cy_stats := f (cy_stats cy)\<rparr>"

definition warn :: "string \<Rightarrow> Cycle \<Rightarrow> Cycle" where
  "warn msg cy = cy\<lparr>cy_warnings := cy_warnings cy @ [msg]\<rparr>"

text \<open>The severity of a level as the events carry it.\<close>

definition sev32 :: "PressureLevel \<Rightarrow> u32" where
  "sev32 l = of_nat (sev l)"

definition sev64 :: "PressureLevel \<Rightarrow> u64" where
  "sev64 l = of_nat (sev l)"

end
