(* ===== verification/Refresh.thy ===== *)
theory Refresh imports Runtime begin

text \<open>
  \<open>PressureRuntime::refresh\<close> of runtime.cpp, one definition per stage in the order of the code: polling the
  providers, interpreting the observations, keeping or removing the unobserved domains, announcing the
  added ones, the cross-tier response policy, the aggregate, the generation, the transition and response
  events, publication and dispatch.
\<close>

section \<open>Polling the providers\<close>

text \<open>The body of the loop over the providers, with both arms of the \<open>try\<close>.\<close>

definition poll_provider :: "u64 \<Rightarrow> string \<Rightarrow> string + ProviderSample \<Rightarrow> Cycle \<Rightarrow> Cycle" where
  "poll_provider now name outcome cy =
    (case outcome of
       Inl what \<Rightarrow>
         let cy = cy\<lparr>cy_health := sm_assign name PS_Failed (cy_health cy)\<rparr>;
             cy = bump (\<lambda>st. st\<lparr>st_provider_failures := st_provider_failures st + 1\<rparr>) cy;
             cy = warn (name @ '' threw: '' @ what) cy
         in cy\<lparr>cy_partial := True\<rparr>
     | Inr sample \<Rightarrow>
         let ps = sample_status sample;
             cy = (case ps of
                 PS_Failed \<Rightarrow>
                   let cy = bump (\<lambda>st. st\<lparr>st_provider_failures := st_provider_failures st + 1\<rparr>) cy;
                       cy = emit Ev_ProviderFailed 0 now None (name @ '' failed: '' @ sample_error sample) 0 cy;
                       cy = warn (name @ '' failed: '' @ sample_error sample) cy
                   in cy\<lparr>cy_partial := True\<rparr>
               | PS_Stale \<Rightarrow>
                   let cy = emit Ev_ProviderStale 0 now None (name @ '' is stale'') 0 cy;
                       cy = cy\<lparr>cy_stale := True\<rparr>
                   in warn (name @ '' stale'') cy
               | PS_Unavailable \<Rightarrow>
                   let cy = emit Ev_ProviderFailed 0 now None (name @ '' unavailable'') 0 cy
                   in cy\<lparr>cy_partial := True\<rparr>
               | PS_Partial \<Rightarrow> cy\<lparr>cy_partial := True\<rparr>
               | PS_Healthy \<Rightarrow> cy)
         in cy\<lparr>cy_health := sm_assign name ps (cy_health cy),
               cy_all := cy_all cy @ [(name, sample_observations sample)]\<rparr>)"

section \<open>Interpreting an observation\<close>

text \<open>The runtime state of the domain, created on first sight, with the fields that are filled once.\<close>

definition touch_domain :: "PressurePolicy \<Rightarrow> DomainObservation \<Rightarrow> (PressureDomainId \<rightharpoonup> DomainRuntimeState) \<Rightarrow> DomainRuntimeState" where
  "touch_domain pol obs states =
    (let st = (case states (obs_id obs) of Some st \<Rightarrow> st | None \<Rightarrow> DomainRuntimeState_new (hysteresis pol) 16);
         st = (if drs_type st = DT_Unknown then st\<lparr>drs_type := obs_type obs\<rparr> else st);
         st = (if drs_provider st = [] then st\<lparr>drs_provider := obs_provider obs\<rparr> else st)
     in if drs_native_resource_id st = [] then st\<lparr>drs_native_resource_id := obs_native_resource_id obs\<rparr> else st)"

text \<open>The governing budget and whether it governs.\<close>

definition governing_budget :: "(PressureDomainId \<rightharpoonup> Budget) \<Rightarrow> PressureDomainId \<Rightarrow> Budget \<times> bool" where
  "governing_budget bm i =
    (case bm i of Some b \<Rightarrow> if hard_capacity b \<noteq> 0 then (b, True) else (default_budget, False)
     | None \<Rightarrow> (default_budget, False))"

definition usable_for :: "Budget \<Rightarrow> bool \<Rightarrow> DomainObservation \<Rightarrow> u64" where
  "usable_for bud governed obs =
    (if governed then usable_capacity bud
     else case obs_usable_capacity obs of Some u \<Rightarrow> u | None \<Rightarrow> obs_total_capacity obs)"

text \<open>The inputs of the score.\<close>

definition free_fraction_for :: "u64 \<Rightarrow> u64 \<Rightarrow> double" where
  "free_fraction_for avail usable = (if usable > 0 then ddiv (of_u64 avail) (of_u64 usable) else Fin 0)"

definition reserve_deficit_for :: "u64 \<Rightarrow> u64 \<Rightarrow> double" where
  "reserve_deficit_for committed usable =
    (if usable > 0 \<and> committed > usable
     then clamp01 (ddiv (of_u64 (committed - usable)) (of_u64 (max usable 1))) else Fin 0)"

definition growth_factor_for :: "TrendEstimate \<Rightarrow> double" where
  "growth_factor_for te =
    (if te_direction te = Trend_Rising then te_confidence te
     else if te_direction te = Trend_Falling then dmul (fl (2/10)) (te_confidence te) else Fin 0)"

definition available_for :: "u64 \<Rightarrow> u64 \<Rightarrow> u64" where
  "available_for committed usable = (if usable > committed then usable - committed else 0)"

text \<open>The step of the domain's runtime state: budget, trend, hysteresis, entry time and peak.\<close>

definition advance_domain ::
  "PressurePolicy \<Rightarrow> Budget \<Rightarrow> bool \<Rightarrow> u64 \<Rightarrow> DomainObservation \<Rightarrow> DomainRuntimeState \<Rightarrow> DomainRuntimeState" where
  "advance_domain pol bud governed now obs st =
    (let st = st\<lparr>drs_budget := bud, drs_governed := governed\<rparr>;
         util = utilization_for (obs_committed obs) (usable_for bud governed obs);
         st = st\<lparr>drs_trend := trend_add_sample (obs_committed obs) now (drs_trend st)\<rparr>;
         prev = hs_level (drs_hysteresis st);
         raw = evaluate_level util prev (thresholds pol);
         st = st\<lparr>drs_hysteresis := hyst_update raw now (drs_hysteresis st)\<rparr>;
         resolved = hs_level (drs_hysteresis st);
         st = (if resolved \<noteq> prev then st\<lparr>drs_entered_level_at_ms := now\<rparr> else st)
     in st\<lparr>drs_peak_level_rank := max (drs_peak_level_rank st) (sev64 resolved)\<rparr>)"

text \<open>The published state, from the runtime state before (\<open>prev\<close>) and after (\<open>st\<close>) the step.\<close>

definition score_observation ::
  "PressurePolicy \<Rightarrow> bool \<Rightarrow> u64 \<Rightarrow> DomainObservation \<Rightarrow> TrendEstimate \<Rightarrow> PressureScore" where
  "score_observation pol governed usable obs te =
     score_domain (utilization_for (obs_committed obs) usable) governed
       (free_fraction_for (available_for (obs_committed obs) usable) usable)
       (reserve_deficit_for (obs_committed obs) usable) (growth_factor_for te)
       (obs_allocation_failures obs) (obs_confidence obs) (obs_validity obs) (weights pol)"

definition publish_domain ::
  "PressurePolicy \<Rightarrow> Budget \<Rightarrow> bool \<Rightarrow> u64 \<Rightarrow> string \<Rightarrow> DomainObservation \<Rightarrow> PressureLevel \<Rightarrow> DomainRuntimeState \<Rightarrow> DomainState" where
  "publish_domain pol bud governed now prov obs prev st =
    (let usable = usable_for bud governed obs;
         te = trend_estimate (drs_trend st);
         sc = score_observation pol governed usable obs te
     in DomainState_init\<lparr>
       ds_id := obs_id obs,
       ds_type := obs_type obs,
       ds_provider := prov,
       ds_native_resource_id := obs_native_resource_id obs,
       ds_budget := bud,
       ds_governed := governed,
       ds_total_capacity := (if governed then hard_capacity bud else obs_total_capacity obs),
       ds_usable_capacity := usable,
       ds_reserved_bytes := (if governed then reserve_bytes bud else case obs_reserved obs of Some r \<Rightarrow> r | None \<Rightarrow> 0),
       ds_committed := obs_committed obs,
       ds_resident := obs_resident obs,
       ds_available := available_for (obs_committed obs) usable,
       ds_reclaimable := (case obs_reclaimable obs of Some r \<Rightarrow> r | None \<Rightarrow> 0),
       ds_utilization := utilization_for (obs_committed obs) usable,
       ds_level := hs_level (drs_hysteresis st),
       ds_previous_level := prev,
       ds_in_hysteresis_hold := in_hold (drs_hysteresis st),
       ds_level_hold_observations := ucast (hs_pending_obs (drs_hysteresis st)),
       ds_score := ps_value sc,
       ds_utilization_component := ps_utilization_component sc,
       ds_free_deficit_component := ps_free_deficit_component sc,
       ds_reserve_deficit_component := ps_reserve_deficit_component sc,
       ds_growth_component := ps_growth_component sc,
       ds_allocation_failure_component := ps_allocation_failure_component sc,
       ds_stigma := dadd (ps_confidence_penalty sc) (ps_stale_penalty sc),
       ds_trend := te_direction te,
       ds_trend_rate := te_rate te,
       ds_trend_confidence := te_confidence te,
       ds_trend_window_samples := of_nat (te_samples te),
       ds_confidence := obs_confidence obs,
       ds_provenance := obs_provenance obs,
       ds_validity := obs_validity obs,
       ds_timestamp_ms := now,
       ds_entered_level_at_ms := drs_entered_level_at_ms st,
       ds_peak_level := drs_peak_level_rank st\<rparr>)"

text \<open>The body of the loop over the observations.\<close>

definition interpret_observation ::
  "PressurePolicy \<Rightarrow> (PressureDomainId \<rightharpoonup> Budget) \<Rightarrow> u64 \<Rightarrow> string \<Rightarrow> DomainObservation \<Rightarrow> Cycle \<Rightarrow> Cycle" where
  "interpret_observation pol bm now prov obs cy =
    (let (bud, governed) = governing_budget bm (obs_id obs);
         st = touch_domain pol obs (cy_states cy);
         prev = hs_level (drs_hysteresis st);
         st' = advance_domain pol bud governed now obs st;
         cy = (if hs_level (drs_hysteresis st') \<noteq> prev
               then bump (\<lambda>s. s\<lparr>st_pressure_transitions := st_pressure_transitions s + 1\<rparr>) cy else cy)
     in cy\<lparr>cy_observed := List.insert (obs_id obs) (cy_observed cy),
           cy_states := (cy_states cy)(obs_id obs \<mapsto> st'),
           cy_domains := cy_domains cy @ [publish_domain pol bud governed now prov obs prev st'],
           cy_obs_count := cy_obs_count cy + 1\<rparr>)"

definition interpret_all ::
  "PressurePolicy \<Rightarrow> (PressureDomainId \<rightharpoonup> Budget) \<Rightarrow> u64 \<Rightarrow> Cycle \<Rightarrow> Cycle" where
  "interpret_all pol bm now cy =
     fold (\<lambda>(prov, obs). fold (interpret_observation pol bm now prov) obs) (cy_all cy) cy"

section \<open>Domains that were not observed, and domains that are new\<close>

definition keep_or_remove :: "u64 \<Rightarrow> DomainState \<Rightarrow> Cycle \<Rightarrow> Cycle" where
  "keep_or_remove now pd cy =
    (if ds_id pd \<in> set (cy_observed cy) then cy
     else
       let ph = (case sm_find (cy_health cy) (ds_provider pd) of None \<Rightarrow> PS_Unavailable | Some h \<Rightarrow> h) in
       if ph = PS_Failed \<or> ph = PS_Stale \<or> ph = PS_Unavailable then
         let keeper = pd\<lparr>ds_validity := Val_Stale, ds_confidence := Conf_Low, ds_timestamp_ms := now,
               ds_explanation := ds_explanation pd @ '' [retained; provider '' @ ds_provider pd @ '' not fresh]''\<rparr>;
             cy = cy\<lparr>cy_stale := True\<rparr>;
             cy = emit Ev_ProviderStale 0 now (Some (ds_id pd)) (''retained stale: '' @ ds_provider pd) 0 cy
         in cy\<lparr>cy_domains := cy_domains cy @ [keeper]\<rparr>
       else
         let cy = emit Ev_DomainRemoved 0 now (Some (ds_id pd)) ''domain removed'' 0 cy
         in cy\<lparr>cy_states := (cy_states cy)(ds_id pd := None)\<rparr>)"

definition announce :: "u64 \<Rightarrow> Snapshot \<Rightarrow> DomainState \<Rightarrow> Cycle \<Rightarrow> Cycle" where
  "announce now prev d cy =
    (if find_domain (ds_id d) prev = None
     then emit Ev_DomainAdded 0 now (Some (ds_id d)) (''domain '' @ DomainType_to_string (ds_type d) @ '' added'') 0 cy
     else cy)"

section \<open>Cross-tier responses\<close>

definition host_present :: "DomainState list \<Rightarrow> bool" where
  "host_present ds = list_ex (\<lambda>d. is_hostlike (ds_type d)) ds"

definition host_sev :: "DomainState list \<Rightarrow> nat" where
  "host_sev ds = fold (\<lambda>d m. if is_hostlike (ds_type d) then max m (sev (ds_level d)) else m) ds 0"

definition respond :: "DomainState list \<Rightarrow> DomainState \<Rightarrow> DomainState" where
  "respond ds d =
    (let d = d\<lparr>ds_responses := initial_actions (ds_level d)\<rparr>;
         d = (if is_accelerator (ds_type d) \<and> severity_rank PL_High \<le> severity_rank (ds_level d) \<and>
                 (\<not> host_present ds \<or> sev PL_Critical \<le> host_sev ds)
              then d\<lparr>ds_responses := filter (\<lambda>a. a \<noteq> RA_RequestDemotion) (ds_responses d)\<rparr> else d)
     in d\<lparr>ds_explanation := build_explanation d\<rparr>)"

section \<open>The aggregate\<close>

definition role_weight_for :: "PressurePolicy \<Rightarrow> DomainType \<Rightarrow> double" where
  "role_weight_for pol t =
    (case sm_find (role_weight (aggregate pol)) (role_for t) of None \<Rightarrow> Fin 1 | Some w \<Rightarrow> w)"

definition aggregate_sev :: "DomainState list \<Rightarrow> nat" where
  "aggregate_sev ds = fold (\<lambda>d m. max m (sev (ds_level d))) ds 0"

definition aggregate_level :: "DomainState list \<Rightarrow> PressureLevel" where
  "aggregate_level ds =
    (if ds = [] then PL_Unknown
     else if sev PL_Exhausted \<le> aggregate_sev ds then PL_Exhausted
     else if sev PL_Critical \<le> aggregate_sev ds then PL_Critical
     else if sev PL_High \<le> aggregate_sev ds then PL_High
     else if sev PL_Elevated \<le> aggregate_sev ds then PL_Elevated
     else PL_Normal)"

definition aggregate_sums :: "PressurePolicy \<Rightarrow> DomainState list \<Rightarrow> double \<times> double" where
  "aggregate_sums pol ds = fold (\<lambda>d (score, wsum). let rw = role_weight_for pol (ds_type d)
     in (dadd score (dmul (ds_score d) rw), dadd wsum rw)) ds (Fin 0, Fin 0)"

definition aggregate_score :: "PressurePolicy \<Rightarrow> DomainState list \<Rightarrow> double" where
  "aggregate_score pol ds = (case aggregate_sums pol ds of (score, wsum) \<Rightarrow>
     if dgt wsum (Fin 0) then clamp01 (ddiv score wsum) else Fin 0)"

section \<open>Transition and response events\<close>

definition transition_event :: "u64 \<Rightarrow> u64 \<Rightarrow> Snapshot \<Rightarrow> DomainState \<Rightarrow> Cycle \<Rightarrow> Cycle" where
  "transition_event generation now prev ds cy =
    (case find_domain (ds_id ds) prev of
       None \<Rightarrow> cy
     | Some pds \<Rightarrow>
         if ds_level ds = ds_level pds then cy
         else if severity_rank (ds_level pds) < severity_rank (ds_level ds) then
           if severity_rank (ds_level pds) \<le> severity_rank PL_Normal then
             emit Ev_PressureEntered generation now (Some (ds_id ds))
               (''entered '' @ PressureLevel_to_string (ds_level ds)) (sev32 (ds_level ds)) cy
           else
             emit Ev_PressureEscalated generation now (Some (ds_id ds))
               (''escalated to '' @ PressureLevel_to_string (ds_level ds)) (sev32 (ds_level ds)) cy
         else if ds_level ds = PL_Normal then
           emit Ev_PressureRecovered generation now (Some (ds_id ds)) ''recovered to NORMAL'' 0 cy
         else
           emit Ev_PressureRelieved generation now (Some (ds_id ds))
             (''relieved to '' @ PressureLevel_to_string (ds_level ds)) (sev32 (ds_level ds)) cy)"

definition response_event :: "u64 \<Rightarrow> u64 \<Rightarrow> DomainState \<Rightarrow> ResponseAction \<Rightarrow> Cycle \<Rightarrow> Cycle" where
  "response_event generation now ds a cy =
    (if a = RA_RequestReclaim then
       emit Ev_ReclaimRequested generation now (Some (ds_id ds)) ''reclaim requested'' (sev32 (ds_level ds))
         (bump (\<lambda>st. st\<lparr>st_reclaim_requests := st_reclaim_requests st + 1\<rparr>) cy)
     else if a = RA_RequestDemotion then
       emit Ev_DemotionRequested generation now (Some (ds_id ds)) ''demotion requested'' (sev32 (ds_level ds))
         (bump (\<lambda>st. st\<lparr>st_demotion_requests := st_demotion_requests st + 1\<rparr>) cy)
     else if a = RA_ReduceAdmission \<or> a = RA_RejectNewWork then
       emit Ev_BackpressureIssued generation now (Some (ds_id ds)) (''backpressure:'' @ ResponseAction_to_string a)
         (sev32 (ds_level ds)) (bump (\<lambda>st. st\<lparr>st_backpressure_signals := st_backpressure_signals st + 1\<rparr>) cy)
     else cy)"

definition response_events :: "u64 \<Rightarrow> u64 \<Rightarrow> DomainState list \<Rightarrow> Cycle \<Rightarrow> Cycle" where
  "response_events generation now dss cy =
     fold (\<lambda>ds cy. fold (response_event generation now ds) (ds_responses ds) cy) dss cy"

section \<open>Dispatch\<close>

text \<open>
  One event to all subscriptions, in the order of registration. The result lists the callbacks that
  run, by the index of their subscription; \<open>None\<close> is undefined behaviour in a \<open>push\<close>.
\<close>

definition offer :: "PressureEvent \<Rightarrow> Subscription \<Rightarrow> (bool \<times> Subscription) option" where
  "offer e s = (if sub_closed s then Some (False, s)
     else case sub_push e s of None \<Rightarrow> None | Some (ok, cb, s') \<Rightarrow> Some (cb, s'))"

fun offer_all :: "PressureEvent \<Rightarrow> nat \<Rightarrow> Subscription list \<Rightarrow> ((nat \<times> PressureEvent) list \<times> Subscription list) option" where
  "offer_all e k [] = Some ([], [])"
| "offer_all e k (s # subs) =
    (case offer e s of None \<Rightarrow> None
     | Some (cb, s') \<Rightarrow>
         (case offer_all e (Suc k) subs of None \<Rightarrow> None
          | Some (calls, subs') \<Rightarrow> Some ((if cb then [(k, e)] else []) @ calls, s' # subs')))"

fun dispatch :: "PressureEvent list \<Rightarrow> Subscription list \<Rightarrow> ((nat \<times> PressureEvent) list \<times> Subscription list) option" where
  "dispatch [] subs = Some ([], subs)"
| "dispatch (e # es) subs =
    (case offer_all e 0 subs of None \<Rightarrow> None
     | Some (calls, subs') \<Rightarrow>
         (case dispatch es subs' of None \<Rightarrow> None | Some (calls', subs'') \<Rightarrow> Some (calls @ calls', subs'')))"

section \<open>The whole cycle\<close>

text \<open>The cycle at its start, with the copies that it takes of the members.\<close>

definition cycle_start :: "PressureRuntime \<Rightarrow> Cycle" where
  "cycle_start rt = \<lparr>cy_event_id = rt_event_id rt, cy_events = [], cy_stats = rt_stats rt,
     cy_health = rt_provider_health rt, cy_warnings = [], cy_partial = False, cy_stale = False, cy_all = [],
     cy_states = rt_domain_states rt, cy_domains = [], cy_observed = [], cy_obs_count = 0\<rparr>"

definition registered :: "World \<Rightarrow> PressureRuntime \<Rightarrow> string list" where
  "registered w rt = List.map_filter (rt_providers rt) (w_order w)"

definition poll_all :: "World \<Rightarrow> u64 \<Rightarrow> PressureRuntime \<Rightarrow> Cycle \<Rightarrow> Cycle" where
  "poll_all w now rt cy = fold (\<lambda>name. poll_provider now name (w_sample w name)) (registered w rt) cy"

text \<open>Lines 313-366: the unobserved domains, the announcements and the responses.\<close>

definition settle_domains :: "u64 \<Rightarrow> Snapshot \<Rightarrow> Cycle \<Rightarrow> Cycle" where
  "settle_domains now prev cy =
    (let cy = fold (keep_or_remove now) (sn_domains prev) cy;
         cy = fold (announce now prev) (cy_domains cy) cy
     in cy\<lparr>cy_domains := map (respond (cy_domains cy)) (cy_domains cy)\<rparr>)"

text \<open>The snapshot that is compared with the previous one (its generation and its events come later).\<close>

definition draft_snapshot :: "PressurePolicy \<Rightarrow> u64 \<Rightarrow> u64 \<Rightarrow> Cycle \<Rightarrow> Snapshot" where
  "draft_snapshot pol snapshot_id now cy = Snapshot_init\<lparr>
     sn_id := snapshot_id, sn_timestamp_ms := now, sn_policy_version := policy_version pol,
     sn_policy_name := policy_name pol, sn_warnings := cy_warnings cy, sn_partial_data := cy_partial cy,
     sn_stale_data := cy_stale cy,
     sn_aggregate_level := aggregate_level (cy_domains cy),
     sn_aggregate_score := aggregate_score pol (cy_domains cy),
     sn_aggregate_explanation := ''aggregate driven by max-severity domain'',
     sn_domains := cy_domains cy, sn_provider_health := cy_health cy,
     sn_confidence := (if cy_partial cy then Conf_Medium else Conf_High),
     sn_provenance := Prov_RuntimeRegistration\<rparr>"

text \<open>The generation, and the event that announces a new one.\<close>

definition next_generation :: "Snapshot \<Rightarrow> Snapshot \<Rightarrow> u64 \<Rightarrow> u64" where
  "next_generation prev draft generation =
     (if diff_any (diff_snapshots prev draft) then generation + 1 else generation)"

definition generation_event :: "Snapshot \<Rightarrow> Snapshot \<Rightarrow> u64 \<Rightarrow> u64 \<Rightarrow> Cycle \<Rightarrow> Cycle" where
  "generation_event prev draft generation now cy =
    (if diff_any (diff_snapshots prev draft)
     then emit Ev_GenerationChanged generation now None (''generation '' @ u64_to_string generation) 0
            (bump (\<lambda>st. st\<lparr>st_generation_changes := st_generation_changes st + 1\<rparr>) cy)
     else cy)"

text \<open>The observation half of the cycle, and the event half for a given generation.\<close>

definition observe_cycle :: "World \<Rightarrow> u64 \<Rightarrow> PressureRuntime \<Rightarrow> Cycle" where
  "observe_cycle w now rt =
     settle_domains now (rt_current_snapshot rt)
       (interpret_all (rt_policy rt) (rt_budgets rt) now (poll_all w now rt (cycle_start rt)))"

definition event_cycle :: "Snapshot \<Rightarrow> Snapshot \<Rightarrow> u64 \<Rightarrow> u64 \<Rightarrow> Cycle \<Rightarrow> Cycle" where
  "event_cycle prev draft generation now cy =
    (let cy = generation_event prev draft generation now cy;
         cy = fold (transition_event generation now prev) (sn_domains draft) cy
     in response_events generation now (sn_domains draft) cy)"

definition publish :: "World \<Rightarrow> Snapshot \<Rightarrow> Cycle \<Rightarrow> Subscription list \<Rightarrow> PressureRuntime \<Rightarrow> PressureRuntime" where
  "publish w snap cy subs rt = rt\<lparr>
     rt_current_snapshot := snap,
     rt_history := take_last (rt_history_limit rt) (rt_history rt @ [snap]),
     rt_generation := sn_generation snap,
     rt_snapshot_id := sn_id snap,
     rt_event_id := cy_event_id cy,
     rt_domain_states := cy_states cy,
     rt_subscriptions := subs,
     rt_stats := (cy_stats cy)\<lparr>st_refresh_latency_us := w_latency_us w,
       st_snapshots := st_snapshots (cy_stats cy) + 1,
       st_observations := st_observations (cy_stats cy) + cy_obs_count cy\<rparr>\<rparr>"

text \<open>
  \<open>refresh\<close>: the callbacks that run, the snapshot it returns and the new state; \<open>None\<close> is undefined behaviour.
\<close>

definition refresh :: "World \<Rightarrow> u64 \<Rightarrow> PressureRuntime \<Rightarrow> ((nat \<times> PressureEvent) list \<times> Snapshot \<times> PressureRuntime) option" where
  "refresh w now rt =
    (let prev = rt_current_snapshot rt;
         cy = observe_cycle w now rt;
         draft = draft_snapshot (rt_policy rt) (rt_snapshot_id rt + 1) now cy;
         generation = next_generation prev draft (rt_generation rt);
         cy = event_cycle prev draft generation now cy;
         snap = draft\<lparr>sn_generation := generation,
           sn_events := \<lparr>ses_classes = [], ses_count = of_nat (length (cy_events cy)), ses_dropped = 0\<rparr>\<rparr>
     in case dispatch (cy_events cy) (rt_subscriptions rt) of
          None \<Rightarrow> None
        | Some (calls, subs) \<Rightarrow> Some (calls, snap, publish w snap cy subs rt))"

end
