(* ===== verification/RefreshInv.thy ===== *)
theory RefreshInv imports Refresh begin

text \<open>
  Invariants of the refresh cycle: how its event identifiers are numbered, what holds of every runtime
  state and of every published domain, and what each stage leaves alone. The properties of the runtime
  rest on these.
\<close>

section \<open>What the event functions leave alone\<close>

lemma emit_fields [simp]:
  "cy_stats (emit ty g now dm det r cy) = cy_stats cy" "cy_health (emit ty g now dm det r cy) = cy_health cy"
  "cy_warnings (emit ty g now dm det r cy) = cy_warnings cy" "cy_partial (emit ty g now dm det r cy) = cy_partial cy"
  "cy_stale (emit ty g now dm det r cy) = cy_stale cy" "cy_all (emit ty g now dm det r cy) = cy_all cy"
  "cy_states (emit ty g now dm det r cy) = cy_states cy" "cy_domains (emit ty g now dm det r cy) = cy_domains cy"
  "cy_observed (emit ty g now dm det r cy) = cy_observed cy" "cy_obs_count (emit ty g now dm det r cy) = cy_obs_count cy"
  "cy_event_id (emit ty g now dm det r cy) = cy_event_id cy + 1"
  "cy_events (emit ty g now dm det r cy) = cy_events cy @
     [\<lparr>ev_id = cy_event_id cy + 1, ev_type = ty, ev_generation = g, ev_timestamp_ms = now, ev_domain = dm,
       ev_detail = det, ev_severity_rank = r\<rparr>]"
  by (simp_all add: emit_def make_pressure_event_def Let_def)

lemma bump_fields [simp]:
  "cy_events (bump f cy) = cy_events cy" "cy_event_id (bump f cy) = cy_event_id cy"
  "cy_health (bump f cy) = cy_health cy" "cy_warnings (bump f cy) = cy_warnings cy" "cy_partial (bump f cy) = cy_partial cy"
  "cy_stale (bump f cy) = cy_stale cy" "cy_all (bump f cy) = cy_all cy" "cy_states (bump f cy) = cy_states cy"
  "cy_domains (bump f cy) = cy_domains cy" "cy_observed (bump f cy) = cy_observed cy" "cy_obs_count (bump f cy) = cy_obs_count cy"
  by (simp_all add: bump_def)

lemma warn_fields [simp]:
  "cy_events (warn m cy) = cy_events cy" "cy_event_id (warn m cy) = cy_event_id cy" "cy_stats (warn m cy) = cy_stats cy"
  "cy_health (warn m cy) = cy_health cy" "cy_partial (warn m cy) = cy_partial cy"
  "cy_stale (warn m cy) = cy_stale cy" "cy_all (warn m cy) = cy_all cy" "cy_states (warn m cy) = cy_states cy"
  "cy_domains (warn m cy) = cy_domains cy" "cy_observed (warn m cy) = cy_observed cy" "cy_obs_count (warn m cy) = cy_obs_count cy"
  by (simp_all add: warn_def)

section \<open>The invariant\<close>

text \<open>The events of the cycle are numbered consecutively, from the counter of the runtime on.\<close>

definition numbered :: "u64 \<Rightarrow> Cycle \<Rightarrow> bool" where
  "numbered n cy \<longleftrightarrow> cy_event_id cy = n + of_nat (length (cy_events cy)) \<and>
     map ev_id (cy_events cy) = map (\<lambda>k. n + of_nat (Suc k)) [0..<length (cy_events cy)]"

definition drs_ok :: "PressurePolicy \<Rightarrow> DomainRuntimeState \<Rightarrow> bool" where
  "drs_ok pol st \<longleftrightarrow> hs_cfg (drs_hysteresis st) = hysteresis pol \<and> hs_level (drs_hysteresis st) \<noteq> PL_Unknown \<and>
     window_ok 16 (drs_trend st)"

definition states_ok :: "PressurePolicy \<Rightarrow> (PressureDomainId \<rightharpoonup> DomainRuntimeState) \<Rightarrow> bool" where
  "states_ok pol m \<longleftrightarrow> (\<forall>i st. m i = Some st \<longrightarrow> drs_ok pol st)"

definition dom_ok :: "DomainState \<Rightarrow> bool" where
  "dom_ok d \<longleftrightarrow> ds_level d \<noteq> PL_Unknown \<and> unit_double (ds_trend_confidence d) \<and> isfinite (ds_trend_rate d) \<and>
     unat (ds_available d) = unat (ds_usable_capacity d) - unat (ds_committed d)"

definition cycle_ok :: "PressurePolicy \<Rightarrow> u64 \<Rightarrow> Cycle \<Rightarrow> bool" where
  "cycle_ok pol n cy \<longleftrightarrow> numbered n cy \<and> states_ok pol (cy_states cy) \<and> list_all dom_ok (cy_domains cy) \<and>
     sm_ok (cy_health cy)"

lemma numbered_emit: "numbered n cy \<Longrightarrow> numbered n (emit ty g now dm det r cy)"
  by (simp add: numbered_def)

lemma numbered_same:
  "numbered n cy \<Longrightarrow> cy_events cy' = cy_events cy \<Longrightarrow> cy_event_id cy' = cy_event_id cy \<Longrightarrow> numbered n cy'"
  by (simp add: numbered_def)

lemma cycle_ok_emit [intro]: "cycle_ok pol n cy \<Longrightarrow> cycle_ok pol n (emit ty g now dm det r cy)"
  by (simp add: cycle_ok_def numbered_emit)

lemma cycle_ok_same:
  assumes "cycle_ok pol n cy" "cy_events cy' = cy_events cy" "cy_event_id cy' = cy_event_id cy"
    "cy_states cy' = cy_states cy" "cy_domains cy' = cy_domains cy" "cy_health cy' = cy_health cy"
  shows "cycle_ok pol n cy'"
  using assms numbered_same [of n cy cy'] by (simp add: cycle_ok_def)

lemma cycle_ok_bump [intro]: "cycle_ok pol n cy \<Longrightarrow> cycle_ok pol n (bump f cy)"
  by (erule cycle_ok_same) simp_all

lemma cycle_ok_warn [intro]: "cycle_ok pol n cy \<Longrightarrow> cycle_ok pol n (warn m cy)"
  by (erule cycle_ok_same) simp_all

lemma cycle_ok_flags [intro]:
  "cycle_ok pol n cy \<Longrightarrow> cycle_ok pol n (cy\<lparr>cy_partial := b\<rparr>)"
  "cycle_ok pol n cy \<Longrightarrow> cycle_ok pol n (cy\<lparr>cy_stale := b\<rparr>)"
  "cycle_ok pol n cy \<Longrightarrow> cycle_ok pol n (cy\<lparr>cy_all := a\<rparr>)"
  by (erule cycle_ok_same; simp)+

lemma cycle_ok_health [intro]: "cycle_ok pol n cy \<Longrightarrow> cycle_ok pol n (cy\<lparr>cy_health := sm_assign k v (cy_health cy)\<rparr>)"
  by (auto simp: cycle_ok_def sm_ok_assign intro: numbered_same)

lemma poll_provider_ok:
  assumes "cycle_ok pol n cy" shows "cycle_ok pol n (poll_provider now name outcome cy)"
proof (cases outcome)
  case (Inl what)
  then show ?thesis using assms by (simp add: poll_provider_def cycle_ok_def numbered_def Let_def sm_ok_assign)
next
  case (Inr s)
  then show ?thesis using assms
    by (cases "sample_status s") (simp_all add: poll_provider_def cycle_ok_def numbered_def Let_def sm_ok_assign)
qed

section \<open>One observation\<close>

lemma touch_domain_ok: assumes "states_ok pol m" shows "drs_ok pol (touch_domain pol obs m)"
proof -
  have new: "drs_ok pol (DomainRuntimeState_new (hysteresis pol) 16)"
    by (simp add: drs_ok_def DomainRuntimeState_new_def HysteresisState_new_def TrendEstimator_new_def window_ok_def)
  then have "drs_ok pol (case m (obs_id obs) of Some st \<Rightarrow> st | None \<Rightarrow> DomainRuntimeState_new (hysteresis pol) 16)"
    using assms by (auto simp: states_ok_def split: option.splits)
  then show ?thesis by (simp add: touch_domain_def Let_def drs_ok_def)
qed

lemma advance_domain_fields:
  "drs_trend (advance_domain pol bud g now obs st) = trend_add_sample (obs_committed obs) now (drs_trend st)"
  "drs_hysteresis (advance_domain pol bud g now obs st) =
     hyst_update (evaluate_level (utilization_for (obs_committed obs) (usable_for bud g obs))
       (hs_level (drs_hysteresis st)) (thresholds pol)) now (drs_hysteresis st)"
  "drs_budget (advance_domain pol bud g now obs st) = bud" "drs_governed (advance_domain pol bud g now obs st) = g"
  by (simp_all add: advance_domain_def Let_def)

lemma advance_domain_ok: assumes "drs_ok pol st" shows "drs_ok pol (advance_domain pol bud g now obs st)"
proof -
  have "window_ok 16 (drs_trend (advance_domain pol bud g now obs st))"
    using assms trend.step_inv [of 16 "drs_trend st" "(obs_committed obs, now)"]
    by (simp add: advance_domain_fields drs_ok_def)
  moreover have "hs_level (drs_hysteresis (advance_domain pol bud g now obs st)) \<noteq> PL_Unknown"
    using assms evaluate_known hyst_update_level unfolding advance_domain_fields drs_ok_def
    by (metis insertE singletonD)
  ultimately show ?thesis using assms by (simp add: drs_ok_def advance_domain_fields)
qed

lemma unat_available_for: "unat (available_for c u) = unat u - unat c"
  by (simp add: available_for_def monus_strict unat_monus)

lemma publish_domain_ok: "drs_ok pol st \<Longrightarrow> dom_ok (publish_domain pol bud g now prov obs prev st)"
  using trend_estimate_ok [of 16 "drs_trend st"]
  by (simp add: drs_ok_def dom_ok_def publish_domain_def Let_def unat_available_for)

lemma interpret_observation_ok:
  assumes "cycle_ok pol n cy" shows "cycle_ok pol n (interpret_observation pol bm now prov obs cy)"
proof -
  obtain bud g where b: "governing_budget bm (obs_id obs) = (bud, g)" by fastforce
  let ?st = "touch_domain pol obs (cy_states cy)"
  let ?st' = "advance_domain pol bud g now obs ?st"
  have st: "drs_ok pol ?st" using assms by (intro touch_domain_ok) (simp add: cycle_ok_def)
  then have st': "drs_ok pol ?st'" by (rule advance_domain_ok)
  define cy0 where "cy0 = (if hs_level (drs_hysteresis ?st') \<noteq> hs_level (drs_hysteresis ?st)
    then bump (\<lambda>s. s\<lparr>st_pressure_transitions := st_pressure_transitions s + 1\<rparr>) cy else cy)"
  have cy0: "cycle_ok pol n cy0" "cy_states cy0 = cy_states cy" "cy_domains cy0 = cy_domains cy"
    using assms by (auto simp: cy0_def)
  have eq: "interpret_observation pol bm now prov obs cy = cy0\<lparr>cy_observed := List.insert (obs_id obs) (cy_observed cy0),
      cy_states := (cy_states cy0)(obs_id obs \<mapsto> ?st'),
      cy_domains := cy_domains cy0 @ [publish_domain pol bud g now prov obs (hs_level (drs_hysteresis ?st)) ?st'],
      cy_obs_count := cy_obs_count cy0 + 1\<rparr>"
    unfolding interpret_observation_def b Let_def cy0_def by simp
  show ?thesis unfolding eq
    using cy0 st' publish_domain_ok [OF st'] by (auto simp: cycle_ok_def states_ok_def intro: numbered_same)
qed

lemma interpret_all_ok: assumes "cycle_ok pol n cy" shows "cycle_ok pol n (interpret_all pol bm now cy)"
proof -
  have "cycle_ok pol n (fold (interpret_observation pol bm now prov) obs c)" if "cycle_ok pol n c" for prov obs c
    using that by (intro fold_invariant [where P = "cycle_ok pol n" and Q = "\<lambda>_. True"]) (auto intro: interpret_observation_ok)
  then show ?thesis unfolding interpret_all_def using assms
    by (intro fold_invariant [where P = "cycle_ok pol n" and Q = "\<lambda>_. True"]) (auto split: prod.splits)
qed

section \<open>The other stages\<close>

lemma keep_or_remove_ok:
  assumes "cycle_ok pol n cy" "dom_ok pd" shows "cycle_ok pol n (keep_or_remove now pd cy)"
proof -
  have add: "cycle_ok pol n (c\<lparr>cy_domains := cy_domains c @ [d]\<rparr>)" if "cycle_ok pol n c" "dom_ok d" for c d
    using that by (auto simp: cycle_ok_def intro: numbered_same)
  have del: "cycle_ok pol n (c\<lparr>cy_states := (cy_states c)(i := None)\<rparr>)" if "cycle_ok pol n c" for c i
    using that by (auto simp: cycle_ok_def states_ok_def intro: numbered_same)
  have kept: "dom_ok (pd\<lparr>ds_validity := v, ds_confidence := co, ds_timestamp_ms := now, ds_explanation := x\<rparr>)" for v co x
    using assms(2) by (simp add: dom_ok_def)
  have upd: "cycle_ok pol n (emit ty 0 now (Some (ds_id pd)) det 0 (cy\<lparr>cy_stale := True\<rparr>))"
    "cycle_ok pol n (emit ty 0 now (Some (ds_id pd)) det 0 cy)" for ty det
    using assms(1) by blast+
  show ?thesis
    using assms(1) add [OF upd(1) kept] del [OF upd(2)] unfolding keep_or_remove_def Let_def by (simp split: option.splits)
qed

lemma announce_ok [intro]: "cycle_ok pol n cy \<Longrightarrow> cycle_ok pol n (announce now prev d cy)"
  by (auto simp: announce_def)

lemma respond_fields [simp]:
  "ds_id (respond ds d) = ds_id d" "ds_level (respond ds d) = ds_level d" "ds_type (respond ds d) = ds_type d"
  "ds_trend_confidence (respond ds d) = ds_trend_confidence d" "ds_trend_rate (respond ds d) = ds_trend_rate d"
  "ds_available (respond ds d) = ds_available d" "ds_usable_capacity (respond ds d) = ds_usable_capacity d"
  "ds_committed (respond ds d) = ds_committed d" "ds_budget (respond ds d) = ds_budget d"
  "ds_score (respond ds d) = ds_score d" "ds_validity (respond ds d) = ds_validity d"
  "ds_confidence (respond ds d) = ds_confidence d" "ds_provider (respond ds d) = ds_provider d"
  by (simp_all add: respond_def Let_def)

lemma dom_ok_respond [simp]: "dom_ok (respond ds d) = dom_ok d"
  by (simp add: dom_ok_def)

lemma settle_domains_ok:
  assumes "cycle_ok pol n cy" "list_all dom_ok (sn_domains prev)" shows "cycle_ok pol n (settle_domains now prev cy)"
proof -
  let ?a = "fold (keep_or_remove now) (sn_domains prev) cy"
  let ?b = "fold (announce now prev) (cy_domains ?a) ?a"
  have a: "cycle_ok pol n ?a"
    using assms by (intro fold_invariant [where P = "cycle_ok pol n" and Q = dom_ok])
      (auto simp: list_all_iff intro: keep_or_remove_ok)
  have "cycle_ok pol n ?b"
    by (rule fold_invariant [where P = "cycle_ok pol n" and Q = "\<lambda>_. True"]) (use a in auto)
  then show ?thesis
    by (auto simp: settle_domains_def Let_def cycle_ok_def list_all_iff intro: numbered_same)
qed

lemma transition_event_ok [intro]: "cycle_ok pol n cy \<Longrightarrow> cycle_ok pol n (transition_event g now prev ds cy)"
  by (auto simp: transition_event_def split: option.splits)

lemma response_event_ok [intro]: "cycle_ok pol n cy \<Longrightarrow> cycle_ok pol n (response_event g now ds a cy)"
  by (auto simp: response_event_def)

lemma generation_event_ok [intro]: "cycle_ok pol n cy \<Longrightarrow> cycle_ok pol n (generation_event prev draft g now cy)"
  by (auto simp: generation_event_def)

lemma response_events_ok: assumes "cycle_ok pol n cy" shows "cycle_ok pol n (response_events g now dss cy)"
proof -
  have "cycle_ok pol n (fold (response_event g now ds) as c)" if "cycle_ok pol n c" for ds as c
    using that by (intro fold_invariant [where P = "cycle_ok pol n" and Q = "\<lambda>_. True"]) auto
  then show ?thesis unfolding response_events_def using assms
    by (intro fold_invariant [where P = "cycle_ok pol n" and Q = "\<lambda>_. True"]) auto
qed

lemma event_cycle_ok:
  assumes "cycle_ok pol n cy" shows "cycle_ok pol n (event_cycle prev draft g now cy)"
proof -
  have "cycle_ok pol n (fold (transition_event g now prev) (sn_domains draft) (generation_event prev draft g now cy))"
    using assms by (intro fold_invariant [where P = "cycle_ok pol n" and Q = "\<lambda>_. True"]) auto
  then show ?thesis unfolding event_cycle_def Let_def by (rule response_events_ok)
qed

lemma poll_all_ok: "cycle_ok pol n cy \<Longrightarrow> cycle_ok pol n (poll_all w now rt cy)"
  unfolding poll_all_def by (intro fold_invariant [where P = "cycle_ok pol n" and Q = "\<lambda>_. True"]) (auto intro: poll_provider_ok)

end
