(* ===== verification/RuntimeSafety.thy ===== *)
theory RuntimeSafety imports RefreshInv begin

text \<open>
  The runtime as a state machine: its public operations as a step relation, the states reachable from the
  constructor, and the invariant of these. From it: \<open>refresh\<close> never runs into undefined behaviour,
  what a subscription receives, and what the history of snapshots holds.
\<close>

section \<open>Dispatch\<close>

definition sub_bounded :: "Subscription \<Rightarrow> bool" where
  "sub_bounded s \<longleftrightarrow> sub_max_queue s = 256 \<and> sub_overflow_policy s = DropOldest \<and> length (sub_queue s) \<le> 256"

text \<open>What a subscription receives of an event.\<close>

definition receives :: "PressureEvent \<Rightarrow> Subscription \<Rightarrow> bool" where
  "receives e s \<longleftrightarrow> \<not> sub_closed s \<and> sub_matches e s"

definition delivered_to :: "PressureEvent list \<Rightarrow> Subscription \<Rightarrow> Subscription \<Rightarrow> bool" where
  "delivered_to es s s' \<longleftrightarrow> sub_bounded s' \<and> sub_filter s' = sub_filter s \<and> sub_closed s' = sub_closed s \<and>
     sub_queue s' = take_last 256 (sub_queue s @ filter (\<lambda>e. receives e s) es)"

lemma offer_bounded:
  assumes "sub_bounded s" shows "\<exists>cb s'. offer e s = Some (cb, s') \<and> delivered_to [e] s s'"
proof (cases "receives e s")
  case True
  then show ?thesis using assms sub_push_drop_oldest [of e s]
    by (simp add: offer_def sub_bounded_def receives_def delivered_to_def)
next
  case False
  then show ?thesis using assms by (auto simp: offer_def sub_bounded_def receives_def delivered_to_def sub_push_def Let_def)
qed

lemma offer_all_bounded:
  "list_all sub_bounded subs \<Longrightarrow>
    \<exists>calls subs'. offer_all e k subs = Some (calls, subs') \<and> list_all2 (delivered_to [e]) subs subs'"
proof (induction subs arbitrary: k)
  case (Cons s subs)
  obtain cb s' where "offer e s = Some (cb, s')" "delivered_to [e] s s'"
    using offer_bounded [of s e] Cons.prems by auto
  then show ?case using Cons.IH [of "Suc k"] Cons.prems by auto
qed simp

lemma receives_same: "sub_filter s' = sub_filter s \<Longrightarrow> sub_closed s' = sub_closed s \<Longrightarrow> receives e s' = receives e s"
  using sub_matches_filter [of s' s e] by (simp add: receives_def)

lemma dispatch_bounded:
  "list_all sub_bounded subs \<Longrightarrow>
    \<exists>calls subs'. dispatch es subs = Some (calls, subs') \<and> list_all2 (delivered_to es) subs subs'"
proof (induction es arbitrary: subs)
  case Nil
  have "list_all2 (delivered_to []) subs subs"
    using Nil.prems by (intro list.rel_refl_strong) (auto simp: delivered_to_def list_all_iff sub_bounded_def)
  then show ?case by simp
next
  case (Cons e es)
  obtain calls subs1 where o: "offer_all e 0 subs = Some (calls, subs1)" and r1: "list_all2 (delivered_to [e]) subs subs1"
    using offer_all_bounded [OF Cons.prems] by blast
  have "list_all sub_bounded subs1"
    using r1 by (auto simp: list_all_length list_all2_conv_all_nth delivered_to_def)
  then obtain calls' subs2 where d: "dispatch es subs1 = Some (calls', subs2)" and r2: "list_all2 (delivered_to es) subs1 subs2"
    using Cons.IH by blast
  have "delivered_to (e # es) s s2" if "delivered_to [e] s s1" "delivered_to es s1 s2" for s s1 s2
    using that receives_same [of s1 s]
    by (auto simp: delivered_to_def take_last_absorb)
  then have "list_all2 (delivered_to (e # es)) subs subs2"
    using list_all2_trans [OF _ r1 r2] by blast
  with o d show ?case by simp
qed

section \<open>The step relation\<close>

text \<open>
  The operations on a runtime and on the subscriptions that it hands out (\<open>push\<close>, \<open>pop\<close>, \<open>clear\<close>, \<open>callback\<close>,
  \<open>close\<close>). The queries that change nothing are left out.
\<close>

inductive rt_step :: "PressureRuntime \<Rightarrow> PressureRuntime \<Rightarrow> bool" where
  policy: "rt_step rt (snd (set_policy p rt))"
| provider: "rt_step rt (register_provider p rt)"
| budget: "rt_step rt (snd (set_budget i b rt))"
| unbudget: "rt_step rt (clear_budget i rt)"
| subscribe: "rt_step rt (snd (subscribe flt cb rt))"
| close: "rt_step rt (close_subscription k rt)"
| push: "k < length (rt_subscriptions rt) \<Longrightarrow> sub_push e (rt_subscriptions rt ! k) = Some (ok, called, s) \<Longrightarrow>
    rt_step rt (update_subscription k (\<lambda>_. s) rt)"
| pop: "rt_step rt (update_subscription k (\<lambda>s. snd (sub_try_pop s)) rt)"
| clear: "rt_step rt (update_subscription k sub_clear rt)"
| callback: "rt_step rt (update_subscription k (sub_set_callback cb) rt)"
| limit: "rt_step rt (set_history_limit n rt)"
| admit: "rt_step rt (snd (admit i bytes rt))"
| refresh: "refresh w now rt = Some (calls, snap, rt') \<Longrightarrow> rt_step rt rt'"

inductive rt_reachable :: "PressureRuntime \<Rightarrow> bool" where
  start: "rt_reachable PressureRuntime_new"
| step: "rt_reachable rt \<Longrightarrow> rt_step rt rt' \<Longrightarrow> rt_reachable rt'"

section \<open>The invariant\<close>

text \<open>The history holds consecutive identifiers, the newest last.\<close>

definition history_ok :: "PressureRuntime \<Rightarrow> bool" where
  "history_ok rt \<longleftrightarrow> map sn_id (rt_history rt) =
     map (\<lambda>k. rt_snapshot_id rt - of_nat k) (rev [0..<length (rt_history rt)])"

definition rt_inv :: "PressureRuntime \<Rightarrow> bool" where
  "rt_inv rt \<longleftrightarrow>
     validate_policy (rt_policy rt) = None \<and>
     (\<forall>i b. rt_budgets rt i = Some b \<longrightarrow> validate_budget b = None) \<and>
     states_ok (rt_policy rt) (rt_domain_states rt) \<and>
     list_all sub_bounded (rt_subscriptions rt) \<and>
     list_all dom_ok (sn_domains (rt_current_snapshot rt)) \<and>
     rt_provider_health rt = [] \<and> history_ok rt"

lemma rt_inv_new: "rt_inv PressureRuntime_new"
  by (simp add: rt_inv_def PressureRuntime_new_def default_policy_valid states_ok_def Snapshot_init_def history_ok_def)

lemma set_policy_inv: assumes "rt_inv rt" shows "rt_inv (snd (set_policy p rt))"
proof (cases "validate_policy p")
  case None
  have "drs_ok p (st\<lparr>drs_hysteresis := HysteresisState_new (hysteresis p)\<rparr>)" if "drs_ok (rt_policy rt) st" for st
    using that by (simp add: drs_ok_def HysteresisState_new_def)
  with None assms show ?thesis by (auto simp: set_policy_def rt_inv_def states_ok_def history_ok_def)
qed (use assms in \<open>simp add: set_policy_def\<close>)

lemma set_budget_inv: "rt_inv rt \<Longrightarrow> rt_inv (snd (set_budget i b rt))"
  by (auto simp: set_budget_def rt_inv_def history_ok_def split: option.splits)

lemma subscribe_inv: "rt_inv rt \<Longrightarrow> rt_inv (snd (subscribe flt cb rt))"
  by (auto simp: subscribe_def rt_inv_def history_ok_def sub_bounded_def Subscription_new_def)

lemma update_subscription_inv:
  assumes "rt_inv rt" "\<And>s. sub_bounded s \<Longrightarrow> sub_bounded (f s)" shows "rt_inv (update_subscription k f rt)"
  using assms by (auto simp: update_subscription_def rt_inv_def history_ok_def list_all_length nth_list_update)

lemma sub_bounded_ops:
  "sub_bounded s \<Longrightarrow> sub_bounded (snd (sub_try_pop s))" "sub_bounded s \<Longrightarrow> sub_bounded (sub_clear s)"
  "sub_bounded s \<Longrightarrow> sub_bounded (sub_close s)" "sub_bounded s \<Longrightarrow> sub_bounded (sub_set_callback b s)"
  by (auto simp: sub_bounded_def sub_try_pop_def sub_clear_def sub_close_def sub_set_callback_def split: list.splits)

lemma push_inv:
  assumes "rt_inv rt" "k < length (rt_subscriptions rt)" "sub_push e (rt_subscriptions rt ! k) = Some (ok, called, s)"
  shows "rt_inv (update_subscription k (\<lambda>_. s) rt)"
proof -
  have b: "sub_bounded (rt_subscriptions rt ! k)" using assms(1,2) by (simp add: rt_inv_def list_all_length)
  have "sub_bounded s" using assms(3)
    by (cases rule: sub_push_cases) (use b in \<open>auto simp: sub_bounded_def\<close>)
  then show ?thesis using assms(1,2)
    by (auto simp: update_subscription_def rt_inv_def history_ok_def list_all_length nth_list_update)
qed

lemma admit_inv: "rt_inv rt \<Longrightarrow> rt_inv (snd (admit i bytes rt))"
  by (simp add: admit_def rt_inv_def history_ok_def Let_def split_beta)

section \<open>Refresh keeps the invariant\<close>

lemma cycle_start_ok: "rt_inv rt \<Longrightarrow> cycle_ok (rt_policy rt) (rt_event_id rt) (cycle_start rt)"
  by (simp add: cycle_ok_def cycle_start_def numbered_def rt_inv_def)

lemma observe_cycle_ok: "rt_inv rt \<Longrightarrow> cycle_ok (rt_policy rt) (rt_event_id rt) (observe_cycle w now rt)"
  unfolding observe_cycle_def
  by (intro settle_domains_ok interpret_all_ok poll_all_ok cycle_start_ok) (auto simp: rt_inv_def)

text \<open>The events of a refresh, and the snapshot it is about to publish.\<close>

definition refresh_draft :: "World \<Rightarrow> u64 \<Rightarrow> PressureRuntime \<Rightarrow> Snapshot" where
  "refresh_draft w now rt = draft_snapshot (rt_policy rt) (rt_snapshot_id rt + 1) now (observe_cycle w now rt)"

definition refresh_generation :: "World \<Rightarrow> u64 \<Rightarrow> PressureRuntime \<Rightarrow> u64" where
  "refresh_generation w now rt = next_generation (rt_current_snapshot rt) (refresh_draft w now rt) (rt_generation rt)"

definition refresh_cycle :: "World \<Rightarrow> u64 \<Rightarrow> PressureRuntime \<Rightarrow> Cycle" where
  "refresh_cycle w now rt = event_cycle (rt_current_snapshot rt) (refresh_draft w now rt)
     (refresh_generation w now rt) now (observe_cycle w now rt)"

definition refresh_events :: "World \<Rightarrow> u64 \<Rightarrow> PressureRuntime \<Rightarrow> PressureEvent list" where
  "refresh_events w now rt = cy_events (refresh_cycle w now rt)"

definition refresh_snapshot :: "World \<Rightarrow> u64 \<Rightarrow> PressureRuntime \<Rightarrow> Snapshot" where
  "refresh_snapshot w now rt = (refresh_draft w now rt)\<lparr>sn_generation := refresh_generation w now rt,
     sn_events := \<lparr>ses_classes = [], ses_count = of_nat (length (refresh_events w now rt)), ses_dropped = 0\<rparr>\<rparr>"

lemma refresh_unfold: "refresh w now rt =
    (case dispatch (refresh_events w now rt) (rt_subscriptions rt) of None \<Rightarrow> None
     | Some (calls, subs) \<Rightarrow> Some (calls, refresh_snapshot w now rt,
         publish w (refresh_snapshot w now rt) (refresh_cycle w now rt) subs rt))"
  unfolding refresh_def Let_def refresh_events_def refresh_snapshot_def refresh_cycle_def refresh_generation_def
    refresh_draft_def ..

lemma refresh_cycle_ok: "rt_inv rt \<Longrightarrow> cycle_ok (rt_policy rt) (rt_event_id rt) (refresh_cycle w now rt)"
  unfolding refresh_cycle_def by (rule event_cycle_ok [OF observe_cycle_ok])

lemma refresh_snapshot_fields [simp]:
  "sn_domains (refresh_snapshot w now rt) = cy_domains (observe_cycle w now rt)"
  "sn_id (refresh_snapshot w now rt) = rt_snapshot_id rt + 1"
  "sn_generation (refresh_snapshot w now rt) = refresh_generation w now rt"
  by (simp_all add: refresh_snapshot_def refresh_draft_def draft_snapshot_def)

lemma take_last_rev_upt: "take_last m (map f (rev [0..<n])) = map f (rev [0..<min m n])"
proof -
  have "n - (n - m) = min m n" by arith
  then show ?thesis by (simp add: take_last_def drop_map drop_rev)
qed

lemma history_push:
  assumes "history_ok rt" "sn_id snap = rt_snapshot_id rt + 1"
  shows "map sn_id (take_last m (rt_history rt @ [snap])) =
    map (\<lambda>k. sn_id snap - of_nat k) (rev [0..<min m (Suc (length (rt_history rt)))])"
proof -
  let ?n = "length (rt_history rt)"
  have "map sn_id (rt_history rt @ [snap]) = map (\<lambda>k. sn_id snap - of_nat k) (rev [0..<Suc ?n])"
  proof -
    have "map (\<lambda>k. sn_id snap - of_nat k) (rev [0..<Suc ?n]) = map (\<lambda>k. sn_id snap - of_nat k) (rev (map Suc [0..<?n])) @ [sn_id snap]"
      by (subst upt_conv_Cons) (simp_all add: map_Suc_upt)
    also have "\<dots> = map sn_id (rt_history rt @ [snap])"
      using assms by (simp add: history_ok_def rev_map comp_def)
    finally show ?thesis by simp
  qed
  then show ?thesis unfolding map_take_last by (simp only: take_last_rev_upt)
qed

lemma refresh_total:
  assumes "rt_inv rt"
  shows "\<exists>calls subs. refresh w now rt = Some (calls, refresh_snapshot w now rt,
      publish w (refresh_snapshot w now rt) (refresh_cycle w now rt) subs rt) \<and>
    list_all2 (delivered_to (refresh_events w now rt)) (rt_subscriptions rt) subs"
proof -
  have "list_all sub_bounded (rt_subscriptions rt)" using assms by (simp add: rt_inv_def)
  then show ?thesis using dispatch_bounded [of "rt_subscriptions rt" "refresh_events w now rt"]
    by (auto simp: refresh_unfold)
qed

lemma list_all2_delivered_bounded: "list_all2 (delivered_to es) subs subs' \<Longrightarrow> list_all sub_bounded subs'"
  by (auto simp: list_all_length list_all2_conv_all_nth delivered_to_def)

lemma refresh_inv:
  assumes "rt_inv rt" "refresh w now rt = Some (calls, snap, rt')" shows "rt_inv rt'"
proof -
  obtain subs where s: "snap = refresh_snapshot w now rt" "rt' = publish w snap (refresh_cycle w now rt) subs rt"
    "list_all2 (delivered_to (refresh_events w now rt)) (rt_subscriptions rt) subs"
    using refresh_total [OF assms(1), of w now] assms(2) by auto
  have ok: "cycle_ok (rt_policy rt) (rt_event_id rt) (refresh_cycle w now rt)"
    "cycle_ok (rt_policy rt) (rt_event_id rt) (observe_cycle w now rt)"
    using refresh_cycle_ok observe_cycle_ok assms(1) by auto
  have "history_ok rt'"
    using history_push [of rt snap "rt_history_limit rt"] assms(1) s(1)
    by (simp add: history_ok_def s(2) publish_def rt_inv_def)
  then show ?thesis
    using assms(1) ok s(1) list_all2_delivered_bounded [OF s(3)]
    by (simp add: rt_inv_def s(2) publish_def cycle_ok_def history_ok_def)
qed

lemma rt_step_inv: assumes "rt_step rt rt'" "rt_inv rt" shows "rt_inv rt'"
  using assms
proof cases
  case (provider p)
  then show ?thesis using assms(2) by (simp add: register_provider_def rt_inv_def history_ok_def split: option.splits)
next
  case (unbudget i)
  then show ?thesis using assms(2) by (auto simp: clear_budget_def rt_inv_def history_ok_def)
next
  case (limit n)
  then show ?thesis using assms(2) by (simp add: set_history_limit_def rt_inv_def history_ok_def)
qed (use assms(2) in \<open>auto simp: close_subscription_def intro: set_policy_inv set_budget_inv subscribe_inv
       push_inv update_subscription_inv sub_bounded_ops admit_inv refresh_inv\<close>)

lemma rt_reachable_inv: "rt_reachable rt \<Longrightarrow> rt_inv rt"
  by (induction rule: rt_reachable.induct) (auto intro: rt_inv_new rt_step_inv)

end
