(* ===== verification/RefreshSpec.thy ===== *)
theory RefreshSpec imports RuntimeSafety begin

text \<open>
  Closed forms of the stages of a refresh: what the polling leaves in the health map and in the list of
  samples, which identities count as observed, which domains the snapshot has, and that later stages
  only append events.
\<close>

section \<open>Polling\<close>

definition outcome_status :: "string + ProviderSample \<Rightarrow> ProviderStatus" where
  "outcome_status x = (case x of Inl _ \<Rightarrow> PS_Failed | Inr s \<Rightarrow> sample_status s)"

definition outcome_samples :: "World \<Rightarrow> string \<Rightarrow> (string \<times> DomainObservation list) option" where
  "outcome_samples w name = (case w_sample w name of Inl _ \<Rightarrow> None | Inr s \<Rightarrow> Some (name, sample_observations s))"

definition polled :: "World \<Rightarrow> PressureRuntime \<Rightarrow> (string \<times> DomainObservation list) list" where
  "polled w rt = List.map_filter (outcome_samples w) (registered w rt)"

lemma poll_provider_fields [simp]:
  "cy_states (poll_provider now name x cy) = cy_states cy" "cy_domains (poll_provider now name x cy) = cy_domains cy"
  "cy_observed (poll_provider now name x cy) = cy_observed cy"
  "cy_health (poll_provider now name x cy) = sm_assign name (outcome_status x) (cy_health cy)"
  by (auto simp: poll_provider_def outcome_status_def Let_def split: sum.splits ProviderStatus.splits)

lemma poll_provider_all: "cy_all (poll_provider now name (w_sample w name) cy) = cy_all cy @
    (case outcome_samples w name of None \<Rightarrow> [] | Some a \<Rightarrow> [a])"
  by (auto simp: poll_provider_def outcome_samples_def Let_def split: sum.splits ProviderStatus.splits)

lemma poll_fold:
  "cy_states (fold (\<lambda>name. poll_provider now name (w_sample w name)) names cy) = cy_states cy"
  "cy_domains (fold (\<lambda>name. poll_provider now name (w_sample w name)) names cy) = cy_domains cy"
  "cy_observed (fold (\<lambda>name. poll_provider now name (w_sample w name)) names cy) = cy_observed cy"
  "cy_all (fold (\<lambda>name. poll_provider now name (w_sample w name)) names cy) = cy_all cy @ List.map_filter (outcome_samples w) names"
  by (induction names arbitrary: cy) (auto simp: poll_provider_all List.map_filter_simps split: option.splits)

lemma poll_health: "sm_find (cy_health (fold (\<lambda>name. poll_provider now name (w_sample w name)) names cy)) p =
    (if p \<in> set names then Some (outcome_status (w_sample w p)) else sm_find (cy_health cy) p)"
  by (induction names arbitrary: cy) (auto simp: sm_find_assign)

section \<open>Interpreting\<close>

lemma interpret_observation_fields [simp]:
  "cy_all (interpret_observation pol bm now prov obs cy) = cy_all cy"
  "cy_health (interpret_observation pol bm now prov obs cy) = cy_health cy"
  "cy_events (interpret_observation pol bm now prov obs cy) = cy_events cy"
  "set (cy_observed (interpret_observation pol bm now prov obs cy)) = insert (obs_id obs) (set (cy_observed cy))"
  by (simp_all add: interpret_observation_def Let_def split_beta)

lemma interpret_observation_ids:
  "map ds_id (cy_domains (interpret_observation pol bm now prov obs cy)) = map ds_id (cy_domains cy) @ [obs_id obs]"
  by (simp add: interpret_observation_def Let_def split_beta publish_domain_def)

definition observed_ids :: "(string \<times> DomainObservation list) list \<Rightarrow> PressureDomainId list" where
  "observed_ids all = concat (map (\<lambda>(n, os). map obs_id os) all)"

lemma interpret_inner:
  "cy_all (fold (interpret_observation pol bm now prov) os cy) = cy_all cy"
  "cy_health (fold (interpret_observation pol bm now prov) os cy) = cy_health cy"
  "cy_events (fold (interpret_observation pol bm now prov) os cy) = cy_events cy"
  "set (cy_observed (fold (interpret_observation pol bm now prov) os cy)) = obs_id ` set os \<union> set (cy_observed cy)"
  "map ds_id (cy_domains (fold (interpret_observation pol bm now prov) os cy)) = map ds_id (cy_domains cy) @ map obs_id os"
  by (induction os arbitrary: cy) (auto simp: interpret_observation_ids)

lemma interpret_outer:
  "cy_health (fold (\<lambda>(prov, obs). fold (interpret_observation pol bm now prov) obs) all cy) = cy_health cy"
  "cy_events (fold (\<lambda>(prov, obs). fold (interpret_observation pol bm now prov) obs) all cy) = cy_events cy"
  "set (cy_observed (fold (\<lambda>(prov, obs). fold (interpret_observation pol bm now prov) obs) all cy)) =
     set (observed_ids all) \<union> set (cy_observed cy)"
  "map ds_id (cy_domains (fold (\<lambda>(prov, obs). fold (interpret_observation pol bm now prov) obs) all cy)) =
     map ds_id (cy_domains cy) @ observed_ids all"
  by (induction all arbitrary: cy) (auto simp: interpret_inner observed_ids_def)

text \<open>The cycle when the observations have been interpreted.\<close>

definition interpreted :: "World \<Rightarrow> u64 \<Rightarrow> PressureRuntime \<Rightarrow> Cycle" where
  "interpreted w now rt = interpret_all (rt_policy rt) (rt_budgets rt) now (poll_all w now rt (cycle_start rt))"

lemma interpreted_fields:
  "set (cy_observed (interpreted w now rt)) = set (observed_ids (polled w rt))"
  "map ds_id (cy_domains (interpreted w now rt)) = observed_ids (polled w rt)"
  "sm_find (cy_health (interpreted w now rt)) p = (if p \<in> set (registered w rt) then Some (outcome_status (w_sample w p))
     else sm_find (rt_provider_health rt) p)"
  by (simp_all add: interpreted_def interpret_all_def interpret_outer poll_all_def poll_fold poll_health polled_def cycle_start_def)

section \<open>Unobserved domains\<close>

definition not_fresh :: "(string \<times> ProviderStatus) list \<Rightarrow> string \<Rightarrow> bool" where
  "not_fresh health p \<longleftrightarrow> (case sm_find health p of None \<Rightarrow> True | Some h \<Rightarrow> h = PS_Failed \<or> h = PS_Stale \<or> h = PS_Unavailable)"

definition keeper :: "u64 \<Rightarrow> DomainState \<Rightarrow> DomainState" where
  "keeper now pd = pd\<lparr>ds_validity := Val_Stale, ds_confidence := Conf_Low, ds_timestamp_ms := now,
     ds_explanation := ds_explanation pd @ '' [retained; provider '' @ ds_provider pd @ '' not fresh]''\<rparr>"

lemma keep_or_remove_cases:
  "keep_or_remove now pd cy =
    (if ds_id pd \<in> set (cy_observed cy) then cy
     else if not_fresh (cy_health cy) (ds_provider pd) then
       (let cy = emit Ev_ProviderStale 0 now (Some (ds_id pd)) (''retained stale: '' @ ds_provider pd) 0 (cy\<lparr>cy_stale := True\<rparr>)
        in cy\<lparr>cy_domains := cy_domains cy @ [keeper now pd]\<rparr>)
     else (let cy = emit Ev_DomainRemoved 0 now (Some (ds_id pd)) ''domain removed'' 0 cy
        in cy\<lparr>cy_states := (cy_states cy)(ds_id pd := None)\<rparr>))"
  by (auto simp: keep_or_remove_def keeper_def not_fresh_def Let_def split: option.splits)

lemma keep_or_remove_fields [simp]:
  "cy_observed (keep_or_remove now pd cy) = cy_observed cy" "cy_health (keep_or_remove now pd cy) = cy_health cy"
  by (simp_all add: keep_or_remove_cases Let_def)

definition removed_by :: "Cycle \<Rightarrow> DomainState \<Rightarrow> bool" where
  "removed_by cy pd \<longleftrightarrow> ds_id pd \<notin> set (cy_observed cy) \<and> \<not> not_fresh (cy_health cy) (ds_provider pd)"

definition kept_by :: "Cycle \<Rightarrow> DomainState \<Rightarrow> bool" where
  "kept_by cy pd \<longleftrightarrow> ds_id pd \<notin> set (cy_observed cy) \<and> not_fresh (cy_health cy) (ds_provider pd)"

lemma keep_fold_fields [simp]:
  "cy_observed (fold (keep_or_remove now) pds cy) = cy_observed cy" "cy_health (fold (keep_or_remove now) pds cy) = cy_health cy"
  by (induction pds arbitrary: cy) auto

lemma keep_fold_domains: "cy_domains (fold (keep_or_remove now) pds cy) =
    cy_domains cy @ map (keeper now) (filter (kept_by cy) pds)"
proof (induction pds arbitrary: cy)
  case (Cons pd pds)
  have k: "kept_by (keep_or_remove now pd cy) = kept_by cy" by (intro ext) (simp add: kept_by_def)
  show ?case by (simp add: Cons.IH k) (simp add: keep_or_remove_cases kept_by_def Let_def)
qed simp

lemma keep_fold_states: "cy_states (fold (keep_or_remove now) pds cy) i =
    (if \<exists>pd \<in> set pds. ds_id pd = i \<and> removed_by cy pd then None else cy_states cy i)"
proof (induction pds arbitrary: cy)
  case (Cons pd pds)
  have k: "removed_by (keep_or_remove now pd cy) = removed_by cy" by (intro ext) (simp add: removed_by_def)
  have s: "cy_states (keep_or_remove now pd cy) i = (if ds_id pd = i \<and> removed_by cy pd then None else cy_states cy i)"
    by (simp add: keep_or_remove_cases removed_by_def Let_def)
  show ?case by (auto simp: Cons.IH k s)
qed simp

section \<open>Later stages only append events\<close>

definition appends :: "Cycle \<Rightarrow> Cycle \<Rightarrow> bool" where
  "appends cy cy' \<longleftrightarrow> (\<exists>es. cy_events cy' = cy_events cy @ es)"

lemma appends_refl [intro, simp]: "appends cy cy"
  by (simp add: appends_def)

lemma appends_trans: "appends a b \<Longrightarrow> appends b c \<Longrightarrow> appends a c"
  by (auto simp: appends_def)

lemma appends_set: "appends a b \<Longrightarrow> e \<in> set (cy_events a) \<Longrightarrow> e \<in> set (cy_events b)"
  by (auto simp: appends_def)

lemma appends_fold: assumes "\<And>x c. appends c (f x c)" shows "appends cy (fold f xs cy)"
  by (induction xs arbitrary: cy) (auto intro: appends_trans assms)

lemma appends_stages:
  "appends cy (keep_or_remove now pd cy)" "appends cy (announce now prev d cy)"
  "appends cy (transition_event g now prev ds cy)" "appends cy (response_event g now ds a cy)"
  "appends cy (generation_event prev draft g now cy)"
  by (auto simp: appends_def keep_or_remove_cases announce_def transition_event_def response_event_def
      generation_event_def Let_def split: option.splits)

lemma appends_folds:
  "appends cy (fold (keep_or_remove now) pds cy)" "appends cy (fold (announce now prev) ds cy)"
  "appends cy (fold (transition_event g now prev) ds cy)" "appends cy (fold (response_event g now d) as cy)"
  by (rule appends_fold, rule appends_stages)+

lemma appends_event_cycle: "appends cy (event_cycle prev draft g now cy)"
proof -
  have "appends c (response_events g now dss c)" for dss c
    unfolding response_events_def by (rule appends_fold) (rule appends_folds)
  then show ?thesis unfolding event_cycle_def Let_def
    by (meson appends_trans appends_stages(5) appends_folds(3))
qed

lemma appends_settle: "appends (fold (keep_or_remove now) (sn_domains prev) cy) (settle_domains now prev cy)"
  using appends_folds(2) by (simp add: settle_domains_def Let_def appends_def)

lemma removed_event:
  assumes "pd \<in> set pds" "removed_by cy pd"
  shows "\<exists>e \<in> set (cy_events (fold (keep_or_remove now) pds cy)). ev_type e = Ev_DomainRemoved \<and> ev_domain e = Some (ds_id pd)"
  using assms
proof (induction pds arbitrary: cy)
  case (Cons p pds)
  have k: "removed_by (keep_or_remove now p cy) = removed_by cy" by (intro ext) (simp add: removed_by_def)
  show ?case
  proof (cases "p = pd")
    case True
    then have "\<exists>e \<in> set (cy_events (keep_or_remove now p cy)). ev_type e = Ev_DomainRemoved \<and> ev_domain e = Some (ds_id pd)"
      using Cons.prems(2) by (simp add: keep_or_remove_cases removed_by_def Let_def)
    then show ?thesis using appends_set [OF appends_folds(1)] by fastforce
  next
    case False
    then show ?thesis using Cons.IH [of "keep_or_remove now p cy"] Cons.prems k by simp
  qed
qed simp

section \<open>The domains of the snapshot\<close>

lemma announce_fields [simp]:
  "cy_domains (announce now prev d cy) = cy_domains cy" "cy_states (announce now prev d cy) = cy_states cy"
  by (simp_all add: announce_def)

lemma announce_fold [simp]:
  "cy_domains (fold (announce now prev) ds cy) = cy_domains cy" "cy_states (fold (announce now prev) ds cy) = cy_states cy"
  by (induction ds arbitrary: cy) auto

text \<open>The domains before the responses are set: the observed ones, then those kept.\<close>

definition settled :: "World \<Rightarrow> u64 \<Rightarrow> PressureRuntime \<Rightarrow> DomainState list" where
  "settled w now rt = cy_domains (interpreted w now rt) @
     map (keeper now) (filter (kept_by (interpreted w now rt)) (sn_domains (rt_current_snapshot rt)))"

lemma observe_cycle_domains: "cy_domains (observe_cycle w now rt) = map (respond (settled w now rt)) (settled w now rt)"
  by (simp add: observe_cycle_def settle_domains_def Let_def keep_fold_domains settled_def flip: interpreted_def)

lemma observe_cycle_states: "cy_states (observe_cycle w now rt) i =
    (if \<exists>pd \<in> set (sn_domains (rt_current_snapshot rt)). ds_id pd = i \<and> removed_by (interpreted w now rt) pd then None
     else cy_states (interpreted w now rt) i)"
  by (simp add: observe_cycle_def settle_domains_def Let_def keep_fold_states flip: interpreted_def)

lemma event_cycle_fields [simp]:
  "cy_domains (event_cycle prev draft g now cy) = cy_domains cy" "cy_states (event_cycle prev draft g now cy) = cy_states cy"
proof -
  have r: "cy_domains (response_event g now ds a c) = cy_domains c" "cy_states (response_event g now ds a c) = cy_states c" for ds a c
    by (simp_all add: response_event_def)
  have t: "cy_domains (transition_event g now prev ds c) = cy_domains c" "cy_states (transition_event g now prev ds c) = cy_states c" for ds c
    by (simp_all add: transition_event_def split: option.splits)
  have ri: "cy_domains (fold (response_event g now ds) as c) = cy_domains c" "cy_states (fold (response_event g now ds) as c) = cy_states c" for ds as c
    by (induction as arbitrary: c) (auto simp: r)
  have ro: "cy_domains (response_events g now dss c) = cy_domains c" "cy_states (response_events g now dss c) = cy_states c" for dss c
    unfolding response_events_def by (induction dss arbitrary: c) (auto simp: ri)
  have tf: "cy_domains (fold (transition_event g now prev) dss c) = cy_domains c" "cy_states (fold (transition_event g now prev) dss c) = cy_states c" for dss c
    by (induction dss arbitrary: c) (auto simp: t)
  have ge: "cy_domains (generation_event prev draft g now c) = cy_domains c" "cy_states (generation_event prev draft g now c) = cy_states c" for c
    by (simp_all add: generation_event_def)
  show "cy_domains (event_cycle prev draft g now cy) = cy_domains cy" "cy_states (event_cycle prev draft g now cy) = cy_states cy"
    by (simp_all add: event_cycle_def Let_def ro tf ge)
qed

text \<open>The identities of a snapshot are distinct when those observed in the cycle are.\<close>

lemma keeper_fields [simp]: "ds_id (keeper now pd) = ds_id pd" "ds_level (keeper now pd) = ds_level pd"
  "ds_committed (keeper now pd) = ds_committed pd" "ds_validity (keeper now pd) = Val_Stale"
  "ds_confidence (keeper now pd) = Conf_Low" "ds_score (keeper now pd) = ds_score pd" "ds_type (keeper now pd) = ds_type pd"
  "ds_provider (keeper now pd) = ds_provider pd"
  by (simp_all add: keeper_def)

lemma settled_distinct:
  assumes "distinct (observed_ids (polled w rt))" "distinct (map ds_id (sn_domains (rt_current_snapshot rt)))"
  shows "distinct (map ds_id (settled w now rt))"
proof -
  have "ds_id \<circ> keeper now = ds_id" by (rule ext) simp
  moreover have "distinct (map ds_id (filter P (sn_domains (rt_current_snapshot rt))))" for P
    using assms(2) by (rule distinct_map_filter)
  ultimately show ?thesis
    using assms(1) by (auto simp: settled_def interpreted_fields(2) kept_by_def interpreted_fields(1))
qed

end
