(* ===== verification/RuntimeProps.thy ===== *)
theory RuntimeProps imports RuntimeSafety RefreshSpec begin

text \<open>
  The properties of the runtime: safety of every reachable state, numbering of events, delivery to
  subscriptions, the history, the generation, the domains that a snapshot keeps, the aggregate, and the
  cross-tier responses.
\<close>

section \<open>Safety, events and delivery\<close>

lemma refreshE:
  assumes "rt_inv rt" "refresh w now rt = Some (calls, snap, rt')"
  obtains subs where "snap = refresh_snapshot w now rt" "rt' = publish w snap (refresh_cycle w now rt) subs rt"
    "list_all2 (delivered_to (refresh_events w now rt)) (rt_subscriptions rt) subs"
  using refresh_total [OF assms(1), of w now] assms(2) by auto

text \<open>
  C1. In every state that the public operations can reach, in any order: the policy and all budgets are valid,
  every domain's state machine runs under the current hysteresis configuration at a known level with a
  trend window of at most 16 samples, every published domain has a known level, a finite trend with a confidence in \<open>[0,1]\<close>
  and an exact number of available bytes, no subscription holds more than 256 events, and the next
  \<open>refresh\<close>, whatever the providers answer, is free of undefined behaviour.
\<close>

theorem runtime_safe:
  assumes "rt_reachable rt"
  shows "validate_policy (rt_policy rt) = None \<and>
    (\<forall>i b. rt_budgets rt i = Some b \<longrightarrow> validate_budget b = None) \<and>
    (\<forall>i st. rt_domain_states rt i = Some st \<longrightarrow> hs_cfg (drs_hysteresis st) = hysteresis (rt_policy rt) \<and>
       hs_level (drs_hysteresis st) \<noteq> PL_Unknown \<and> length (tr_samples (drs_trend st)) \<le> 16) \<and>
    (\<forall>d \<in> set (sn_domains (rt_current_snapshot rt)). ds_level d \<noteq> PL_Unknown \<and>
       unit_double (ds_trend_confidence d) \<and> isfinite (ds_trend_rate d) \<and>
       unat (ds_available d) = unat (ds_usable_capacity d) - unat (ds_committed d)) \<and>
    (\<forall>s \<in> set (rt_subscriptions rt). length (sub_queue s) \<le> 256) \<and>
    refresh w now rt \<noteq> None"
proof -
  have inv: "rt_inv rt" using assms by (rule rt_reachable_inv)
  have "refresh w now rt \<noteq> None" using refresh_total [OF inv, of w now] by auto
  with inv show ?thesis
    by (auto simp: rt_inv_def states_ok_def drs_ok_def window_ok_def dom_ok_def sub_bounded_def list_all_iff)
qed

lemma runtime_safe_witness:
  "\<forall>w now flt cb. refresh w now (snd (subscribe flt cb (register_provider (Some ''p'') PressureRuntime_new))) \<noteq> None"
proof (intro allI)
  fix w now flt cb
  have "rt_reachable (snd (subscribe flt cb (register_provider (Some ''p'') PressureRuntime_new)))"
    by (intro rt_reachable.step [OF _ rt_step.subscribe] rt_reachable.step [OF rt_reachable.start rt_step.provider])
  from runtime_safe [OF this]
  show "refresh w now (snd (subscribe flt cb (register_provider (Some ''p'') PressureRuntime_new))) \<noteq> None" by blast
qed

text \<open>A world in which every provider throws, and one concrete refresh, for the witnesses.\<close>

definition quiet_world :: World where
  "quiet_world = \<lparr>w_order = [], w_sample = (\<lambda>_. Inl ''down''), w_latency_us = 0\<rparr>"

lemma new_fields: "rt_event_id PressureRuntime_new = 0" "rt_history_limit PressureRuntime_new = 64"
  "rt_snapshot_id PressureRuntime_new = 0" "rt_generation PressureRuntime_new = 0"
  by (simp_all add: PressureRuntime_new_def)

lemma quiet_refresh: "\<exists>calls snap rt'. refresh quiet_world 5 PressureRuntime_new = Some (calls, snap, rt')"
  using refresh_total [OF rt_inv_new] by blast

text \<open>
  C27. The events of a refresh are numbered consecutively from the runtime's counter on, modulo \<open>2^64\<close>, and the
  counter and the published event count account for every one of them: no identifier is skipped or reused
  between refreshes.
\<close>

theorem event_numbering:
  assumes "rt_reachable rt" "refresh w now rt = Some (calls, snap, rt')"
  shows "map ev_id (refresh_events w now rt) =
      map (\<lambda>k. rt_event_id rt + of_nat (Suc k)) [0..<length (refresh_events w now rt)] \<and>
    rt_event_id rt' = rt_event_id rt + of_nat (length (refresh_events w now rt)) \<and>
    ses_count (sn_events snap) = of_nat (length (refresh_events w now rt))"
proof -
  have inv: "rt_inv rt" using assms(1) by (rule rt_reachable_inv)
  from refreshE [OF inv assms(2)] obtain subs where
    s: "snap = refresh_snapshot w now rt" "rt' = publish w snap (refresh_cycle w now rt) subs rt" by metis
  have "numbered (rt_event_id rt) (refresh_cycle w now rt)" using refresh_cycle_ok [OF inv] by (simp add: cycle_ok_def)
  with s show ?thesis
    by (simp add: numbered_def refresh_events_def publish_def refresh_snapshot_def)
qed

lemma event_numbering_witness:
  "\<exists>(snap::Snapshot) (rt'::PressureRuntime). rt_event_id rt' = 0 + of_nat (length (refresh_events quiet_world 5 PressureRuntime_new)) \<and>
    ses_count (sn_events snap) = of_nat (length (refresh_events quiet_world 5 PressureRuntime_new))"
proof -
  obtain calls snap rt' where "refresh quiet_world 5 PressureRuntime_new = Some (calls, snap, rt')"
    using quiet_refresh by blast
  from event_numbering [OF rt_reachable.start this] show ?thesis unfolding new_fields by blast
qed

text \<open>
  C26. Delivery: a refresh appends to the queue of every open subscription exactly the events of the cycle that match its
  filter, in order, and keeps the newest 256; a closed subscription receives nothing.
\<close>

theorem delivery:
  assumes "rt_reachable rt" "refresh w now rt = Some (calls, snap, rt')"
  shows "length (rt_subscriptions rt') = length (rt_subscriptions rt) \<and>
    (\<forall>k < length (rt_subscriptions rt). sub_queue (rt_subscriptions rt' ! k) =
      take_last 256 (sub_queue (rt_subscriptions rt ! k) @
        filter (\<lambda>e. \<not> sub_closed (rt_subscriptions rt ! k) \<and> sub_matches e (rt_subscriptions rt ! k))
          (refresh_events w now rt)))"
proof -
  from refreshE [OF rt_reachable_inv [OF assms(1)] assms(2)] obtain subs where
    "rt' = publish w snap (refresh_cycle w now rt) subs rt"
    "list_all2 (delivered_to (refresh_events w now rt)) (rt_subscriptions rt) subs" by metis
  then show ?thesis by (simp add: publish_def list_all2_conv_all_nth delivered_to_def receives_def)
qed

section \<open>History and generation\<close>

lemma find_last_distinct:
  "distinct (map f (xs @ [x])) \<Longrightarrow> find (\<lambda>y. f y = f x) (xs @ [x]) = Some x"
  by (induction xs) auto

text \<open>
  After a refresh the published snapshot is the current one, and, for a positive history limit below \<open>2^64\<close>, it is found
  under its identifier; the history never exceeds its limit. (Identifiers wrap, but a history within the limit never holds one twice.)
\<close>

lemma history_lookup:
  assumes "rt_reachable rt" "refresh w now rt = Some (calls, snap, rt')"
    and "0 < rt_history_limit rt" "rt_history_limit rt < 2 ^ 64"
  shows "rt_current_snapshot rt' = snap \<and> snapshot_by_id (sn_id snap) rt' = Some snap \<and>
    length (rt_history rt') \<le> rt_history_limit rt \<and> sn_id snap = rt_snapshot_id rt + 1"
proof -
  have inv: "rt_inv rt" using assms(1) by (rule rt_reachable_inv)
  from refreshE [OF inv assms(2)] obtain subs where
    s: "snap = refresh_snapshot w now rt" "rt' = publish w snap (refresh_cycle w now rt) subs rt" by metis
  have h: "rt_history rt' = take_last (rt_history_limit rt) (rt_history rt @ [snap])" by (simp add: s(2) publish_def)
  have id: "sn_id snap = rt_snapshot_id rt + 1" by (simp add: s(1))
  obtain xs where xs: "rt_history rt' = xs @ [snap]" unfolding h using assms(3) by (simp add: take_last_snoc)
  have len: "length (rt_history rt') \<le> rt_history_limit rt" by (simp add: h)
  have "history_ok rt'" using refresh_inv [OF inv assms(2)] by (simp add: rt_inv_def)
  then have ids: "map sn_id (rt_history rt') = map (\<lambda>k. rt_snapshot_id rt' - of_nat k) (rev [0..<length (rt_history rt')])"
    by (simp add: history_ok_def)
  have "inj_on (\<lambda>k. rt_snapshot_id rt' - of_nat k) {0..<length (rt_history rt')}"
  proof (rule inj_onI)
    fix a b assume ab: "a \<in> {0..<length (rt_history rt')}" "b \<in> {0..<length (rt_history rt')}"
      "rt_snapshot_id rt' - of_nat a = rt_snapshot_id rt' - of_nat b"
    then have "(of_nat a :: u64) = of_nat b" by simp
    then have "a mod 2 ^ 64 = b mod 2 ^ 64" using unat_of_nat [of a, where 'a = 64] unat_of_nat [of b, where 'a = 64] by simp
    then show "a = b" using ab len assms(4) by simp
  qed
  then have "distinct (map sn_id (rt_history rt'))" unfolding ids by (simp add: distinct_map)
  then have "find (\<lambda>y. sn_id y = sn_id snap) (rt_history rt') = Some snap"
    unfolding xs by (rule find_last_distinct)
  with len id show ?thesis by (simp add: snapshot_by_id_def s(2) publish_def)
qed

lemma history_lookup_witness:
  "\<exists>(snap::Snapshot) (rt'::PressureRuntime). rt_current_snapshot rt' = snap \<and> snapshot_by_id (sn_id snap) rt' = Some snap \<and> sn_id snap = 1"
proof -
  obtain calls snap rt' where "refresh quiet_world 5 PressureRuntime_new = Some (calls, snap, rt')"
    using quiet_refresh by blast
  from history_lookup [OF rt_reachable.start this, unfolded new_fields]
  show ?thesis by (intro exI [of _ snap] exI [of _ rt']) (auto simp del: of_nat_numeral)
qed

lemma material_domains: "sn_domains a = sn_domains b \<Longrightarrow> material a = material b"
  by (rule ext) (simp add: material_def find_domain_def)

text \<open>
  C25. The generation advances, by one, exactly on a material change. For snapshots without duplicate identities,
  the new snapshot carries the generation of the previous one if and only if both have the same domains with the same
  levels, capacities and reserves, the same aggregate level, policy version and provider health, and
  equal aggregate scores (so a score that is NaN counts as a change every time).
\<close>

theorem generation_material:
  assumes "rt_reachable rt" "refresh w now rt = Some (calls, snap, rt')"
    and "distinct (map ds_id (sn_domains (rt_current_snapshot rt)))" "distinct (map ds_id (sn_domains snap))"
  shows "rt_generation rt' = sn_generation snap \<and>
    (sn_generation snap = rt_generation rt \<or> sn_generation snap = rt_generation rt + 1) \<and>
    (sn_generation snap = rt_generation rt \<longleftrightarrow>
      material (rt_current_snapshot rt) = material snap \<and>
      sn_aggregate_level (rt_current_snapshot rt) = sn_aggregate_level snap \<and>
      sn_aggregate_score (rt_current_snapshot rt) \<noteq> NaN \<and>
      sn_aggregate_score (rt_current_snapshot rt) = sn_aggregate_score snap \<and>
      sn_policy_version (rt_current_snapshot rt) = sn_policy_version snap \<and>
      sn_provider_health (rt_current_snapshot rt) = sn_provider_health snap)"
proof -
  let ?prev = "rt_current_snapshot rt" and ?draft = "refresh_draft w now rt"
  from refreshE [OF rt_reachable_inv [OF assms(1)] assms(2)] obtain subs where
    s: "snap = refresh_snapshot w now rt" "rt' = publish w snap (refresh_cycle w now rt) subs rt" by metis
  have same: "sn_domains snap = sn_domains ?draft" "sn_aggregate_level snap = sn_aggregate_level ?draft"
    "sn_aggregate_score snap = sn_aggregate_score ?draft" "sn_policy_version snap = sn_policy_version ?draft"
    "sn_provider_health snap = sn_provider_health ?draft" by (simp_all add: s(1) refresh_snapshot_def)
  have g: "sn_generation snap = (if diff_any (diff_snapshots ?prev ?draft) then rt_generation rt + 1 else rt_generation rt)"
    by (simp add: s(1) refresh_generation_def next_generation_def)
  have "sn_generation snap = rt_generation rt \<longleftrightarrow> \<not> diff_any (diff_snapshots ?prev ?draft)" using g by simp
  also have "\<dots> \<longleftrightarrow> material ?prev = material ?draft \<and> sn_aggregate_level ?prev = sn_aggregate_level ?draft \<and>
      sn_aggregate_score ?prev \<noteq> NaN \<and> sn_aggregate_score ?prev = sn_aggregate_score ?draft \<and>
      sn_policy_version ?prev = sn_policy_version ?draft \<and> sn_provider_health ?prev = sn_provider_health ?draft"
    using assms(3,4) same(1) by (intro diff_snapshots_exact) simp_all
  finally have iff: "sn_generation snap = rt_generation rt \<longleftrightarrow> \<dots>" .
  have "rt_generation rt' = sn_generation snap" by (simp add: s(2) publish_def)
  moreover have "sn_generation snap = rt_generation rt \<or> sn_generation snap = rt_generation rt + 1" using g by simp
  ultimately show ?thesis using iff unfolding same material_domains [OF same(1)] by blast
qed

lemma settled_new: "settled quiet_world 5 PressureRuntime_new = []"
  by (simp add: settled_def interpreted_def interpret_all_def poll_all_def registered_def quiet_world_def
      cycle_start_def PressureRuntime_new_def List.map_filter_simps Snapshot_init_def)

lemma generation_material_witness:
  "\<exists>(snap::Snapshot) (rt'::PressureRuntime). rt_generation rt' = sn_generation snap \<and> sn_generation snap = 1"
proof -
  obtain calls snap rt' where r: "refresh quiet_world 5 PressureRuntime_new = Some (calls, snap, rt')"
    using quiet_refresh by blast
  from refreshE [OF rt_inv_new r] have s: "snap = refresh_snapshot quiet_world 5 PressureRuntime_new" by metis
  have d: "sn_domains snap = []" unfolding s by (simp add: observe_cycle_domains settled_new)
  have v: "sn_policy_version snap = 1" "sn_policy_version (rt_current_snapshot PressureRuntime_new) = 0"
    unfolding s by (simp_all add: refresh_snapshot_def refresh_draft_def draft_snapshot_def PressureRuntime_new_def
        default_policy_def PressurePolicy_init_def Snapshot_init_def)
  have "sn_domains (rt_current_snapshot PressureRuntime_new) = []" by (simp add: PressureRuntime_new_def Snapshot_init_def)
  with generation_material [OF rt_reachable.start r] d v have "rt_generation rt' = sn_generation snap \<and> sn_generation snap = 1"
    unfolding new_fields by auto
  then show ?thesis by blast
qed

section \<open>The domains of a snapshot\<close>

text \<open>A provider that is not registered, threw, or answered that it failed, is stale or is unavailable.\<close>

definition unavailable :: "World \<Rightarrow> PressureRuntime \<Rightarrow> string \<Rightarrow> bool" where
  "unavailable w rt p \<longleftrightarrow> p \<notin> set (registered w rt) \<or> outcome_status (w_sample w p) \<in> {PS_Failed, PS_Stale, PS_Unavailable}"

lemma not_fresh_unavailable:
  "rt_inv rt \<Longrightarrow> not_fresh (cy_health (interpreted w now rt)) p = unavailable w rt p"
  by (auto simp: not_fresh_def interpreted_fields(3) unavailable_def rt_inv_def)

lemma unobserved_domain:
  assumes "rt_inv rt" "refresh w now rt = Some (calls, snap, rt')"
    and "pd \<in> set (sn_domains (rt_current_snapshot rt))" "ds_id pd \<notin> set (observed_ids (polled w rt))"
  shows "if unavailable w rt (ds_provider pd)
    then \<exists>d \<in> set (sn_domains snap). ds_id d = ds_id pd \<and> ds_level d = ds_level pd \<and> ds_committed d = ds_committed pd \<and>
      ds_validity d = Val_Stale \<and> ds_confidence d = Conf_Low
    else rt_domain_states rt' (ds_id pd) = None \<and>
      (\<exists>e \<in> set (refresh_events w now rt). ev_type e = Ev_DomainRemoved \<and> ev_domain e = Some (ds_id pd)) \<and>
      (distinct (map ds_id (sn_domains (rt_current_snapshot rt))) \<longrightarrow> (\<forall>d \<in> set (sn_domains snap). ds_id d \<noteq> ds_id pd))"
proof -
  note inv = assms(1)
  from refreshE [OF inv assms(2)] obtain subs where
    s: "snap = refresh_snapshot w now rt" "rt' = publish w snap (refresh_cycle w now rt) subs rt" by metis
  let ?cy = "interpreted w now rt"
  have dom: "set (sn_domains snap) = respond (settled w now rt) ` set (settled w now rt)"
    by (simp add: s(1) observe_cycle_domains)
  have obs: "ds_id pd \<notin> set (cy_observed ?cy)" using assms(4) by (simp add: interpreted_fields(1))
  show ?thesis
  proof (cases "unavailable w rt (ds_provider pd)")
    case True
    then have "kept_by ?cy pd" using obs not_fresh_unavailable [OF inv] by (simp add: kept_by_def)
    then have "keeper now pd \<in> set (settled w now rt)" using assms(3) by (simp add: settled_def)
    then have "respond (settled w now rt) (keeper now pd) \<in> set (sn_domains snap)" unfolding dom by (rule imageI)
    moreover have "ds_id d = ds_id pd \<and> ds_level d = ds_level pd \<and> ds_committed d = ds_committed pd \<and>
        ds_validity d = Val_Stale \<and> ds_confidence d = Conf_Low" if "d = respond (settled w now rt) (keeper now pd)" for d
      by (simp add: that keeper_fields)
    ultimately have "\<exists>d \<in> set (sn_domains snap). ds_id d = ds_id pd \<and> ds_level d = ds_level pd \<and>
        ds_committed d = ds_committed pd \<and> ds_validity d = Val_Stale \<and> ds_confidence d = Conf_Low" by blast
    with True show ?thesis by simp
  next
    case False
    then have rem: "removed_by ?cy pd" using obs not_fresh_unavailable [OF inv] by (simp add: removed_by_def)
    have "cy_states (observe_cycle w now rt) (ds_id pd) = None"
      using rem assms(3) by (auto simp: observe_cycle_states)
    then have st: "rt_domain_states rt' (ds_id pd) = None" by (simp add: s(2) publish_def refresh_cycle_def)
    obtain e where e: "e \<in> set (cy_events (fold (keep_or_remove now) (sn_domains (rt_current_snapshot rt)) ?cy))"
      "ev_type e = Ev_DomainRemoved" "ev_domain e = Some (ds_id pd)"
      using removed_event [OF assms(3) rem] by blast
    then have "e \<in> set (cy_events (observe_cycle w now rt))"
      using appends_set [OF appends_settle] unfolding observe_cycle_def interpreted_def by blast
    then have ev: "e \<in> set (refresh_events w now rt)"
      unfolding refresh_events_def refresh_cycle_def by (rule appends_set [OF appends_event_cycle])
    have "ds_id d \<noteq> ds_id pd" if d: "distinct (map ds_id (sn_domains (rt_current_snapshot rt)))" "d \<in> set (sn_domains snap)" for d
    proof
      assume same: "ds_id d = ds_id pd"
      obtain d0 where d0: "d0 \<in> set (settled w now rt)" "ds_id d0 = ds_id pd" using d(2) same unfolding dom by auto
      have "d0 \<notin> set (cy_domains ?cy)"
        using d0(2) assms(4) interpreted_fields(2) [of w now rt] by (metis image_eqI set_map)
      then obtain pd' where pd': "pd' \<in> set (sn_domains (rt_current_snapshot rt))" "kept_by ?cy pd'" "d0 = keeper now pd'"
        using d0(1) by (auto simp: settled_def)
      then have "pd' = pd" using d(1) d0(2) assms(3) by (auto simp: distinct_map inj_on_def)
      then show False using pd'(2) rem by (simp add: kept_by_def removed_by_def)
    qed
    with False st ev e show ?thesis by auto
  qed
qed

text \<open>
  C24. A domain of the previous snapshot that no provider observed in the cycle is never lost silently. If its provider
  threw, failed, is stale, unavailable or no longer registered, the new snapshot keeps the domain with its
  level and its committed bytes, marked stale and of low confidence. If its provider answered and no longer reports it,
  it is gone from the snapshot and from the runtime's states, and a removal event names it.
\<close>

theorem no_silent_loss:
  assumes "rt_reachable rt" "refresh w now rt = Some (calls, snap, rt')"
    and "pd \<in> set (sn_domains (rt_current_snapshot rt))" "ds_id pd \<notin> set (observed_ids (polled w rt))"
  shows "if unavailable w rt (ds_provider pd)
    then \<exists>d \<in> set (sn_domains snap). ds_id d = ds_id pd \<and> ds_level d = ds_level pd \<and> ds_committed d = ds_committed pd \<and>
      ds_validity d = Val_Stale \<and> ds_confidence d = Conf_Low
    else rt_domain_states rt' (ds_id pd) = None \<and>
      (\<exists>e \<in> set (refresh_events w now rt). ev_type e = Ev_DomainRemoved \<and> ev_domain e = Some (ds_id pd)) \<and>
      (distinct (map ds_id (sn_domains (rt_current_snapshot rt))) \<longrightarrow> (\<forall>d \<in> set (sn_domains snap). ds_id d \<noteq> ds_id pd))"
  by (rule unobserved_domain [OF rt_reachable_inv [OF assms(1)] assms(2-4)])

text \<open>A world in which one provider reports one domain, and the state after one refresh in it.\<close>

definition seen_world :: World where
  "seen_world = \<lparr>w_order = [provider_key ''p''],
     w_sample = (\<lambda>_. Inr \<lparr>sample_status = PS_Healthy,
       sample_observations = [DomainObservation_init\<lparr>obs_id := DomainId 1 2\<rparr>], sample_error = [], sampled_at_ms = 0\<rparr>),
     w_latency_us = 0\<rparr>"

lemma seen_state:
  "\<exists>(rt::PressureRuntime) calls (snap::Snapshot) (rt1::PressureRuntime). rt_reachable rt \<and>
     refresh seen_world 5 rt = Some (calls, snap, rt1) \<and> rt_reachable rt1 \<and> rt_current_snapshot rt1 = snap \<and>
     ds_id ` set (sn_domains snap) = {DomainId 1 2}"
proof -
  let ?rt = "register_provider (Some ''p'') PressureRuntime_new"
  have r: "rt_reachable ?rt" by (intro rt_reachable.step [OF rt_reachable.start rt_step.provider])
  have inv: "rt_inv ?rt" using r by (rule rt_reachable_inv)
  obtain calls snap rt1 where ref: "refresh seen_world 5 ?rt = Some (calls, snap, rt1)"
    using refresh_total [OF inv] by blast
  from refreshE [OF inv ref] obtain subs where
    s1: "snap = refresh_snapshot seen_world 5 ?rt" "rt1 = publish seen_world snap (refresh_cycle seen_world 5 ?rt) subs ?rt" by metis
  have s: "snap = refresh_snapshot seen_world 5 ?rt" "rt_current_snapshot rt1 = snap" by (fact s1(1)) (simp add: s1(2) publish_def)
  have p: "observed_ids (polled seen_world ?rt) = [DomainId 1 2]"
    by (simp add: observed_ids_def polled_def registered_def seen_world_def register_provider_def outcome_samples_def
        List.map_filter_simps)
  have e: "sn_domains (rt_current_snapshot ?rt) = []"
    by (simp add: register_provider_def PressureRuntime_new_def Snapshot_init_def)
  have "ds_id ` set (sn_domains snap) = set (map ds_id (cy_domains (interpreted seen_world 5 ?rt)))"
    by (simp add: s(1) observe_cycle_domains settled_def e image_image)
  then have "ds_id ` set (sn_domains snap) = {DomainId 1 2}" unfolding interpreted_fields(2) p by simp
  moreover have "rt_reachable rt1" using rt_reachable.step [OF r rt_step.refresh [OF ref]] .
  ultimately show ?thesis using r ref s(2) by blast
qed

lemma quiet_polled [simp]: "registered quiet_world rt = []" "polled quiet_world rt = []" "observed_ids [] = []"
  by (simp_all add: polled_def registered_def quiet_world_def List.map_filter_simps observed_ids_def)

lemma no_silent_loss_witness:
  "\<exists>(rt1::PressureRuntime) calls (snap::Snapshot) rt' d. refresh quiet_world 9 rt1 = Some (calls, snap, rt') \<and> rt_reachable rt1 \<and>
     d \<in> set (sn_domains snap) \<and> ds_id d = DomainId 1 2 \<and> ds_validity d = Val_Stale"
proof -
  obtain rt1 pd where r: "rt_reachable rt1" and pd: "pd \<in> set (sn_domains (rt_current_snapshot rt1))" "ds_id pd = DomainId 1 2"
    using seen_state by (metis imageE insertI1)
  obtain calls snap rt' where ref: "refresh quiet_world 9 rt1 = Some (calls, snap, rt')"
    using refresh_total [OF rt_reachable_inv [OF r]] by blast
  have "unavailable quiet_world rt1 (ds_provider pd)" by (simp add: unavailable_def)
  with no_silent_loss [OF r ref pd(1)] pd(2) have
    "\<exists>d \<in> set (sn_domains snap). ds_id d = DomainId 1 2 \<and> ds_validity d = Val_Stale" by auto
  with r ref show ?thesis by blast
qed

text \<open>A domain that the previous snapshot does not know is announced.\<close>

lemma announced_event:
  assumes "d \<in> set ds" "find_domain (ds_id d) prev = None"
  shows "\<exists>e \<in> set (cy_events (fold (announce now prev) ds cy)). ev_type e = Ev_DomainAdded \<and> ev_domain e = Some (ds_id d)"
  using assms
proof (induction ds arbitrary: cy)
  case (Cons x ds)
  show ?case
  proof (cases "x = d")
    case True
    then have "\<exists>e \<in> set (cy_events (announce now prev x cy)). ev_type e = Ev_DomainAdded \<and> ev_domain e = Some (ds_id d)"
      using Cons.prems(2) by (simp add: announce_def)
    then show ?thesis using appends_set [OF appends_folds(2)] by fastforce
  next
    case False
    then show ?thesis using Cons by simp
  qed
qed simp

lemma first_refresh_announces:
  assumes "rt_inv rt" "refresh w now rt = Some (calls, snap, rt')" "sn_domains (rt_current_snapshot rt) = []"
    and "i \<in> set (observed_ids (polled w rt))"
  shows "\<exists>e \<in> set (refresh_events w now rt). ev_type e = Ev_DomainAdded \<and> ev_domain e = Some i"
proof -
  obtain d where d: "d \<in> set (cy_domains (interpreted w now rt))" "ds_id d = i"
    using assms(4) unfolding interpreted_fields(2) [of w now rt, symmetric] by auto
  have "find_domain (ds_id d) (rt_current_snapshot rt) = None" using assms(3) by (simp add: find_domain_def)
  moreover have "cy_events (observe_cycle w now rt) = cy_events (fold (announce now (rt_current_snapshot rt))
      (cy_domains (interpreted w now rt)) (interpreted w now rt))"
    using assms(3) by (simp add: observe_cycle_def settle_domains_def interpreted_def Let_def)
  ultimately obtain e where e: "e \<in> set (cy_events (observe_cycle w now rt))" "ev_type e = Ev_DomainAdded" "ev_domain e = Some i"
    using announced_event [OF d(1)] d(2) by metis
  then show ?thesis
    unfolding refresh_events_def refresh_cycle_def using appends_set [OF appends_event_cycle] by blast
qed

text \<open>
  One provider, one subscription to everything and one that was closed: the refresh puts its events, among them the
  announcement of the provider's domain, into the queue of the first and nothing into that of the second.
\<close>

definition watched_runtime :: PressureRuntime where
  "watched_runtime = close_subscription 1 (snd (subscribe every_event False
     (snd (subscribe every_event False (register_provider (Some ''p'') PressureRuntime_new)))))"

lemma watched_runtime_facts:
  "rt_reachable watched_runtime" "sn_domains (rt_current_snapshot watched_runtime) = []"
  "observed_ids (polled seen_world watched_runtime) = [DomainId 1 2]"
  "rt_subscriptions watched_runtime =
     [Subscription_new every_event 256 DropOldest False, sub_close (Subscription_new every_event 256 DropOldest False)]"
proof -
  show "rt_reachable watched_runtime" unfolding watched_runtime_def
    by (intro rt_reachable.step [OF _ rt_step.close] rt_reachable.step [OF _ rt_step.subscribe]
        rt_reachable.step [OF rt_reachable.start rt_step.provider])
  show "sn_domains (rt_current_snapshot watched_runtime) = []" "rt_subscriptions watched_runtime =
     [Subscription_new every_event 256 DropOldest False, sub_close (Subscription_new every_event 256 DropOldest False)]"
    by (simp_all add: watched_runtime_def close_subscription_def update_subscription_def subscribe_def register_provider_def
        PressureRuntime_new_def Snapshot_init_def)
  show "observed_ids (polled seen_world watched_runtime) = [DomainId 1 2]"
    by (simp add: observed_ids_def polled_def registered_def seen_world_def watched_runtime_def close_subscription_def
        update_subscription_def subscribe_def register_provider_def PressureRuntime_new_def outcome_samples_def List.map_filter_simps)
qed

lemma delivery_witness:
  "\<exists>calls snap (rt'::PressureRuntime) e. refresh seen_world 5 watched_runtime = Some (calls, snap, rt') \<and>
    sub_queue (rt_subscriptions rt' ! 0) = take_last 256 (refresh_events seen_world 5 watched_runtime) \<and>
    e \<in> set (refresh_events seen_world 5 watched_runtime) \<and> ev_type e = Ev_DomainAdded \<and> ev_domain e = Some (DomainId 1 2) \<and>
    sub_queue (rt_subscriptions rt' ! 0) \<noteq> [] \<and> sub_queue (rt_subscriptions rt' ! 1) = []"
proof -
  note inv = rt_reachable_inv [OF watched_runtime_facts(1)]
  obtain calls snap rt' where ref: "refresh seen_world 5 watched_runtime = Some (calls, snap, rt')"
    using refresh_total [OF inv] by blast
  obtain e where e: "e \<in> set (refresh_events seen_world 5 watched_runtime)" "ev_type e = Ev_DomainAdded"
      "ev_domain e = Some (DomainId 1 2)"
    using first_refresh_announces [OF inv ref watched_runtime_facts(2)] watched_runtime_facts(3) by auto
  have all: "sub_matches x (Subscription_new every_event 256 DropOldest False)" for x
    by (simp add: sub_matches_def Subscription_new_def every_event_def)
  have q: "sub_queue (rt_subscriptions rt' ! k) = take_last 256 (sub_queue (rt_subscriptions watched_runtime ! k) @
        filter (\<lambda>e. \<not> sub_closed (rt_subscriptions watched_runtime ! k) \<and> sub_matches e (rt_subscriptions watched_runtime ! k))
          (refresh_events seen_world 5 watched_runtime))" if "k < 2" for k
    using delivery [OF watched_runtime_facts(1) ref] that by (simp add: watched_runtime_facts(4))
  have "sub_queue (rt_subscriptions rt' ! 0) = take_last 256 (refresh_events seen_world 5 watched_runtime)"
    using q [of 0] by (simp add: watched_runtime_facts(4) all) (simp add: Subscription_new_def)
  moreover have "take_last 256 (refresh_events seen_world 5 watched_runtime) \<noteq> []"
    using e(1) by (cases "refresh_events seen_world 5 watched_runtime") (auto simp: take_last_def)
  moreover have "sub_queue (rt_subscriptions rt' ! 1) = []"
    using q [of 1] by (simp add: watched_runtime_facts(4)) (simp add: Subscription_new_def take_last_def)
  ultimately show ?thesis using ref e by (intro exI [of _ calls] exI [of _ snap] exI [of _ rt'] exI [of _ e]) simp
qed

end
