(* ===== verification/CrossTier.thy ===== *)
theory CrossTier imports RuntimeProps begin

text \<open>
  What a refresh concludes from the domains taken together: the aggregate level and score, the cross-tier
  rule for demotion requests, the relief that a response carries, and the transition and response events.
\<close>

section \<open>The aggregate level\<close>

lemma fold_max_ge:
  fixes g :: "'a \<Rightarrow> nat"
  shows "k \<le> fold (\<lambda>x m. if P x then max m (g x) else m) xs m \<longleftrightarrow> k \<le> m \<or> (\<exists>x \<in> set xs. P x \<and> k \<le> g x)"
  by (induction xs arbitrary: m) auto

lemma aggregate_sev_ge: "k \<le> aggregate_sev ds \<longleftrightarrow> k = 0 \<or> (\<exists>d \<in> set ds. k \<le> sev (ds_level d))"
  using fold_max_ge [of k "\<lambda>_. True" "\<lambda>d. sev (ds_level d)" ds 0] by (simp add: aggregate_sev_def)

lemma host_sev_ge: "k \<le> host_sev ds \<longleftrightarrow> k = 0 \<or> (\<exists>d \<in> set ds. is_hostlike (ds_type d) \<and> k \<le> sev (ds_level d))"
  using fold_max_ge [of k "\<lambda>d. is_hostlike (ds_type d)" "\<lambda>d. sev (ds_level d)" ds 0] by (simp add: host_sev_def)

lemma aggregate_level_sev: "ds \<noteq> [] \<Longrightarrow> sev (aggregate_level ds) = aggregate_sev ds \<and> aggregate_level ds \<noteq> PL_Unknown"
proof -
  assume "ds \<noteq> []"
  moreover have "aggregate_sev ds \<le> 4"
    using aggregate_sev_ge [of "aggregate_sev ds" ds] sev_le_4 by (metis le0 le_trans order_refl)
  ultimately show ?thesis by (auto simp: aggregate_level_def)
qed

lemma aggregate_sev_attained: "ds \<noteq> [] \<Longrightarrow> \<exists>d \<in> set ds. sev (ds_level d) = aggregate_sev ds"
proof -
  assume "ds \<noteq> []"
  then have "\<exists>d \<in> set ds. aggregate_sev ds \<le> sev (ds_level d)"
    using aggregate_sev_ge [of "aggregate_sev ds" ds] by (cases ds) auto
  moreover have "sev (ds_level d) \<le> aggregate_sev ds" if "d \<in> set ds" for d
    using that aggregate_sev_ge [of "sev (ds_level d)" ds] by blast
  ultimately show ?thesis by (meson antisym)
qed

lemma sev_inject: "l \<noteq> PL_Unknown \<Longrightarrow> l' \<noteq> PL_Unknown \<Longrightarrow> sev l = sev l' \<longleftrightarrow> l = l'"
  by (cases l; cases l') simp_all

lemma sev_le_rank: "l' \<noteq> PL_Unknown \<Longrightarrow> sev l \<le> sev l' \<Longrightarrow> severity_rank l \<le> severity_rank l'"
  by (cases l; cases l') simp_all

lemma refresh_aggregate [simp]:
  "sn_aggregate_level (refresh_snapshot w now rt) = aggregate_level (cy_domains (observe_cycle w now rt))"
  "sn_aggregate_score (refresh_snapshot w now rt) = aggregate_score (rt_policy rt) (cy_domains (observe_cycle w now rt))"
  by (simp_all add: refresh_snapshot_def refresh_draft_def draft_snapshot_def)

text \<open>
  C20. The aggregate level of a published snapshot is unknown exactly when it has no domain; otherwise it is the
  level of one of its domains, and no domain is at a more severe level.
\<close>

theorem aggregate_is_worst:
  assumes "rt_reachable rt" "refresh w now rt = Some (calls, snap, rt')"
  shows "if sn_domains snap = [] then sn_aggregate_level snap = PL_Unknown
    else (\<exists>d \<in> set (sn_domains snap). ds_level d = sn_aggregate_level snap) \<and>
      (\<forall>d \<in> set (sn_domains snap). severity_rank (ds_level d) \<le> severity_rank (sn_aggregate_level snap))"
proof -
  have inv: "rt_inv rt" using assms(1) by (rule rt_reachable_inv)
  let ?ds = "cy_domains (observe_cycle w now rt)"
  from refreshE [OF inv assms(2)] have s: "snap = refresh_snapshot w now rt" by metis
  have ok: "ds_level d \<noteq> PL_Unknown" if "d \<in> set ?ds" for d
    using observe_cycle_ok [OF inv, of w now] that by (auto simp: cycle_ok_def list_all_iff dom_ok_def)
  show ?thesis
  proof (cases "?ds = []")
    case False
    note agg = aggregate_level_sev [OF False]
    have "ds_level d = aggregate_level ?ds" if "d \<in> set ?ds" "sev (ds_level d) = aggregate_sev ?ds" for d
      using that agg ok sev_inject by metis
    moreover have "severity_rank (ds_level d) \<le> severity_rank (aggregate_level ?ds)" if "d \<in> set ?ds" for d
    proof -
      have "sev (ds_level d) \<le> sev (aggregate_level ?ds)" using that agg aggregate_sev_ge [of "sev (ds_level d)" ?ds] by auto
      then show ?thesis using agg by (intro sev_le_rank) simp_all
    qed
    ultimately show ?thesis using False aggregate_sev_attained [OF False] by (auto simp: s)
  qed (simp add: s aggregate_level_def)
qed

lemma aggregate_is_worst_witness:
  "\<exists>(rt::PressureRuntime) calls (snap::Snapshot) (rt1::PressureRuntime). refresh seen_world 5 rt = Some (calls, snap, rt1) \<and>
     sn_domains snap \<noteq> [] \<and> (\<exists>d \<in> set (sn_domains snap). ds_level d = sn_aggregate_level snap)"
proof -
  obtain rt calls and snap :: Snapshot and rt1 where s: "rt_reachable rt" "refresh seen_world 5 rt = Some (calls, snap, rt1)"
    "ds_id ` set (sn_domains snap) = {DomainId 1 2}" using seen_state by blast
  then have "sn_domains snap \<noteq> []" by auto
  with aggregate_is_worst [OF s(1,2)] s(2) show ?thesis by auto
qed

section \<open>The demotion rule\<close>

text \<open>Demotion to the host is pointless: no host memory is observed, or some of it is itself under critical pressure.\<close>

definition host_saturated :: "DomainState list \<Rightarrow> bool" where
  "host_saturated ds \<longleftrightarrow> (\<forall>h \<in> set ds. \<not> is_hostlike (ds_type h)) \<or>
     (\<exists>h \<in> set ds. is_hostlike (ds_type h) \<and> ds_level h \<in> {PL_Critical, PL_Exhausted})"

lemma sev_ge_3: "3 \<le> sev l \<longleftrightarrow> l \<in> {PL_Critical, PL_Exhausted}"
  by (cases l) simp_all

lemma host_saturated_code: "(\<not> host_present ds \<or> sev PL_Critical \<le> host_sev ds) = host_saturated ds"
  by (auto simp: host_saturated_def host_present_def list_ex_iff host_sev_ge sev_ge_3)

lemma respond_host [simp]: "host_saturated (map (respond ds') ds) = host_saturated ds"
  by (auto simp: host_saturated_def)

lemma respond_responses: "ds_responses (respond ds d) =
    (if is_accelerator (ds_type d) \<and> host_saturated ds then filter (\<lambda>a. a \<noteq> RA_RequestDemotion) (initial_actions (ds_level d))
     else initial_actions (ds_level d))"
proof (cases "severity_rank PL_High \<le> severity_rank (ds_level d)")
  case True
  then show ?thesis using host_saturated_code [of ds] by (auto simp: respond_def Let_def)
next
  case False
  then have "filter (\<lambda>a. a \<noteq> RA_RequestDemotion) (initial_actions (ds_level d)) = initial_actions (ds_level d)"
    by (cases "ds_level d") simp_all
  with False show ?thesis by (simp add: respond_def Let_def)
qed

text \<open>
  C21. The cross-tier rule, over the snapshot itself: the responses of every published domain are the initial
  actions of its level, except that an accelerator loses its demotion request exactly when the host is saturated.
\<close>

theorem demotion_rule:
  assumes "rt_reachable rt" "refresh w now rt = Some (calls, snap, rt')" "d \<in> set (sn_domains snap)"
  shows "ds_responses d = (if is_accelerator (ds_type d) \<and> host_saturated (sn_domains snap)
      then filter (\<lambda>a. a \<noteq> RA_RequestDemotion) (initial_actions (ds_level d)) else initial_actions (ds_level d)) \<and>
    (RA_RequestDemotion \<in> set (ds_responses d) \<longleftrightarrow> ds_level d \<in> {PL_Critical, PL_Exhausted} \<and>
      \<not> (is_accelerator (ds_type d) \<and> host_saturated (sn_domains snap)))"
proof -
  from refreshE [OF rt_reachable_inv [OF assms(1)] assms(2)] have s: "snap = refresh_snapshot w now rt" by metis
  have ds: "sn_domains snap = map (respond (settled w now rt)) (settled w now rt)" by (simp add: s observe_cycle_domains)
  then obtain d0 where d: "d = respond (settled w now rt) d0" using assms(3) by auto
  have "RA_RequestDemotion \<in> set (initial_actions l) \<longleftrightarrow> l \<in> {PL_Critical, PL_Exhausted}" for l by (cases l) simp_all
  then show ?thesis by (simp add: d ds respond_responses)
qed

lemma demotion_rule_witness:
  "\<exists>(rt::PressureRuntime) calls (snap::Snapshot) (rt1::PressureRuntime). refresh seen_world 5 rt = Some (calls, snap, rt1) \<and>
     (\<exists>d \<in> set (sn_domains snap). RA_RequestDemotion \<in> set (ds_responses d) \<longleftrightarrow>
        ds_level d \<in> {PL_Critical, PL_Exhausted} \<and> \<not> (is_accelerator (ds_type d) \<and> host_saturated (sn_domains snap)))"
proof -
  obtain rt calls and snap :: Snapshot and rt1 where s: "rt_reachable rt" "refresh seen_world 5 rt = Some (calls, snap, rt1)"
    "ds_id ` set (sn_domains snap) = {DomainId 1 2}" using seen_state by blast
  then obtain d where d: "d \<in> set (sn_domains snap)" by (metis imageE insertI1)
  from demotion_rule [OF s(1,2) this] d s(2) show ?thesis by blast
qed

section \<open>The relief of a response\<close>

lemma no_demotion_relief: "relief_kind_of (initial_actions l) \<noteq> Some Relief_Demotion \<and>
    relief_kind_of (filter (\<lambda>a. a \<noteq> RA_RequestDemotion) (initial_actions l)) \<noteq> Some Relief_Demotion"
  by (cases l) (simp_all add: relief_kind_of_def)

text \<open>
  The relief request that the runtime derives for a domain of a published snapshot is never a demotion, even
  for a domain whose responses ask for one: the reclaim request that follows it in the list replaces it.
\<close>

lemma relief_never_demotes:
  assumes "rt_reachable rt" "refresh w now rt = Some (calls, snap, rt')"
  shows "case dr_relief (response_for i (rt_current_snapshot rt')) of Some r \<Rightarrow> is_reclaim r | None \<Rightarrow> True"
proof -
  from refreshE [OF rt_reachable_inv [OF assms(1)] assms(2)] obtain subs where
    s: "snap = refresh_snapshot w now rt" "rt' = publish w snap (refresh_cycle w now rt) subs rt" by metis
  then have cur: "rt_current_snapshot rt' = refresh_snapshot w now rt" by (simp add: publish_def)
  show ?thesis
  proof (cases "find_domain i (refresh_snapshot w now rt)")
    case None
    then show ?thesis by (simp add: cur response_for_def DomainResponse_init_def)
  next
    case (Some d)
    then have "d \<in> set (map (respond (settled w now rt)) (settled w now rt))"
      by (auto dest: find_domain_Some simp: observe_cycle_domains)
    then have "relief_kind_of (ds_responses d) \<noteq> Some Relief_Demotion"
      by (auto simp: respond_responses no_demotion_relief split: if_split_asm)
    then have "map_option rr_kind (dr_relief (response_for i (refresh_snapshot w now rt))) \<noteq> Some Relief_Demotion"
      using response_relief_kind [OF Some] by simp
    then show ?thesis unfolding cur by (auto simp: is_reclaim_def split: option.splits) (metis ReliefKind.exhaust)
  qed
qed

lemma relief_never_demotes_witness:
  "\<exists>(rt::PressureRuntime) calls (snap::Snapshot) (rt1::PressureRuntime). refresh seen_world 5 rt = Some (calls, snap, rt1) \<and>
     (case dr_relief (response_for (DomainId 1 2) (rt_current_snapshot rt1)) of Some r \<Rightarrow> is_reclaim r | None \<Rightarrow> True)"
proof -
  obtain rt calls and snap :: Snapshot and rt1 where s: "rt_reachable rt" "refresh seen_world 5 rt = Some (calls, snap, rt1)"
    "ds_id ` set (sn_domains snap) = {DomainId 1 2}" using seen_state by blast
  from relief_never_demotes [OF s(1,2), of "DomainId 1 2"] s(2) show ?thesis by blast
qed

section \<open>Transition events\<close>

text \<open>The announcement that a domain deserves, by its level in the previous snapshot and now.\<close>

definition transition_kind :: "PressureLevel \<Rightarrow> PressureLevel \<Rightarrow> PressureEventType option" where
  "transition_kind old new =
    (if old = new then None
     else if severity_rank old < severity_rank new
     then Some (if severity_rank old \<le> severity_rank PL_Normal then Ev_PressureEntered else Ev_PressureEscalated)
     else Some (if new = PL_Normal then Ev_PressureRecovered else Ev_PressureRelieved))"

definition transition_due :: "Snapshot \<Rightarrow> DomainState \<Rightarrow> (PressureEventType \<times> PressureDomainId option) list" where
  "transition_due prev d = (case find_domain (ds_id d) prev of None \<Rightarrow> []
     | Some pd \<Rightarrow> (case transition_kind (ds_level pd) (ds_level d) of None \<Rightarrow> [] | Some k \<Rightarrow> [(k, Some (ds_id d))]))"

definition signal_due :: "DomainState \<Rightarrow> ResponseAction \<Rightarrow> (PressureEventType \<times> PressureDomainId option) list" where
  "signal_due d a =
    (if a = RA_RequestReclaim then [(Ev_ReclaimRequested, Some (ds_id d))]
     else if a = RA_RequestDemotion then [(Ev_DemotionRequested, Some (ds_id d))]
     else if a = RA_ReduceAdmission \<or> a = RA_RejectNewWork then [(Ev_BackpressureIssued, Some (ds_id d))]
     else [])"

definition headers :: "PressureEvent list \<Rightarrow> (PressureEventType \<times> PressureDomainId option) list" where
  "headers es = map (\<lambda>e. (ev_type e, ev_domain e)) es"

lemma headers_simps [simp]: "headers [] = []" "headers (xs @ ys) = headers xs @ headers ys"
  by (simp_all add: headers_def)

lemma transition_event_headers:
  "headers (cy_events (transition_event g now prev d cy)) = headers (cy_events cy) @ transition_due prev d"
  by (auto simp: transition_event_def transition_due_def transition_kind_def headers_def split: option.splits)

lemma response_event_headers:
  "headers (cy_events (response_event g now d a cy)) = headers (cy_events cy) @ signal_due d a"
  by (auto simp: response_event_def signal_due_def headers_def)

lemma headers_fold:
  assumes "\<And>x c. headers (cy_events (f x c)) = headers (cy_events c) @ h x"
  shows "headers (cy_events (fold f xs cy)) = headers (cy_events cy) @ concat (map h xs)"
  by (induction xs arbitrary: cy) (simp_all add: assms)

lemma event_cycle_headers: "headers (cy_events (event_cycle prev draft g now cy)) = headers (cy_events cy) @
    (if diff_any (diff_snapshots prev draft) then [(Ev_GenerationChanged, None)] else []) @
    concat (map (transition_due prev) (sn_domains draft)) @
    concat (map (\<lambda>d. concat (map (signal_due d) (ds_responses d))) (sn_domains draft))"
  by (simp add: event_cycle_def Let_def response_events_def headers_fold transition_event_headers response_event_headers)
     (simp add: generation_event_def headers_def)

text \<open>The events of the observation half: providers, removed, kept and added domains.\<close>

definition early_event :: "PressureEvent \<Rightarrow> bool" where
  "early_event e \<longleftrightarrow> ev_type e \<in> {Ev_ProviderFailed, Ev_ProviderStale, Ev_DomainRemoved, Ev_DomainAdded}"

lemma early_stages:
  "list_all early_event (cy_events cy) \<Longrightarrow> list_all early_event (cy_events (poll_provider now name x cy))"
  "list_all early_event (cy_events cy) \<Longrightarrow> list_all early_event (cy_events (keep_or_remove now pd cy))"
  "list_all early_event (cy_events cy) \<Longrightarrow> list_all early_event (cy_events (announce now prev d cy))"
  by (auto simp: poll_provider_def keep_or_remove_cases announce_def early_event_def Let_def
      split: sum.splits ProviderStatus.splits)

lemma early_fold:
  assumes "\<And>x c. list_all early_event (cy_events c) \<Longrightarrow> list_all early_event (cy_events (f x c))"
  shows "list_all early_event (cy_events cy) \<Longrightarrow> list_all early_event (cy_events (fold f xs cy))"
  by (induction xs arbitrary: cy) (simp_all add: assms)

lemma interpret_all_events: "cy_events (interpret_all pol bm now cy) = cy_events cy"
  by (simp add: interpret_all_def interpret_outer)

lemma observe_cycle_early: "list_all early_event (cy_events (observe_cycle w now rt))"
proof -
  have "list_all early_event (cy_events (interpret_all (rt_policy rt) (rt_budgets rt) now (poll_all w now rt (cycle_start rt))))"
    unfolding interpret_all_events poll_all_def by (rule early_fold) (simp_all add: early_stages cycle_start_def)
  then show ?thesis unfolding observe_cycle_def settle_domains_def Let_def
    by (simp add: early_fold early_stages)
qed

text \<open>
  C19. After the events about providers and about added, kept and removed domains, a refresh announces, in this
  order: a new generation, if there is one; for every published domain that the previous snapshot had at another level, one
  event of the kind that the two levels call for; and one event for every reclaim, demotion or
  backpressure response of every domain. It emits nothing else.
\<close>

theorem announcements:
  assumes "rt_reachable rt" "refresh w now rt = Some (calls, snap, rt')"
  shows "\<exists>early. list_all early_event early \<and> early = take (length early) (refresh_events w now rt) \<and>
    headers (drop (length early) (refresh_events w now rt)) =
      (if sn_generation snap = rt_generation rt then [] else [(Ev_GenerationChanged, None)]) @
      concat (map (transition_due (rt_current_snapshot rt)) (sn_domains snap)) @
      concat (map (\<lambda>d. concat (map (signal_due d) (ds_responses d))) (sn_domains snap))"
proof -
  from refreshE [OF rt_reachable_inv [OF assms(1)] assms(2)] have s: "snap = refresh_snapshot w now rt" by metis
  let ?early = "cy_events (observe_cycle w now rt)" and ?prev = "rt_current_snapshot rt" and ?draft = "refresh_draft w now rt"
  obtain es where es: "refresh_events w now rt = ?early @ es"
    using appends_event_cycle unfolding refresh_events_def refresh_cycle_def appends_def by blast
  have "headers ?early @ headers es = headers (refresh_events w now rt)" by (simp add: es)
  also have "\<dots> = headers ?early @ (if diff_any (diff_snapshots ?prev ?draft) then [(Ev_GenerationChanged, None)] else []) @
      concat (map (transition_due ?prev) (sn_domains ?draft)) @
      concat (map (\<lambda>d. concat (map (signal_due d) (ds_responses d))) (sn_domains ?draft))"
    unfolding refresh_events_def refresh_cycle_def by (rule event_cycle_headers)
  finally have tail: "headers es = (if diff_any (diff_snapshots ?prev ?draft) then [(Ev_GenerationChanged, None)] else []) @
      concat (map (transition_due ?prev) (sn_domains ?draft)) @
      concat (map (\<lambda>d. concat (map (signal_due d) (ds_responses d))) (sn_domains ?draft))" by simp
  have g: "sn_generation snap = rt_generation rt \<longleftrightarrow> \<not> diff_any (diff_snapshots ?prev ?draft)"
    by (simp add: s refresh_generation_def next_generation_def)
  have d: "sn_domains snap = sn_domains ?draft" by (simp add: s refresh_snapshot_def)
  show ?thesis
    by (rule exI [of _ ?early]) (simp add: es tail observe_cycle_early g d)
qed

lemma announcements_witness:
  "\<exists>(rt::PressureRuntime) calls (snap::Snapshot) (rt1::PressureRuntime). refresh seen_world 5 rt = Some (calls, snap, rt1) \<and>
     (\<exists>early. list_all early_event early \<and> early = take (length early) (refresh_events seen_world 5 rt))"
proof -
  obtain rt calls and snap :: Snapshot and rt1 where s: "rt_reachable rt" "refresh seen_world 5 rt = Some (calls, snap, rt1)"
    "ds_id ` set (sn_domains snap) = {DomainId 1 2}" using seen_state by blast
  from announcements [OF s(1,2)] s(2) show ?thesis by blast
qed

end
