(* ===== verification/ScoreBounds.thy ===== *)
theory ScoreBounds imports CrossTier begin

text \<open>
  Bounds of the scores that a refresh publishes: with bounded weights and nonnegative failure counts no sum of
  the cycle overflows, and the score of every domain and of the aggregate is in \<open>[0,1]\<close>.
\<close>

section \<open>Sums that saturate\<close>

lemma rnd64_absorb:
  assumes "- 1000 \<le> k"
  shows "rnd64 (pow2 (k + 54) + pow2 k) = pow2 (k + 54)"
proof -
  let ?x = "pow2 (k + 54) + pow2 k"
  have pos: "0 < ?x" by (simp add: add_pos_pos)
  have b: "pow2 (k + 54) \<le> ?x" "?x < pow2 (k + 54 + 1)"
    using pow2_less_iff [of k "k + 54"] pow2_add [of "k + 54" 1] by simp_all
  have "ilog2 ?x = k + 54"
    using ilog2_bounds [OF pos] b pow2_less_iff by (smt (verit) order_le_less_trans)
  then have q: "qexp ?x = k + 2" using assms by (simp add: qexp_def)
  have "?x / pow2 (k + 2) = pow2 52 + 1 / 4"
    by (simp add: pow2_add field_simps) (simp add: pow2_def)
  moreover have "rne (pow2 52 + 1 / 4) = 2 ^ 52" by code_simp
  moreover have "rnd64 ?x = of_int (rne (?x / pow2 (k + 2))) * pow2 (k + 2)" using pos by (simp add: rnd64_pos rnd_pos_def q)
  moreover have "pow2 (k + 54) = of_int (2 ^ 52) * pow2 (k + 2)" using pow2_add [of 52 "k + 2"] by (simp add: pow2_nat add_ac)
  ultimately show ?thesis by metis
qed

text \<open>Adding at most \<open>2^k\<close> again and again never passes \<open>2^(k+54)\<close>: there the addition has no effect any more.\<close>

lemma rnd64_add_le:
  assumes "- 1000 \<le> k" "0 \<le> a" "a \<le> pow2 (k + 54)" "0 \<le> b" "b \<le> pow2 k"
  shows "0 \<le> rnd64 (a + b) \<and> rnd64 (a + b) \<le> pow2 (k + 54)"
proof -
  have "rnd64 (a + b) \<le> rnd64 (pow2 (k + 54) + pow2 k)" using assms by (intro rnd64_mono) simp
  then show ?thesis using assms by (simp add: rnd64_absorb rnd64_nonneg)
qed

section \<open>The scores of a refresh\<close>

definition role_weights_bounded :: "PressurePolicy \<Rightarrow> bool" where
  "role_weights_bounded pol \<longleftrightarrow>
     list_all (\<lambda>(r, w). dle (Fin 0) w \<and> dle w (Fin (pow2 900))) (role_weight (aggregate pol))"

lemma role_weight_for_bounded:
  assumes "role_weights_bounded pol" obtains w where "role_weight_for pol t = Fin w" "0 \<le> w" "w \<le> pow2 900"
proof -
  have one: "1 \<le> pow2 900" using pow2_mono [of 0 900] by simp
  have "\<exists>w. role_weight_for pol t = Fin w \<and> 0 \<le> w \<and> w \<le> pow2 900"
  proof (cases "sm_find (role_weight (aggregate pol)) (role_for t)")
    case None
    then show ?thesis using one by (simp add: role_weight_for_def)
  next
    case (Some v)
    then have "(role_for t, v) \<in> set (role_weight (aggregate pol))" by (rule sm_find_set)
    then have "dle (Fin 0) v" "dle v (Fin (pow2 900))"
      using assms by (auto simp: role_weights_bounded_def list_all_iff)
    then show ?thesis using Some by (cases v) (simp_all add: role_weight_for_def)
  qed
  then show ?thesis using that by blast
qed

lemma aggregate_sums_bounded:
  assumes "role_weights_bounded pol" "list_all (\<lambda>d. unit_double (ds_score d)) ds"
    and "0 \<le> n" "n \<le> pow2 954" "0 \<le> m" "m \<le> pow2 954"
  shows "\<exists>n' m'. fold (\<lambda>d (score, wsum). let rw = role_weight_for pol (ds_type d)
      in (dadd score (dmul (ds_score d) rw), dadd wsum rw)) ds (Fin n, Fin m) = (Fin n', Fin m') \<and> 0 \<le> n' \<and> 0 \<le> m'"
  using assms(2-)
proof (induction ds arbitrary: n m)
  case (Cons d ds)
  obtain w where w: "role_weight_for pol (ds_type d) = Fin w" "0 \<le> w" "w \<le> pow2 900"
    using role_weight_for_bounded [OF assms(1)] .
  obtain s where s: "ds_score d = Fin s" "0 \<le> s" "s \<le> 1" using Cons.prems(1) by (auto simp: unit_double_def)
  have p: "0 \<le> s * w" "s * w \<le> pow2 900" using s w mult_left_le_one_le [of w s] by auto
  then have mul: "fl (s * w) = Fin (rnd64 (s * w))" by (intro fl_pow2_Fin [where k = 900]) simp_all
  have q: "0 \<le> rnd64 (s * w)" "rnd64 (s * w) \<le> pow2 900" using p by (auto intro: rnd64_nonneg rnd64_pow2_le)
  have big: "x \<le> pow2 954 \<Longrightarrow> y \<le> pow2 900 \<Longrightarrow> x + y \<le> pow2 955" for x y
    using pow2_mono [of 900 954] pow2_add [of 954 1] by simp
  have add: "fl (n + rnd64 (s * w)) = Fin (rnd64 (n + rnd64 (s * w)))" "fl (m + w) = Fin (rnd64 (m + w))"
    using Cons.prems w q by (auto intro!: fl_pow2_Fin [where k = 955] big)
  have "0 \<le> rnd64 (n + rnd64 (s * w)) \<and> rnd64 (n + rnd64 (s * w)) \<le> pow2 954" "0 \<le> rnd64 (m + w) \<and> rnd64 (m + w) \<le> pow2 954"
    using rnd64_add_le [of 900 n "rnd64 (s * w)"] rnd64_add_le [of 900 m w] Cons.prems w q by simp_all
  then show ?case using Cons.IH [of "rnd64 (n + rnd64 (s * w))" "rnd64 (m + w)"] Cons.prems
    by (simp add: s w mul add)
qed simp

lemma aggregate_score_unit:
  assumes "role_weights_bounded pol" "list_all (\<lambda>d. unit_double (ds_score d)) ds"
  shows "unit_double (aggregate_score pol ds)"
proof -
  obtain n m where s: "aggregate_sums pol ds = (Fin n, Fin m)" "0 \<le> n" "0 \<le> m"
    using aggregate_sums_bounded [OF assms, of 0 0] unfolding aggregate_sums_def by auto
  show ?thesis
  proof (cases "0 < m")
    case True
    then show ?thesis by (simp add: aggregate_score_def s clamp01_range)
  next
    case False
    then show ?thesis by (simp add: aggregate_score_def s unit_double_def)
  qed
qed

section \<open>The domains\<close>

lemma score_observation_unit:
  assumes "list_all weight_bounded (score_weights (weights pol))" "0 \<le> sint (obs_allocation_failures obs)"
    and "unit_double (te_confidence te)"
  shows "unit_double (ps_value (score_observation pol g usable obs te))"
proof -
  have nan: "utilization_for c u \<noteq> NaN" "free_fraction_for a u \<noteq> NaN" "reserve_deficit_for c u \<noteq> NaN" for a c u
  proof -
    show "utilization_for c u \<noteq> NaN" "free_fraction_for a u \<noteq> NaN"
      by (auto simp: utilization_for_def free_fraction_for_def ratio_u64_not_NaN)
    have "max u 1 \<noteq> 0" by (cases "u = 0") (auto simp: max_def word_le_nat_alt)
    then have "clamp01 (ddiv (of_u64 (c - u)) (of_u64 (max u 1))) \<noteq> NaN"
      using ratio_u64_not_NaN clamp01_range unit_double_not_NaN by metis
    then show "reserve_deficit_for c u \<noteq> NaN" by (simp add: reserve_deficit_for_def)
  qed
  obtain q where q: "te_confidence te = Fin q" using assms(3) by (auto simp: unit_double_def)
  then have "growth_factor_for te \<noteq> NaN"
    using fl_in_unit [of "2/10"] by (auto simp: growth_factor_for_def unit_double_def)
  then have "list_all unit_double (score_components (score_domain (utilization_for (obs_committed obs) usable) g
      (free_fraction_for (available_for (obs_committed obs) usable) usable)
      (reserve_deficit_for (obs_committed obs) usable) (growth_factor_for te)
      (obs_allocation_failures obs) (obs_confidence obs) (obs_validity obs) (weights pol)))"
    using nan assms(2) by (intro score_components_unit)
  from score_domain_mono [OF assms(1) this this list_all2_dle_refl [OF this]] show ?thesis
    unfolding score_observation_def by (rule conjunct1)
qed

definition scored :: "PressurePolicy \<Rightarrow> u64 \<Rightarrow> Cycle \<Rightarrow> bool" where
  "scored pol n cy \<longleftrightarrow> cycle_ok pol n cy \<and> list_all (\<lambda>d. unit_double (ds_score d)) (cy_domains cy)"

lemma interpret_observation_scored:
  assumes "scored pol n cy" "list_all weight_bounded (score_weights (weights pol))" "0 \<le> sint (obs_allocation_failures obs)"
  shows "scored pol n (interpret_observation pol bm now prov obs cy)"
proof -
  obtain bud g where b: "governing_budget bm (obs_id obs) = (bud, g)" by fastforce
  let ?st = "advance_domain pol bud g now obs (touch_domain pol obs (cy_states cy))"
  have "drs_ok pol ?st" using assms(1) by (intro advance_domain_ok touch_domain_ok) (simp add: scored_def cycle_ok_def)
  then have "unit_double (te_confidence (trend_estimate (drs_trend ?st)))"
    using trend_estimate_ok [of 16 "drs_trend ?st"] by (simp add: drs_ok_def)
  from score_observation_unit [OF assms(2,3) this]
  have "unit_double (ds_score (publish_domain pol bud g now prov obs lv ?st))" for lv
    by (simp add: publish_domain_def Let_def)
  moreover have "cy_domains (interpret_observation pol bm now prov obs cy) = cy_domains cy @
      [publish_domain pol bud g now prov obs (hs_level (drs_hysteresis (touch_domain pol obs (cy_states cy)))) ?st]"
    by (simp add: interpret_observation_def b Let_def)
  ultimately show ?thesis using assms(1) interpret_observation_ok unfolding scored_def by simp
qed

definition failures_nonneg :: "(string \<times> DomainObservation list) list \<Rightarrow> bool" where
  "failures_nonneg all = list_all (\<lambda>(p, os). list_all (\<lambda>obs. 0 \<le> sint (obs_allocation_failures obs)) os) all"

lemma interpret_all_scored:
  assumes "scored pol n cy" "list_all weight_bounded (score_weights (weights pol))" "failures_nonneg (cy_all cy)"
  shows "scored pol n (interpret_all pol bm now cy)"
proof -
  have inner: "scored pol n (fold (interpret_observation pol bm now prov) os c)"
    if "scored pol n c" "list_all (\<lambda>obs. 0 \<le> sint (obs_allocation_failures obs)) os" for prov os c
    using that by (induction os arbitrary: c) (simp_all add: interpret_observation_scored assms(2))
  have "scored pol n (fold (\<lambda>(prov, obs). fold (interpret_observation pol bm now prov) obs) all c)"
    if "scored pol n c" "failures_nonneg all" for all c
    using that by (induction all arbitrary: c) (auto simp: inner failures_nonneg_def)
  then show ?thesis unfolding interpret_all_def using assms by blast
qed

text \<open>
  C9. The scores of a refresh are normalized: when the domain weights are at most \<open>2^1000\<close>, the role weights are
  nonnegative and at most \<open>2^900\<close>, no observed failure count is negative and the previous snapshot's scores are in
  \<open>[0,1]\<close>, then so are the score of every published domain and the aggregate score, however many domains there are.
\<close>

theorem scores_normalized:
  assumes "rt_reachable rt" "refresh w now rt = Some (calls, snap, rt')"
    and "list_all weight_bounded (score_weights (weights (rt_policy rt)))" "role_weights_bounded (rt_policy rt)"
    and "failures_nonneg (polled w rt)" "list_all (\<lambda>d. unit_double (ds_score d)) (sn_domains (rt_current_snapshot rt))"
  shows "list_all (\<lambda>d. unit_double (ds_score d)) (sn_domains snap) \<and> unit_double (sn_aggregate_score snap)"
proof -
  have inv: "rt_inv rt" using assms(1) by (rule rt_reachable_inv)
  from refreshE [OF inv assms(2)] have s: "snap = refresh_snapshot w now rt" by metis
  have poll: "scored (rt_policy rt) (rt_event_id rt) (poll_all w now rt (cycle_start rt))"
    using poll_all_ok [OF cycle_start_ok [OF inv]] by (simp add: scored_def poll_all_def poll_fold cycle_start_def)
  have "cy_all (poll_all w now rt (cycle_start rt)) = polled w rt"
    by (simp add: poll_all_def poll_fold polled_def cycle_start_def)
  then have "scored (rt_policy rt) (rt_event_id rt) (interpreted w now rt)"
    unfolding interpreted_def using interpret_all_scored [OF poll assms(3)] assms(5) by simp
  then have "list_all (\<lambda>d. unit_double (ds_score d)) (settled w now rt)"
    using assms(6) by (auto simp: settled_def scored_def list_all_iff)
  then have "list_all (\<lambda>d. unit_double (ds_score d)) (sn_domains snap)"
    by (simp add: s observe_cycle_domains list_all_iff)
  then show ?thesis using aggregate_score_unit [OF assms(4)] by (simp add: s)
qed

lemma scores_normalized_witness:
  "\<exists>calls (snap::Snapshot) rt'. refresh seen_world 5 (register_provider (Some ''p'') PressureRuntime_new) = Some (calls, snap, rt') \<and>
     unit_double (sn_aggregate_score snap)"
proof -
  let ?rt = "register_provider (Some ''p'') PressureRuntime_new"
  have r: "rt_reachable ?rt" by (intro rt_reachable.step [OF rt_reachable.start rt_step.provider])
  obtain calls snap rt' where ref: "refresh seen_world 5 ?rt = Some (calls, snap, rt')"
    using refresh_total [OF rt_reachable_inv [OF r]] by blast
  have "rt_policy ?rt = default_policy" "sn_domains (rt_current_snapshot ?rt) = []"
    "polled seen_world ?rt = [(''p'', [DomainObservation_init\<lparr>obs_id := DomainId 1 2\<rparr>])]"
    by (simp_all add: register_provider_def PressureRuntime_new_def Snapshot_init_def polled_def registered_def
        seen_world_def List.map_filter_simps outcome_samples_def)
  with scores_normalized [OF r ref] weight_bounded_init ref show ?thesis
    by (simp add: failures_nonneg_def role_weights_bounded_def default_policy_def PressurePolicy_init_def
        AggregateConfig_init_def DomainObservation_init_def)
qed

end
