(* ===== verification/JsonNumbers.thy ===== *)
theory JsonNumbers imports Decimal begin

text \<open>
  Numbers in JSON text: the scanner of \<open>parse_number\<close> in json.cpp, and the parts of the standard
  library that json.cpp calls, \<open>std::from_chars\<close> and \<open>std::to_chars\<close> (the shortest form in the
  \<open>general\<close> format, and the decimal form of an integer). The position in the text is the rest of the text.
\<close>

section \<open>Reading characters\<close>

text \<open>\<open>peek\<close> is the null character at the end of the text; \<open>get\<close> stays there.\<close>

definition peek :: "string \<Rightarrow> char" where
  "peek s = (if s = [] then CHR 0x00 else hd s)"

definition is_digit :: "char \<Rightarrow> bool" where
  "is_digit c \<longleftrightarrow> CHR ''0'' \<le> c \<and> c \<le> CHR ''9''"

definition is_digit19 :: "char \<Rightarrow> bool" where
  "is_digit19 c \<longleftrightarrow> CHR ''1'' \<le> c \<and> c \<le> CHR ''9''"

text \<open>The grammar check of \<open>parse_number\<close>: the text after the token, when the token is well formed.\<close>

definition scan_integer :: "string \<Rightarrow> string option" where
  "scan_integer s = (if s = [] then None
     else if peek s = CHR ''0'' then Some (tl s)
     else if is_digit19 (peek s) then Some (dropWhile is_digit s)
     else None)"

definition scan_fraction :: "string \<Rightarrow> string option" where
  "scan_fraction s = (if s \<noteq> [] \<and> peek s = CHR ''.''
     then (if tl s = [] \<or> \<not> is_digit (peek (tl s)) then None else Some (dropWhile is_digit (tl s)))
     else Some s)"

definition scan_exponent :: "string \<Rightarrow> string option" where
  "scan_exponent s = (if s \<noteq> [] \<and> (peek s = CHR ''e'' \<or> peek s = CHR ''E'')
     then (let r = (if tl s \<noteq> [] \<and> (peek (tl s) = CHR ''+'' \<or> peek (tl s) = CHR ''-'') then tl (tl s) else tl s)
           in if r = [] \<or> \<not> is_digit (peek r) then None else Some (dropWhile is_digit r))
     else Some s)"

definition scan_number :: "string \<Rightarrow> string option" where
  "scan_number s =
    (case scan_integer (if peek s = CHR ''-'' then tl s else s) of None \<Rightarrow> None
     | Some r \<Rightarrow> (case scan_fraction r of None \<Rightarrow> None | Some r' \<Rightarrow> scan_exponent r'))"

section \<open>\<open>std::from_chars\<close>\<close>

definition char_digit :: "char \<Rightarrow> nat" where
  "char_digit c = of_char c - 48"

definition digits_val :: "string \<Rightarrow> nat" where
  "digits_val ds = fold (\<lambda>c n. 10 * n + char_digit c) ds 0"

definition pow10 :: "int \<Rightarrow> rat" where
  "pow10 e = (if 0 \<le> e then 10 ^ nat e else 1 / 10 ^ nat (- e))"

text \<open>
  The nearest double, unless it is out of range: an overflow, or a nonzero value that rounds to zero.
\<close>

definition in_range :: "rat \<Rightarrow> double option" where
  "in_range x = (let d = fl x in if isfinite d \<and> (d = Fin 0 \<longrightarrow> x = 0) then Some d else None)"

text \<open>
  The pattern of \<open>chars_format::general\<close> (an optional minus sign, digits with an optional point, an
  exponent where one is complete) with the text that is left. The names for infinity
  and NaN are left out: the caller's token starts with a digit.
\<close>

definition chars_exponent :: "string \<Rightarrow> int \<times> string" where
  "chars_exponent s = (if peek s = CHR ''e'' \<or> peek s = CHR ''E''
     then (let neg = (peek (tl s) = CHR ''-'');
               r = (if neg \<or> peek (tl s) = CHR ''+'' then tl (tl s) else tl s);
               ds = takeWhile is_digit r
           in if ds = [] then (0, s)
              else (if neg then - int (digits_val ds) else int (digits_val ds), dropWhile is_digit r))
     else (0, s))"

definition from_chars :: "string \<Rightarrow> (double \<times> string) option" where
  "from_chars s =
    (let neg = (peek s = CHR ''-'');
         s0 = (if neg then tl s else s);
         ip = takeWhile is_digit s0; r1 = dropWhile is_digit s0;
         point = (peek r1 = CHR ''.'');
         fp = (if point then takeWhile is_digit (tl r1) else []);
         r2 = (if point then dropWhile is_digit (tl r1) else r1)
     in if ip = [] \<and> fp = [] then None
        else (case chars_exponent r2 of (e, r3) \<Rightarrow>
          let x = of_nat (digits_val (ip @ fp)) * pow10 (e - int (length fp))
          in map_option (\<lambda>d. (d, r3)) (in_range (if neg then - x else x))))"

text \<open>\<open>parse_number\<close>: the double and the rest of the text. With \<open>reject\<close> a value that is not finite fails.\<close>

definition parse_number :: "bool \<Rightarrow> string \<Rightarrow> (double \<times> string) option" where
  "parse_number reject s =
    (case scan_number s of None \<Rightarrow> None
     | Some r \<Rightarrow>
         (case from_chars (take (length s - length r) s) of None \<Rightarrow> None
          | Some (d, left) \<Rightarrow>
              if left \<noteq> [] then None
              else if \<not> isfinite d \<and> reject then None
              else Some (d, r)))"

section \<open>\<open>std::to_chars\<close>\<close>

text \<open>A number text from its parts: sign, integer digits, fraction digits, exponent (sign and digits).\<close>

definition num_text :: "bool \<Rightarrow> string \<Rightarrow> string \<Rightarrow> (char \<times> string) option \<Rightarrow> string" where
  "num_text neg ip fp ex = (if neg then ''-'' else []) @ ip @ (if fp = [] then [] else CHR ''.'' # fp) @
     (case ex of None \<Rightarrow> [] | Some (sg, ds) \<Rightarrow> CHR ''e'' # sg # ds)"

definition int_to_chars :: "int \<Rightarrow> string" where
  "int_to_chars i = num_text (i < 0) (dec (nat \<bar>i\<bar>)) [] None"

text \<open>
  The shortest digits that read back as the positive \<open>r\<close>: the largest exponent \<open>q\<close> at which one of the
  two multiples of \<open>10^q\<close> around \<open>r\<close>, the nearer one first, rounds to \<open>r\<close>.
\<close>

definition candidates :: "rat \<Rightarrow> int list" where
  "candidates y = (let f = \<lfloor>y\<rfloor> in if 2 * (y - of_int f) \<le> 1 then [f, f + 1] else [f + 1, f])"

definition reads_back :: "rat \<Rightarrow> int \<Rightarrow> int \<Rightarrow> bool" where
  "reads_back r q m \<longleftrightarrow> 0 < m \<and> in_range (of_int m * pow10 q) = Some (Fin r)"

fun shortest :: "nat \<Rightarrow> int \<Rightarrow> rat \<Rightarrow> nat \<times> int" where
  "shortest 0 q r = (0, q)"
| "shortest (Suc n) q r =
    (case find (reads_back r q) (candidates (r / pow10 q)) of
       Some m \<Rightarrow> (nat m, q)
     | None \<Rightarrow> shortest n (q - 1) r)"

text \<open>The \<open>general\<close> format: scientific unless the decimal exponent is from -4 to 5.\<close>

definition fixed_text :: "bool \<Rightarrow> string \<Rightarrow> int \<Rightarrow> string" where
  "fixed_text neg D q =
    (if 0 \<le> q then num_text neg (D @ replicate (nat q) CHR ''0'') [] None
     else let k = nat (- q) in
       if k < length D then num_text neg (take (length D - k) D) (drop (length D - k) D) None
       else num_text neg ''0'' (replicate (k - length D) CHR ''0'' @ D) None)"

definition scientific_text :: "bool \<Rightarrow> string \<Rightarrow> int \<Rightarrow> string" where
  "scientific_text neg D x = num_text neg [hd D] (tl D)
     (Some (if x < 0 then CHR ''-'' else CHR ''+'', pad_left 2 (dec (nat \<bar>x\<bar>))))"

fun to_chars :: "double \<Rightarrow> string" where
  "to_chars (Fin r) =
    (if r = 0 then ''0''
     else case shortest 1384 309 \<bar>r\<bar> of (m, q) \<Rightarrow>
       let D = dec m; x = q + int (length D) - 1
       in if - 4 \<le> x \<and> x < 6 then fixed_text (r < 0) D q else scientific_text (r < 0) D x)"
| "to_chars x = double_to_string x"

end
