(* ===== verification/JsonStrings.thy ===== *)
theory JsonStrings imports Prelude begin

text \<open>
  Strings in JSON text, from json.cpp: the escapes, the UTF-8 encoder, \<open>parse_string\<close> with \<open>parse_unicode_escape\<close>,
  and the string case of \<open>serialize_to\<close>. A \<open>std::string\<close> is its list of bytes.
\<close>

section \<open>Code points\<close>

text \<open>\<open>static_cast<char>\<close> of a code unit keeps the low byte.\<close>

definition byte :: "u32 \<Rightarrow> char" where
  "byte w = char_of (unat w)"

definition append_utf8 :: "u32 \<Rightarrow> string" where
  "append_utf8 cp =
    (if cp \<le> 0x7F then [byte cp]
     else if cp \<le> 0x7FF then [byte (0xC0 OR drop_bit 6 cp), byte (0x80 OR (cp AND 0x3F))]
     else if cp \<le> 0xFFFF then
       [byte (0xE0 OR drop_bit 12 cp), byte (0x80 OR (drop_bit 6 cp AND 0x3F)), byte (0x80 OR (cp AND 0x3F))]
     else
       [byte (0xF0 OR drop_bit 18 cp), byte (0x80 OR (drop_bit 12 cp AND 0x3F)),
        byte (0x80 OR (drop_bit 6 cp AND 0x3F)), byte (0x80 OR (cp AND 0x3F))])"

definition hex_value :: "char \<Rightarrow> int" where
  "hex_value c = (let n = int (of_char c) in
     if 48 \<le> n \<and> n \<le> 57 then n - 48
     else if 97 \<le> n \<and> n \<le> 102 then n - 97 + 10
     else if 65 \<le> n \<and> n \<le> 70 then n - 65 + 10
     else - 1)"

section \<open>Escapes\<close>

text \<open>One lower case digit of \<open>%04x\<close>.\<close>

definition escape_digit :: "nat \<Rightarrow> char" where
  "escape_digit n = (if n < 10 then char_of (48 + n) else char_of (87 + n))"

definition append_json_escape :: "char \<Rightarrow> string" where
  "append_json_escape c =
    (if c = CHR 0x22 then [CHR 0x5C, CHR 0x22]
     else if c = CHR 0x5C then [CHR 0x5C, CHR 0x5C]
     else if c = CHR 0x08 then [CHR 0x5C, CHR ''b'']
     else if c = CHR 0x0C then [CHR 0x5C, CHR ''f'']
     else if c = CHR 0x0A then [CHR 0x5C, CHR ''n'']
     else if c = CHR 0x0D then [CHR 0x5C, CHR ''r'']
     else if c = CHR 0x09 then [CHR 0x5C, CHR ''t'']
     else [CHR 0x5C, CHR ''u'', CHR ''0'', CHR ''0'', escape_digit (of_char c div 16), escape_digit (of_char c mod 16)])"

text \<open>The string case of \<open>serialize_to\<close>.\<close>

definition serialize_char :: "char \<Rightarrow> string" where
  "serialize_char c =
    (if (of_char c :: nat) < 0x20 then append_json_escape c
     else if c = CHR 0x22 \<or> c = CHR 0x5C then append_json_escape c
     else [c])"

definition serialize_string :: "string \<Rightarrow> string" where
  "serialize_string s = CHR 0x22 # concat (map serialize_char s) @ [CHR 0x22]"

section \<open>The parser\<close>

text \<open>Four hexadecimal digits, accumulated as the loop does.\<close>

fun hex_loop :: "nat \<Rightarrow> u32 \<Rightarrow> string \<Rightarrow> (u32 \<times> string) option" where
  "hex_loop 0 cp s = Some (cp, s)"
| "hex_loop (Suc k) cp [] = None"
| "hex_loop (Suc k) cp (c # s) =
    (let h = hex_value c in if h < 0 then None else hex_loop k (push_bit 4 cp OR word_of_int h) s)"

definition parse_unicode_escape :: "string \<Rightarrow> (string \<times> string) option" where
  "parse_unicode_escape s =
    (case hex_loop 4 0 s of None \<Rightarrow> None
     | Some (cp, r) \<Rightarrow>
       if 0xD800 \<le> cp \<and> cp \<le> 0xDBFF then
         (if length r \<le> 1 \<or> r ! 0 \<noteq> CHR 0x5C \<or> r ! 1 \<noteq> CHR ''u'' then None
          else (case hex_loop 4 0 (drop 2 r) of None \<Rightarrow> None
            | Some (lo, r') \<Rightarrow>
              if lo < 0xDC00 \<or> 0xDFFF < lo then None
              else Some (append_utf8 (0x10000 + push_bit 10 (cp - 0xD800) + (lo - 0xDC00)), r')))
       else if 0xDC00 \<le> cp \<and> cp \<le> 0xDFFF then None
       else Some (append_utf8 cp, r))"

text \<open>The \<open>switch\<close> on the character after a backslash: the bytes that are appended, and the rest.\<close>

definition parse_escape :: "string \<Rightarrow> (string \<times> string) option" where
  "parse_escape s =
    (if s = [] then None
     else let e = hd s; r = tl s in
       if e = CHR 0x22 then Some ([CHR 0x22], r)
       else if e = CHR 0x5C then Some ([CHR 0x5C], r)
       else if e = CHR ''/'' then Some ([CHR ''/''], r)
       else if e = CHR ''b'' then Some ([CHR 0x08], r)
       else if e = CHR ''f'' then Some ([CHR 0x0C], r)
       else if e = CHR ''n'' then Some ([CHR 0x0A], r)
       else if e = CHR ''r'' then Some ([CHR 0x0D], r)
       else if e = CHR ''t'' then Some ([CHR 0x09], r)
       else if e = CHR ''u'' then parse_unicode_escape r
       else None)"

lemma hex_loop_length: "hex_loop k cp s = Some (v, r) \<Longrightarrow> length s = length r + k"
  by (induction k cp s rule: hex_loop.induct) (auto simp: Let_def split: if_splits)

lemma parse_unicode_escape_length: "parse_unicode_escape s = Some (bs, r) \<Longrightarrow> length r < length s"
  by (auto simp: parse_unicode_escape_def Let_def split: option.splits if_splits dest!: hex_loop_length)

lemma parse_escape_length: "parse_escape s = Some (bs, r) \<Longrightarrow> length r < length s"
  by (cases s) (auto simp: parse_escape_def Let_def split: if_splits dest!: parse_unicode_escape_length)

text \<open>One turn of the loop: a plain character or an escape.\<close>

definition parse_char :: "string \<Rightarrow> (string \<times> string) option" where
  "parse_char s =
    (if (of_char (hd s) :: nat) < 0x20 then None
     else if hd s = CHR 0x5C then parse_escape (tl s)
     else Some ([hd s], tl s))"

lemma parse_char_length: "s \<noteq> [] \<Longrightarrow> parse_char s = Some (bs, r) \<Longrightarrow> length r < length s"
  by (cases s) (auto simp: parse_char_def split: if_splits dest!: parse_escape_length)

function parse_chars :: "nat \<Rightarrow> string \<Rightarrow> string \<Rightarrow> (string \<times> string) option" where
  "parse_chars max_string str s =
    (if s = [] then None
     else if hd s = CHR 0x22 then Some (str, tl s)
     else case parse_char s of None \<Rightarrow> None
       | Some (bs, r) \<Rightarrow>
           if max_string < length (str @ bs) then None else parse_chars max_string (str @ bs) r)"
  by pat_completeness auto
termination by (relation "measure (\<lambda>(m, str, s). length s)") (auto dest: parse_char_length)

declare parse_chars.simps [simp del]

text \<open>\<open>parse_string\<close> at a given depth; the opening quote is skipped unseen, as in the code.\<close>

definition parse_string :: "nat \<Rightarrow> nat \<Rightarrow> nat \<Rightarrow> string \<Rightarrow> (string \<times> string) option" where
  "parse_string max_depth max_string depth s =
    (if max_depth \<le> depth then None else parse_chars max_string [] (tl s))"

section \<open>What is printed reads back\<close>

lemma hex_value_digit: "k < 16 \<Longrightarrow> hex_value (escape_digit k) = int k"
  by (simp add: hex_value_def escape_digit_def Let_def)

lemma escape_digit_0: "CHR ''0'' = escape_digit 0"
  by (simp add: escape_digit_def) code_simp

lemma hex_loop_digit: "k < 16 \<Longrightarrow> hex_loop (Suc n) cp (escape_digit k # s) = hex_loop n (push_bit 4 cp OR of_nat k) s"
  by (simp add: hex_value_digit Let_def)

lemma control_word: "list_all (\<lambda>n. push_bit 4 (of_nat (n div 16) :: u32) OR of_nat (n mod 16) = of_nat n) [0..<32]"
  by code_simp

lemma parse_unicode_control:
  assumes "n < 32"
  shows "parse_unicode_escape (CHR ''0'' # CHR ''0'' # escape_digit (n div 16) # escape_digit (n mod 16) # rest) = Some ([char_of n], rest)"
proof -
  have w: "push_bit 4 (of_nat (n div 16) :: u32) OR of_nat (n mod 16) = of_nat n"
    using control_word assms by (simp add: list_all_iff)
  have z: "hex_loop (Suc k) 0 (CHR ''0'' # s) = hex_loop k 0 s" for k s
    using hex_loop_digit [of 0 k 0 s] by (simp add: escape_digit_0 del: hex_loop.simps)
  have "n div 16 < 16" "n mod 16 < 16" using assms by auto
  then have "hex_loop (Suc (Suc (Suc (Suc 0)))) 0 (CHR ''0'' # CHR ''0'' # escape_digit (n div 16) # escape_digit (n mod 16) # rest) =
      hex_loop 0 (push_bit 4 (push_bit 4 0 OR of_nat (n div 16)) OR of_nat (n mod 16)) rest"
    by (simp only: z hex_loop_digit)
  moreover have "hex_loop 4 = hex_loop (Suc (Suc (Suc (Suc 0))))" by (rule arg_cong [of 4]) simp
  ultimately have "hex_loop 4 0 (CHR ''0'' # CHR ''0'' # escape_digit (n div 16) # escape_digit (n mod 16) # rest) = Some (of_nat n, rest)"
    by (simp add: w del: hex_loop.simps(3))
  moreover have "(of_nat n :: u32) \<le> 0x7F" "unat (of_nat n :: u32) = n"
    using assms by (simp_all add: word_le_nat_alt unat_of_nat)
  ultimately show ?thesis by (simp add: parse_unicode_escape_def append_utf8_def byte_def word_le_nat_alt)
qed

lemma parse_printed_escape:
  assumes "(of_char c :: nat) < 32 \<or> c = CHR 0x22 \<or> c = CHR 0x5C"
  shows "hd (append_json_escape c) = CHR 0x5C \<and> parse_escape (tl (append_json_escape c) @ rest) = Some ([c], rest)"
proof -
  have "parse_unicode_escape (CHR ''0'' # CHR ''0'' # escape_digit (of_char c div 16) # escape_digit (of_char c mod 16) # rest) = Some ([c], rest)"
    if "(of_char c :: nat) < 32"
    using parse_unicode_control [OF that, of rest] by simp
  with assms show ?thesis by (auto simp: append_json_escape_def parse_escape_def Let_def)
qed

lemma parse_serialize_char:
  "serialize_char c \<noteq> [] \<and> hd (serialize_char c) \<noteq> CHR 0x22 \<and> parse_char (serialize_char c @ rest) = Some ([c], rest)"
proof (cases "(of_char c :: nat) < 0x20 \<or> c = CHR 0x22 \<or> c = CHR 0x5C")
  case True
  obtain e es where e: "append_json_escape c = e # es" by (cases "append_json_escape c") (auto simp: append_json_escape_def split: if_splits)
  then show ?thesis using parse_printed_escape [of c rest] True by (auto simp: serialize_char_def parse_char_def)
next
  case False
  then show ?thesis by (simp add: serialize_char_def parse_char_def)
qed

lemma parse_chars_serialized:
  assumes "length (str @ s) \<le> max_string"
  shows "parse_chars max_string str (concat (map serialize_char s) @ CHR 0x22 # rest) = Some (str @ s, rest)"
  using assms
proof (induction s arbitrary: str)
  case Nil
  show ?case by (subst parse_chars.simps) simp
next
  case (Cons c s)
  obtain e es where e: "serialize_char c = e # es" "e \<noteq> CHR 0x22"
    using parse_serialize_char [of c "[]"] by (cases "serialize_char c") auto
  from parse_serialize_char [of c "concat (map serialize_char s) @ CHR 0x22 # rest"] Cons show ?case
    by (subst parse_chars.simps) (simp add: e)
qed

lemma parse_string_serialized:
  "depth < max_depth \<Longrightarrow> length s \<le> max_string \<Longrightarrow>
    parse_string max_depth max_string depth (serialize_string s @ rest) = Some (s, rest)"
  using parse_chars_serialized [of "[]" s] by (simp add: parse_string_def serialize_string_def)

end
