(* ===== verification/JsonValue.thy ===== *)
theory JsonValue imports StdMap JsonNumbers JsonStrings begin

text \<open>
  The JSON value of json.h with its accessors, and the serializer of json.cpp. A value without data is
  null; an object is a \<open>std::map\<close>. The source only changes a value before it shares it, so values are
  modelled without their shared storage.
\<close>

type_synonym i64 = "64 word"

datatype Json =
    J_Null
  | J_Bool bool
  | J_Number double
  | J_String string
  | J_Array "Json list"
  | J_Object "(string \<times> Json) list"

datatype JsonType = JT_Null | JT_Bool | JT_Number | JT_String | JT_Array | JT_Object

fun JsonType_to_string :: "JsonType \<Rightarrow> string" where
  "JsonType_to_string JT_Null = ''null''"
| "JsonType_to_string JT_Bool = ''bool''"
| "JsonType_to_string JT_Number = ''number''"
| "JsonType_to_string JT_String = ''string''"
| "JsonType_to_string JT_Array = ''array''"
| "JsonType_to_string JT_Object = ''object''"

fun json_type :: "Json \<Rightarrow> JsonType" where
  "json_type J_Null = JT_Null"
| "json_type (J_Bool b) = JT_Bool"
| "json_type (J_Number d) = JT_Number"
| "json_type (J_String s) = JT_String"
| "json_type (J_Array xs) = JT_Array"
| "json_type (J_Object m) = JT_Object"

section \<open>Accessors\<close>

fun as_bool :: "Json \<Rightarrow> bool option" where
  "as_bool (J_Bool b) = Some b"
| "as_bool j = None"

fun as_number :: "Json \<Rightarrow> double option" where
  "as_number (J_Number d) = Some d"
| "as_number j = None"

fun as_string :: "Json \<Rightarrow> string option" where
  "as_string (J_String s) = Some s"
| "as_string j = None"

text \<open>\<open>static_cast<std::int64_t>\<close> of a double: undefined (\<open>None\<close>) outside the range of the type.\<close>

fun to_i64 :: "double \<Rightarrow> i64 option" where
  "to_i64 (Fin r) = (let t = rat_trunc r in if - (2 ^ 63) \<le> t \<and> t < 2 ^ 63 then Some (of_int t) else None)"
| "to_i64 x = None"

fun is_integral :: "double \<Rightarrow> bool" where
  "is_integral (Fin r) \<longleftrightarrow> of_int \<lfloor>r\<rfloor> = r"
| "is_integral x \<longleftrightarrow> x \<noteq> NaN"

text \<open>The test that json.cpp makes before its casts; \<open>static_cast<double>\<close> of the largest \<open>int64\<close> is \<open>2^63\<close>.\<close>

definition in_i64_range :: "double \<Rightarrow> bool" where
  "in_i64_range d \<longleftrightarrow> is_integral d \<and> dge d (Fin (- (2 ^ 63))) \<and> dle d (Fin (2 ^ 63))"

text \<open>\<open>as_int64\<close>: the outer \<open>None\<close> is undefined behaviour, the inner one the null answer.\<close>

definition as_int64 :: "Json \<Rightarrow> i64 option option" where
  "as_int64 j = (case as_number j of None \<Rightarrow> Some None
     | Some v \<Rightarrow> if \<not> isfinite v then Some None
         else if \<not> in_i64_range v then Some None
         else map_option Some (to_i64 v))"

definition as_uint64 :: "Json \<Rightarrow> u64 option" where
  "as_uint64 j = (case as_number j of None \<Rightarrow> None
     | Some v \<Rightarrow> if \<not> isfinite v then None
         else if \<not> is_integral v then None
         else if dlt v (Fin 0) \<or> dgt v (Fin 9007199254740992) then None
         else to_u64 v)"

fun array_items :: "Json \<Rightarrow> Json list" where
  "array_items (J_Array xs) = xs"
| "array_items j = []"

fun object_items :: "Json \<Rightarrow> (string \<times> Json) list" where
  "object_items (J_Object m) = m"
| "object_items j = []"

fun push_back :: "Json \<Rightarrow> Json \<Rightarrow> Json" where
  "push_back v (J_Array xs) = J_Array (xs @ [v])"
| "push_back v j = j"

text \<open>\<open>j[key] = v\<close>: anything but an object is replaced by an empty object first.\<close>

fun json_set :: "string \<Rightarrow> Json \<Rightarrow> Json \<Rightarrow> Json" where
  "json_set k v (J_Object m) = J_Object (sm_assign k v m)"
| "json_set k v j = J_Object [(k, v)]"

fun json_find :: "string \<Rightarrow> Json \<Rightarrow> Json option" where
  "json_find k (J_Object m) = sm_find m k"
| "json_find k j = None"

definition json_has :: "string \<Rightarrow> Json \<Rightarrow> bool" where
  "json_has k j \<longleftrightarrow> json_find k j \<noteq> None"

fun json_size :: "Json \<Rightarrow> nat" where
  "json_size (J_Array xs) = length xs"
| "json_size (J_Object m) = length m"
| "json_size j = 0"

fun is_finite :: "Json \<Rightarrow> bool" where
  "is_finite (J_Number d) = isfinite d"
| "is_finite (J_Array xs) = list_all is_finite xs"
| "is_finite (J_Object m) = list_all (\<lambda>kv. is_finite (snd kv)) m"
| "is_finite j = True"

text \<open>The values that \<open>visit\<close> calls its function on: the value itself, and none of those inside it.\<close>

definition json_visit :: "Json \<Rightarrow> Json list" where
  "json_visit j = [j]"

section \<open>The serializer\<close>

fun join_comma :: "string list \<Rightarrow> string" where
  "join_comma [] = []"
| "join_comma [t] = t"
| "join_comma (t # ts) = t @ CHR '','' # join_comma ts"

text \<open>
  \<open>serialize_to\<close>: the text that is appended, and whether \<open>finite_ok\<close> is still set. \<open>None\<close> is the cast of
  \<open>2^63\<close>, which is undefined.
\<close>

definition serialize_number :: "double \<Rightarrow> (string \<times> bool) option" where
  "serialize_number d =
    (if \<not> isfinite d then Some ([], False)
     else if in_i64_range d then map_option (\<lambda>i. (int_to_chars (sint i), True)) (to_i64 d)
     else Some (to_chars d, True))"

fun serialize_to :: "Json \<Rightarrow> (string \<times> bool) option" where
  "serialize_to J_Null = Some (''null'', True)"
| "serialize_to (J_Bool b) = Some (if b then ''true'' else ''false'', True)"
| "serialize_to (J_Number d) = serialize_number d"
| "serialize_to (J_String s) = Some (serialize_string s, True)"
| "serialize_to (J_Array xs) = map_option (\<lambda>ps. (CHR ''['' # join_comma (map fst ps) @ '']'', list_all snd ps))
     (those (map serialize_to xs))"
| "serialize_to (J_Object m) = map_option (\<lambda>ps. (CHR ''{'' # join_comma (map fst ps) @ ''}'', list_all snd ps))
     (those (map (\<lambda>kv. map_option (\<lambda>p. (serialize_string (fst kv) @ CHR '':'' # fst p, snd p)) (serialize_to (snd kv))) m))"

definition json_serialize :: "Json \<Rightarrow> string option option" where
  "json_serialize v = map_option (\<lambda>(out, ok). if ok then Some out else None) (serialize_to v)"

definition json_dump :: "Json \<Rightarrow> string option" where
  "json_dump v = map_option (\<lambda>s. case s of Some t \<Rightarrow> t | None \<Rightarrow> ''null'') (json_serialize v)"

definition byte_size :: "Json \<Rightarrow> nat option" where
  "byte_size v = map_option (\<lambda>s. case s of Some t \<Rightarrow> length t | None \<Rightarrow> 0) (json_serialize v)"

end
