(* ===== verification/JsonNumberLaws.thy ===== *)
theory JsonNumberLaws imports JsonNumbers begin

text \<open>
  What the number printers write, the number reader reads back: every finite double round trips, in the
  integer form and in the shortest form, whatever text follows the number.
\<close>

section \<open>Digits\<close>

lemma is_digit_iff: "is_digit c \<longleftrightarrow> 48 \<le> (of_char c :: nat) \<and> (of_char c :: nat) \<le> 57"
  by (simp add: is_digit_def less_eq_char_def)

lemma is_digit19_iff: "is_digit19 c \<longleftrightarrow> is_digit c \<and> c \<noteq> CHR ''0''"
  using of_char_eq_iff [of c "CHR ''0''", where 'a = nat]
  by (auto simp: is_digit19_def is_digit_iff less_eq_char_def)

lemma of_char_dec_digit: "n < 10 \<Longrightarrow> (of_char (dec_digit n) :: nat) = 48 + n"
  by (simp add: dec_digit_def)

lemma dec_digit [simp]: "n < 10 \<Longrightarrow> is_digit (dec_digit n)" "n < 10 \<Longrightarrow> char_digit (dec_digit n) = n"
  by (simp_all add: is_digit_iff char_digit_def of_char_dec_digit)

lemma digits_val_fold: "fold (\<lambda>c n. 10 * n + char_digit c) ds k = k * 10 ^ length ds + digits_val ds"
proof (induction ds arbitrary: k)
  case (Cons c ds)
  show ?case using Cons [of "10 * k + char_digit c"] Cons [of "char_digit c"]
    by (simp add: digits_val_def algebra_simps)
qed (simp add: digits_val_def)

lemma digits_val_simps [simp]: "digits_val [] = 0" "digits_val [c] = char_digit c"
  "digits_val (xs @ ys) = digits_val xs * 10 ^ length ys + digits_val ys"
  by (simp_all add: digits_val_def) (simp add: digits_val_fold flip: digits_val_def)

lemma digits_val_Cons: "digits_val (c # ds) = char_digit c * 10 ^ length ds + digits_val ds"
  using digits_val_simps(3) [of "[c]" ds] by simp

lemma digits_val_zeros [simp]: "digits_val (replicate k CHR ''0'') = 0"
  by (induction k) (simp_all add: digits_val_Cons char_digit_def)

lemma digits_val_dec [simp]: "digits_val (dec n) = n"
proof (induction n rule: dec.induct)
  case (1 n)
  then show ?case by (subst dec.simps) auto
qed

lemma list_all_dec [simp]: "list_all is_digit (dec n)"
proof (induction n rule: dec.induct)
  case (1 n)
  then show ?case by (subst dec.simps) auto
qed

lemma hd_dec: "hd (dec n) = CHR ''0'' \<longleftrightarrow> n = 0"
proof (induction n rule: dec.induct)
  case (1 n)
  show ?case
  proof (cases "n < 10")
    case True
    have "dec_digit n = CHR ''0'' \<longleftrightarrow> char_digit (dec_digit n) = 0"
      using True of_char_eq_iff [of "dec_digit n" "CHR ''0''", where 'a = nat] of_char_dec_digit [OF True]
      by (simp add: char_digit_def)
    with True show ?thesis by (simp add: dec.simps [of n])
  next
    case False
    then show ?thesis using 1 by (subst dec.simps) simp
  qed
qed

lemma dec_0 [simp]: "dec 0 = ''0''"
  using of_char_dec_digit [of 0] of_char_eq_iff [of "dec_digit 0" "CHR ''0''", where 'a = nat] by (simp add: dec.simps [of 0])

section \<open>The scanner and the reader on a printed number\<close>

text \<open>A text that does not go on with the number before it.\<close>

definition number_end :: "string \<Rightarrow> bool" where
  "number_end rest \<longleftrightarrow> rest = [] \<or> \<not> is_digit (hd rest) \<and> hd rest \<notin> {CHR ''.'', CHR ''e'', CHR ''E''}"

definition int_part_ok :: "string \<Rightarrow> bool" where
  "int_part_ok ip \<longleftrightarrow> ip = ''0'' \<or> ip \<noteq> [] \<and> list_all is_digit ip \<and> hd ip \<noteq> CHR ''0''"

definition exponent_ok :: "(char \<times> string) option \<Rightarrow> bool" where
  "exponent_ok ex \<longleftrightarrow> (case ex of None \<Rightarrow> True
     | Some (sg, ds) \<Rightarrow> sg \<in> {CHR ''+'', CHR ''-''} \<and> ds \<noteq> [] \<and> list_all is_digit ds)"

definition exponent_text :: "(char \<times> string) option \<Rightarrow> string" where
  "exponent_text ex = (case ex of None \<Rightarrow> [] | Some (sg, ds) \<Rightarrow> CHR ''e'' # sg # ds)"

definition exponent_val :: "(char \<times> string) option \<Rightarrow> int" where
  "exponent_val ex = (case ex of None \<Rightarrow> 0
     | Some (sg, ds) \<Rightarrow> if sg = CHR ''-'' then - int (digits_val ds) else int (digits_val ds))"

lemma num_text_alt: "num_text neg ip fp ex = (if neg then ''-'' else []) @ ip @ (if fp = [] then [] else CHR ''.'' # fp) @ exponent_text ex"
  by (simp add: num_text_def exponent_text_def)

lemma span_digits:
  assumes "list_all is_digit ds" "rest = [] \<or> \<not> is_digit (hd rest)"
  shows "takeWhile is_digit (ds @ rest) = ds" "dropWhile is_digit (ds @ rest) = rest"
proof -
  have d: "\<And>x. x \<in> set ds \<Longrightarrow> is_digit x" using assms(1) by (simp add: list_all_iff)
  show "takeWhile is_digit (ds @ rest) = ds" using assms(2) d
    by (cases rest) (simp_all add: takeWhile_append2 takeWhile_eq_all_conv)
  show "dropWhile is_digit (ds @ rest) = rest" using assms(2) d
    by (cases rest) (simp_all add: dropWhile_append2 dropWhile_eq_Nil_conv)
qed

lemma not_digit [simp]: "\<not> is_digit CHR ''.''" "\<not> is_digit CHR ''e''" "\<not> is_digit CHR ''E''" "\<not> is_digit CHR ''-''"
  "\<not> is_digit CHR ''+''" "is_digit CHR ''0''"
  by (simp_all add: is_digit_iff)

lemma int_part_digits: "int_part_ok ip \<Longrightarrow> list_all is_digit ip \<and> ip \<noteq> []"
  by (auto simp: int_part_ok_def)

lemma scan_integer_ok:
  assumes "int_part_ok ip" "rest = [] \<or> \<not> is_digit (hd rest)"
  shows "scan_integer (ip @ rest) = Some rest"
proof (cases "ip = ''0''")
  case False
  then have ip: "ip \<noteq> []" "list_all is_digit ip" "hd ip \<noteq> CHR ''0''" using assms(1) by (auto simp: int_part_ok_def)
  then have "peek (ip @ rest) = hd ip" "is_digit19 (hd ip)"
    by (auto simp: peek_def is_digit19_iff neq_Nil_conv)
  with ip span_digits(2) [OF ip(2) assms(2)] show ?thesis by (simp add: scan_integer_def)
qed (simp add: scan_integer_def peek_def)

lemma hd_digit: "list_all is_digit ds \<Longrightarrow> ds \<noteq> [] \<Longrightarrow> is_digit (hd ds)"
  by (cases ds) auto

lemma scan_fraction_ok:
  assumes "list_all is_digit fp" "rest = [] \<or> \<not> is_digit (hd rest)" "fp = [] \<Longrightarrow> rest = [] \<or> hd rest \<noteq> CHR ''.''"
  shows "scan_fraction ((if fp = [] then [] else CHR ''.'' # fp) @ rest) = Some rest"
  using assms span_digits(2) [OF assms(1,2)] hd_digit [OF assms(1)]
  by (auto simp: scan_fraction_def peek_def)

lemma scan_exponent_ok:
  assumes "exponent_ok ex" "number_end rest"
  shows "scan_exponent (exponent_text ex @ rest) = Some rest"
proof (cases ex)
  case None
  then show ?thesis using assms(2) by (auto simp: exponent_text_def scan_exponent_def peek_def number_end_def)
next
  case (Some a)
  then obtain sg ds where ex: "ex = Some (sg, ds)" by (cases a) auto
  then have ds: "ds \<noteq> []" "list_all is_digit ds" "sg = CHR ''+'' \<or> sg = CHR ''-''" using assms(1) by (auto simp: exponent_ok_def)
  have "rest = [] \<or> \<not> is_digit (hd rest)" using assms(2) by (auto simp: number_end_def)
  from span_digits(2) [OF ds(2) this] hd_digit [OF ds(2,1)] ds(1,3) show ?thesis
    by (auto simp: ex exponent_text_def scan_exponent_def peek_def)
qed

lemma int_part_hd: assumes "int_part_ok ip" obtains c ip' where "ip = c # ip'" "c \<noteq> CHR ''-''"
proof (cases ip)
  case (Cons c cs)
  then show ?thesis using int_part_digits [OF assms] by (intro that [of c cs]) auto
qed (use int_part_digits [OF assms] in simp)

lemma exponent_text_start: "exponent_text ex = [] \<or> hd (exponent_text ex) = CHR ''e''"
  by (auto simp: exponent_text_def split: option.splits)

lemma start_after_fraction:
  assumes "number_end rest"
  shows "exponent_text ex @ rest = [] \<or> \<not> is_digit (hd (exponent_text ex @ rest)) \<and> hd (exponent_text ex @ rest) \<noteq> CHR ''.''"
  using assms exponent_text_start [of ex] by (cases "exponent_text ex") (auto simp: number_end_def)

lemma scan_number_ok:
  assumes "int_part_ok ip" "list_all is_digit fp" "exponent_ok ex" "number_end rest"
  shows "scan_number (num_text neg ip fp ex @ rest) = Some rest"
proof -
  let ?e = "exponent_text ex @ rest" and ?f = "(if fp = [] then [] else CHR ''.'' # fp)"
  have "(if peek (num_text neg ip fp ex @ rest) = CHR ''-'' then tl (num_text neg ip fp ex @ rest)
      else num_text neg ip fp ex @ rest) = ip @ ?f @ ?e"
    by (rule int_part_hd [OF assms(1)]) (simp add: num_text_alt peek_def)
  moreover have "?f @ ?e = [] \<or> \<not> is_digit (hd (?f @ ?e))"
    using start_after_fraction [OF assms(4), of ex] by auto
  ultimately show ?thesis using start_after_fraction [OF assms(4), of ex]
    by (simp only: scan_number_def scan_integer_ok [OF assms(1)] option.case)
       (subst scan_fraction_ok [OF assms(2)]; auto simp: scan_exponent_ok [OF assms(3,4)])
qed

lemma chars_exponent_ok: "exponent_ok ex \<Longrightarrow> chars_exponent (exponent_text ex) = (exponent_val ex, [])"
proof (cases ex)
  case (Some a)
  assume ok: "exponent_ok ex"
  obtain sg ds where ex: "ex = Some (sg, ds)" using Some by (cases a) auto
  then have ds: "ds \<noteq> []" "list_all is_digit ds" "sg = CHR ''+'' \<or> sg = CHR ''-''" using ok by (auto simp: exponent_ok_def)
  have tw: "takeWhile is_digit ds = ds" "dropWhile is_digit ds = []"
    using span_digits [OF ds(2), of "[]"] by (simp_all only: append_Nil2 simp_thms)
  from ds(1,3) show ?thesis
    by (elim disjE) (simp_all add: tw ex exponent_text_def exponent_val_def chars_exponent_def peek_def Let_def)
qed (simp add: exponent_text_def exponent_val_def chars_exponent_def peek_def)

definition num_value :: "bool \<Rightarrow> string \<Rightarrow> string \<Rightarrow> (char \<times> string) option \<Rightarrow> rat" where
  "num_value neg ip fp ex = (let x = of_nat (digits_val (ip @ fp)) * pow10 (exponent_val ex - int (length fp))
     in if neg then - x else x)"

lemma from_chars_ok:
  assumes "int_part_ok ip" "list_all is_digit fp" "exponent_ok ex"
  shows "from_chars (num_text neg ip fp ex) = map_option (\<lambda>d. (d, [])) (in_range (num_value neg ip fp ex))"
proof -
  let ?f = "(if fp = [] then [] else CHR ''.'' # fp)" and ?e = "exponent_text ex"
  have neg: "(peek (num_text neg ip fp ex) = CHR ''-'') = neg"
    by (rule int_part_hd [OF assms(1)]) (simp add: num_text_alt peek_def)
  have tl: "(if neg then tl (num_text neg ip fp ex) else num_text neg ip fp ex) = ip @ ?f @ ?e"
    by (simp add: num_text_alt)
  have e: "?e = [] \<or> \<not> is_digit (hd ?e)" "peek ?e \<noteq> CHR ''.''"
    using exponent_text_start [of ex] by (auto simp: peek_def)
  have fe: "?f @ ?e = [] \<or> \<not> is_digit (hd (?f @ ?e))" using e(1) by auto
  have ip: "list_all is_digit ip" "ip \<noteq> []" using int_part_digits [OF assms(1)] by auto
  note sp = span_digits [OF ip(1) fe] span_digits [OF assms(2) e(1)]
  have point: "(peek (?f @ ?e) = CHR ''.'') \<longleftrightarrow> fp \<noteq> []" using e(2) by (auto simp: peek_def)
  show ?thesis unfolding from_chars_def Let_def neg tl sp point
    using ip(2) sp by (simp add: chars_exponent_ok [OF assms(3)] num_value_def Let_def)
qed

text \<open>The reader on a printed number followed by anything that does not go on with it.\<close>

lemma parse_num_text:
  assumes "int_part_ok ip" "list_all is_digit fp" "exponent_ok ex" "number_end rest"
    and "in_range (num_value neg ip fp ex) = Some d"
  shows "parse_number reject (num_text neg ip fp ex @ rest) = Some (d, rest)"
proof -
  have "isfinite d" using assms(5) by (auto simp: in_range_def Let_def split: if_splits)
  then show ?thesis
    using assms by (simp add: parse_number_def scan_number_ok from_chars_ok)
qed


section \<open>What is printed reads back\<close>

lemma pow10_powi: "pow10 e = 10 powi e"
  by (simp add: pow10_def power_int_def inverse_eq_divide power_one_over)

lemma pow10_add: "pow10 (a + b) = pow10 a * pow10 b"
  by (simp add: pow10_powi power_int_add)

lemma pow10_pos [simp]: "0 < pow10 e" "pow10 e \<noteq> 0"
  by (simp_all add: pow10_powi)

lemma pow10_nat: "pow10 (int k) = 10 ^ k"
  by (simp add: pow10_def)

text \<open>A rational that is the value of a double.\<close>

definition proper :: "rat \<Rightarrow> bool" where
  "proper r \<longleftrightarrow> fl r = Fin r"

lemma proper_in_range: "proper r \<Longrightarrow> in_range r = Some (Fin r)"
  by (auto simp: proper_def in_range_def Let_def)

lemma fl_minus: "fl (- x) = dneg (fl x)"
proof -
  define K where "K = (2::rat) ^ 1024"
  have "0 < K" unfolding K_def by (rule zero_less_power) simp
  then show ?thesis by (auto simp add: fl_def Let_def rnd64_minus simp flip: K_def)
qed

lemma in_range_minus: "in_range x = Some (Fin r) \<Longrightarrow> in_range (- x) = Some (Fin (- r))"
  by (auto simp: in_range_def Let_def fl_minus split: if_splits)

lemma proper_scaled: assumes "proper r" obtains k where "r / pow10 (- 1074) = of_int k"
proof -
  have "rnd64 r = r" using assms by (auto simp: proper_def fl_def Let_def split: if_splits simp del: power_numeral)
  then have "representable r" using representable_rnd64 [of r] by simp
  then obtain m e where me: "- 1074 \<le> e" "r = of_int m * pow2 e" by (auto simp: representable_def)
  have "pow10 1074 = of_int (5 ^ 1074) * pow2 1074"
    by (simp add: pow10_def pow2_def flip: power_mult_distrib del: power_numeral)
  then have "r / pow10 (- 1074) = of_int m * (pow2 e * pow2 1074) * of_int (5 ^ 1074)"
    using me(2) by (simp add: pow10_def mult_ac del: power_numeral)
  also have "pow2 e * pow2 1074 = of_int (2 ^ nat (e + 1074))"
    unfolding pow2_add [symmetric] using me(1) by (intro pow2_nat) simp
  finally have "r / pow10 (- 1074) = of_int (m * 2 ^ nat (e + 1074) * 5 ^ 1074)" by (simp del: power_numeral)
  then show ?thesis by (rule that)
qed

lemma reads_back_scaled:
  assumes "proper r" "0 < r" shows "\<exists>m. find (reads_back r (- 1074)) (candidates (r / pow10 (- 1074))) = Some m"
proof -
  obtain k where k: "r / pow10 (- 1074) = of_int k" using proper_scaled [OF assms(1)] .
  then have r: "r = of_int k * pow10 (- 1074)" by (simp add: field_simps)
  then have "0 < k" using assms(2) zero_less_mult_pos2 [of "of_int k" "pow10 (- 1074)"] by simp
  then have "reads_back r (- 1074) k" using proper_in_range [OF assms(1)] by (simp add: reads_back_def flip: r)
  moreover have "candidates (of_int k) = [k, k + 1]" by (simp add: candidates_def)
  ultimately show ?thesis by (simp add: k)
qed

lemma shortest_reads_back:
  assumes "proper r" "0 < r" "- 1074 \<le> q" "q + 1075 \<le> int n" "shortest n q r = (m, q')"
  shows "0 < m \<and> in_range (of_nat m * pow10 q') = Some (Fin r)"
  using assms(3-)
proof (induction n arbitrary: q)
  case (Suc n)
  show ?case
  proof (cases "find (reads_back r q) (candidates (r / pow10 q))")
    case None
    then have "q \<noteq> - 1074" using reads_back_scaled [OF assms(1,2)] by auto
    then show ?thesis using Suc.IH [of "q - 1"] Suc.prems None by simp
  next
    case (Some i)
    then have "reads_back r q i" by (auto simp: find_Some_iff)
    then have "0 < i" "in_range (of_int i * pow10 q) = Some (Fin r)" by (auto simp: reads_back_def)
    moreover have "m = nat i" "q' = q" using Suc.prems Some by auto
    ultimately show ?thesis by simp
  qed
qed simp

lemma dec_shape: "0 < m \<Longrightarrow> \<exists>c cs. dec m = c # cs \<and> is_digit c \<and> c \<noteq> CHR ''0'' \<and> list_all is_digit cs"
  using hd_dec [of m] list_all_dec [of m] by (cases "dec m") auto

lemma num_value_no_exponent: "num_value neg ip fp None = (let x = of_nat (digits_val (ip @ fp)) * pow10 (- int (length fp)) in if neg then - x else x)"
  by (simp add: num_value_def exponent_val_def)

text \<open>A text of the number \<open>m * 10^q\<close>: its parts are well formed and have that value.\<close>

definition renders :: "string \<Rightarrow> bool \<Rightarrow> rat \<Rightarrow> bool" where
  "renders t neg v \<longleftrightarrow> (\<exists>ip fp ex. t = num_text neg ip fp ex \<and> int_part_ok ip \<and> list_all is_digit fp \<and> exponent_ok ex \<and>
     num_value neg ip fp ex = (if neg then - v else v))"

lemma renders_fixed:
  assumes "0 < m" shows "renders (fixed_text neg (dec m) q) neg (of_nat m * pow10 q)"
proof -
  obtain c cs where D: "dec m = c # cs" "is_digit c" "c \<noteq> CHR ''0''" "list_all is_digit cs" using dec_shape [OF assms] by blast
  have v: "digits_val (c # cs) = m" using digits_val_dec [of m] by (simp add: D(1))
  consider "0 \<le> q" | "q < 0" "nat (- q) < length (dec m)" | "q < 0" "length (dec m) \<le> nat (- q)" by linarith
  then show ?thesis
  proof cases
    case 1
    then have "fixed_text neg (dec m) q = num_text neg ((c # cs) @ replicate (nat q) CHR ''0'') [] None"
      by (simp add: fixed_text_def D(1))
    moreover have "int_part_ok ((c # cs) @ replicate (nat q) CHR ''0'')" using D by (auto simp: int_part_ok_def list_all_iff)
    moreover have "num_value neg ((c # cs) @ replicate (nat q) CHR ''0'') [] None = (if neg then - (of_nat m * pow10 q) else of_nat m * pow10 q)"
      unfolding num_value_no_exponent append_Nil2 digits_val_simps(3) v using 1 by (simp add: pow10_def)
    ultimately show ?thesis unfolding renders_def by (intro exI conjI) (assumption | simp add: exponent_ok_def)+
  next
    case 2
    let ?k = "nat (- q)" let ?ip = "take (length (c # cs) - ?k) (c # cs)" and ?fp = "drop (length (c # cs) - ?k) (c # cs)"
    have "fixed_text neg (dec m) q = num_text neg ?ip ?fp None" using 2 by (simp add: fixed_text_def D(1) Let_def)
    moreover have "int_part_ok ?ip" using D 2 by (cases "length (c # cs) - ?k") (auto simp: int_part_ok_def list_all_iff dest: in_set_takeD)
    moreover have "list_all is_digit ?fp" using D by (auto simp: list_all_iff dest!: in_set_dropD)
    moreover have "num_value neg ?ip ?fp None = (if neg then - (of_nat m * pow10 q) else of_nat m * pow10 q)"
      unfolding num_value_no_exponent append_take_drop_id v using 2 by (simp add: D(1))
    ultimately show ?thesis unfolding renders_def by (intro exI conjI) (assumption | simp add: exponent_ok_def)+
  next
    case 3
    let ?fp = "replicate (nat (- q) - length (dec m)) CHR ''0'' @ dec m"
    have "fixed_text neg (dec m) q = num_text neg ''0'' ?fp None" using 3 by (simp add: fixed_text_def Let_def)
    moreover have "num_value neg ''0'' ?fp None = (if neg then - (of_nat m * pow10 q) else of_nat m * pow10 q)"
      unfolding num_value_no_exponent using 3 by (simp add: digits_val_Cons char_digit_def)
    moreover have "list_all is_digit ?fp" by (simp add: list_all_iff [of _ "replicate _ _"])
    ultimately show ?thesis unfolding renders_def by (intro exI conjI) (assumption | simp add: exponent_ok_def int_part_ok_def)+
  qed
qed

lemma renders_scientific:
  assumes "0 < m" "x = q + int (length (dec m)) - 1"
  shows "renders (scientific_text neg (dec m) x) neg (of_nat m * pow10 q)"
proof -
  obtain c cs where D: "dec m = c # cs" "is_digit c" "c \<noteq> CHR ''0''" "list_all is_digit cs" using dec_shape [OF assms(1)] by blast
  have v: "digits_val (c # cs) = m" using digits_val_dec [of m] by (simp add: D(1))
  let ?ex = "Some (if x < 0 then CHR ''-'' else CHR ''+'', pad_left 2 (dec (nat \<bar>x\<bar>)))"
  have "digits_val (pad_left 2 (dec (nat \<bar>x\<bar>))) = nat \<bar>x\<bar>" by (simp add: pad_left_def)
  then have e: "exponent_val ?ex = x" by (simp add: exponent_val_def)
  have "exponent_ok ?ex" by (simp add: exponent_ok_def pad_left_def list_all_iff [of _ "replicate _ _"])
  moreover have "num_value neg [c] cs ?ex = (if neg then - (of_nat m * pow10 q) else of_nat m * pow10 q)"
    unfolding num_value_def e append_Cons append_Nil v using assms(2) by (simp add: D(1))
  moreover have "int_part_ok [c]" using D by (simp add: int_part_ok_def)
  moreover have "scientific_text neg (dec m) x = num_text neg [c] cs ?ex" by (simp add: scientific_text_def D(1))
  ultimately show ?thesis unfolding renders_def using D(4) by blast
qed

lemma renders_parse:
  assumes "renders t neg v" "in_range v = Some (Fin r)" "number_end rest"
  shows "parse_number reject (t @ rest) = Some (Fin (if neg then - r else r), rest)"
proof -
  obtain ip fp ex where t: "t = num_text neg ip fp ex" "int_part_ok ip" "list_all is_digit fp" "exponent_ok ex"
    "num_value neg ip fp ex = (if neg then - v else v)" using assms(1) unfolding renders_def by blast
  have "in_range (num_value neg ip fp ex) = Some (Fin (if neg then - r else r))"
    using assms(2) by (simp add: t(5) in_range_minus)
  then show ?thesis unfolding t(1) by (rule parse_num_text [OF t(2-4) assms(3)])
qed

lemma parse_to_chars:
  assumes "proper r" "number_end rest"
  shows "parse_number reject (to_chars (Fin r) @ rest) = Some (Fin r, rest)"
proof (cases "r = 0")
  case True
  have "renders ''0'' False 0"
    unfolding renders_def by (intro exI [of _ "''0''"] exI [of _ "[]"] exI [of _ None])
      (simp add: num_text_def int_part_ok_def exponent_ok_def num_value_def exponent_val_def char_digit_def)
  then show ?thesis using renders_parse [of "''0''" False 0 0 rest] assms(2) True by (simp add: in_range_def)
next
  case False
  have abs: "proper \<bar>r\<bar>" "0 < \<bar>r\<bar>" using assms(1) False by (auto simp: proper_def abs_if fl_minus)
  obtain m q where mq: "shortest 1384 309 \<bar>r\<bar> = (m, q)" by fastforce
  have m: "0 < m" "in_range (of_nat m * pow10 q) = Some (Fin \<bar>r\<bar>)"
    using shortest_reads_back [OF abs _ _ mq] by simp_all
  have "renders (to_chars (Fin r)) (r < 0) (of_nat m * pow10 q)"
    using False m by (simp add: mq Let_def renders_fixed renders_scientific del: shortest.simps)
  from renders_parse [OF this m(2) assms(2)] show ?thesis by (simp add: abs_if split: if_splits)
qed

lemma parse_int_to_chars:
  assumes "in_range (of_int i) = Some (Fin r)" "number_end rest"
  shows "parse_number reject (int_to_chars i @ rest) = Some (Fin r, rest)"
proof -
  have "int_part_ok (dec (nat \<bar>i\<bar>))" using hd_dec [of "nat \<bar>i\<bar>"] by (cases "i = 0") (auto simp: int_part_ok_def)
  moreover have "num_value (i < 0) (dec (nat \<bar>i\<bar>)) [] None = of_int i"
    by (simp add: num_value_no_exponent pow10_def abs_if)
  ultimately show ?thesis unfolding int_to_chars_def using assms
    by (intro parse_num_text) (simp_all add: exponent_ok_def)
qed

end
