(* ===== verification/JsonParser.thy ===== *)
theory JsonParser imports JsonValue JsonNumberLaws begin

text \<open>
  The recursive parser of json.cpp. A function takes the limits, the current depth and the rest of the text, and returns
  the value with the text that is left, or \<open>None\<close> where the source fails (the failure flag is never cleared).
  The depth is a parameter: the source restores it on every successful return. The recursion is shown to end by the
  property that a successful call consumes text.
\<close>

record JsonParseLimits =
  max_depth :: nat
  max_bytes :: nat
  max_string :: nat
  reject_non_finite :: bool

definition default_limits :: JsonParseLimits where
  "default_limits = \<lparr>max_depth = 128, max_bytes = 4 * 1024 * 1024, max_string = 1024 * 1024, reject_non_finite = True\<rparr>"

definition is_ws :: "char \<Rightarrow> bool" where
  "is_ws c \<longleftrightarrow> c = CHR '' '' \<or> c = CHR 0x09 \<or> c = CHR 0x0A \<or> c = CHR 0x0D"

definition skip_ws :: "string \<Rightarrow> string" where
  "skip_ws s = dropWhile is_ws s"

definition parse_literal :: "string \<Rightarrow> Json \<Rightarrow> string \<Rightarrow> (Json \<times> string) option" where
  "parse_literal lit v s = (if take (length lit) s \<noteq> lit then None else Some (v, drop (length lit) s))"

section \<open>The parts of the parser consume text\<close>

lemma skip_ws_length: "length (skip_ws s) \<le> length s"
  by (simp add: skip_ws_def length_dropWhile_le)

lemma parse_chars_length: "parse_chars m str s = Some (v, r) \<Longrightarrow> length r < length s"
proof (induction m str s arbitrary: v r rule: parse_chars.induct)
  case (1 m str s)
  show ?case
  proof (cases "s = [] \<or> hd s = CHR 0x22")
    case True
    then show ?thesis using "1.prems" by (subst (asm) parse_chars.simps) (auto split: if_splits)
  next
    case False
    then obtain bs r' where c: "parse_char s = Some (bs, r')" "\<not> m < length (str @ bs)" "parse_chars m (str @ bs) r' = Some (v, r)"
      using "1.prems" by (subst (asm) parse_chars.simps) (auto split: if_splits option.splits)
    then have "length r < length r'" using False "1.IH" by blast
    then show ?thesis using parse_char_length [OF _ c(1)] False by simp
  qed
qed

lemma parse_string_length: "parse_string md ms d s = Some (v, r) \<Longrightarrow> s \<noteq> [] \<Longrightarrow> length r < length s"
  by (auto simp: parse_string_def split: if_splits dest!: parse_chars_length)

lemma scan_length:
  "scan_integer s = Some r \<Longrightarrow> length r < length s"
  "scan_fraction s = Some r \<Longrightarrow> length r \<le> length s"
  "scan_exponent s = Some r \<Longrightarrow> length r \<le> length s"
proof -
  have dw: "length (dropWhile is_digit (tl s)) \<le> length s" for s
    using length_dropWhile_le [of is_digit "tl s"] by simp
  have dw2: "length (dropWhile is_digit (tl (tl s))) \<le> length s" for s
    using length_dropWhile_le [of is_digit "tl (tl s)"] by simp
  show "scan_integer s = Some r \<Longrightarrow> length r < length s"
    using length_dropWhile_le [of is_digit "tl s"]
    by (cases s) (auto simp: scan_integer_def peek_def is_digit19_iff split: if_splits)
  show "scan_fraction s = Some r \<Longrightarrow> length r \<le> length s"
    using dw [of s] by (auto simp: scan_fraction_def split: if_splits)
  show "scan_exponent s = Some r \<Longrightarrow> length r \<le> length s"
    using dw [of s] dw2 [of s] by (auto simp: scan_exponent_def Let_def split: if_splits)
qed

lemma parse_number_length: "parse_number b s = Some (d, r) \<Longrightarrow> length r < length s"
proof -
  assume "parse_number b s = Some (d, r)"
  then have "scan_number s = Some r" by (auto simp: parse_number_def split: option.splits if_splits)
  then obtain r1 r2 where r: "scan_integer (if peek s = CHR ''-'' then tl s else s) = Some r1" "scan_fraction r1 = Some r2"
    "scan_exponent r2 = Some r" by (auto simp: scan_number_def split: option.splits)
  have "length (if peek s = CHR ''-'' then tl s else s) \<le> length s" by simp
  with scan_length(1) [OF r(1)] scan_length(2) [OF r(2)] scan_length(3) [OF r(3)] show ?thesis by linarith
qed

lemma parse_literal_length: "parse_literal lit v s = Some (j, r) \<Longrightarrow> lit \<noteq> [] \<Longrightarrow> length r < length s"
  by (cases s) (auto simp: parse_literal_def split: if_splits)

lemma parse_string_quote:
  assumes "peek s = CHR 0x22" "parse_string md ms d s = Some (v, r)" shows "length r < length s"
  using parse_string_length [OF assms(2)] assms(1) by (cases s) (simp_all add: peek_def)

lemma peek_length: "peek s \<noteq> CHR 0x00 \<Longrightarrow> length s = Suc (length (tl s))"
  by (cases s) (simp_all add: peek_def)

lemma peek_tl_length: "peek r \<noteq> CHR 0x00 \<Longrightarrow> length (tl r) < length r"
  by (cases r) (simp_all add: peek_def)

section \<open>The recursion\<close>

function (sequential)
  parse_value :: "JsonParseLimits \<Rightarrow> nat \<Rightarrow> string \<Rightarrow> (Json \<times> string) option" and
  parse_object :: "JsonParseLimits \<Rightarrow> nat \<Rightarrow> string \<Rightarrow> (Json \<times> string) option" and
  parse_members :: "JsonParseLimits \<Rightarrow> nat \<Rightarrow> Json \<Rightarrow> string \<Rightarrow> (Json \<times> string) option" and
  parse_array :: "JsonParseLimits \<Rightarrow> nat \<Rightarrow> string \<Rightarrow> (Json \<times> string) option" and
  parse_elements :: "JsonParseLimits \<Rightarrow> nat \<Rightarrow> Json \<Rightarrow> string \<Rightarrow> (Json \<times> string) option"
where
  "parse_value lm depth s0 =
    (let s = skip_ws s0; c = peek s in
     if s = [] then None
     else if c = CHR ''{'' then parse_object lm depth s
     else if c = CHR ''['' then parse_array lm depth s
     else if c = CHR 0x22 then
       map_option (\<lambda>(str, r). (J_String str, r)) (parse_string (max_depth lm) (max_string lm) depth s)
     else if c = CHR ''t'' then parse_literal ''true'' (J_Bool True) s
     else if c = CHR ''f'' then parse_literal ''false'' (J_Bool False) s
     else if c = CHR ''n'' then parse_literal ''null'' J_Null s
     else if c = CHR ''-'' \<or> is_digit c then
       map_option (\<lambda>(d, r). (J_Number d, r)) (parse_number (reject_non_finite lm) s)
     else None)"
| "parse_object lm depth s =
    (if max_depth lm \<le> depth then None
     else let r = skip_ws (tl s) in
       if peek r = CHR ''}'' then Some (J_Object [], tl r)
       else parse_members lm (Suc depth) (J_Object []) r)"
| "parse_members lm depth obj s0 =
    (let s = skip_ws s0 in
     if peek s \<noteq> CHR 0x22 then None
     else case parse_string (max_depth lm) (max_string lm) depth s of None \<Rightarrow> None
       | Some (key, r) \<Rightarrow>
         let r = skip_ws r in
         if peek r \<noteq> CHR '':'' then None
         else case parse_value lm depth (tl r) of None \<Rightarrow> None
           | Some (val, r') \<Rightarrow>
             let obj = json_set key val obj; r' = skip_ws r' in
             if peek r' = CHR ''}'' then Some (obj, tl r')
             else if peek r' \<noteq> CHR '','' then None
             else parse_members lm depth obj (tl r'))"
| "parse_array lm depth s =
    (if max_depth lm \<le> depth then None
     else let r = skip_ws (tl s) in
       if peek r = CHR '']'' then Some (J_Array [], tl r)
       else parse_elements lm (Suc depth) (J_Array []) r)"
| "parse_elements lm depth arr s =
    (case parse_value lm depth s of None \<Rightarrow> None
     | Some (val, r) \<Rightarrow>
       let arr = push_back val arr; r = skip_ws r in
       if peek r = CHR '']'' then Some (arr, tl r)
       else if peek r \<noteq> CHR '','' then None
       else parse_elements lm depth arr (tl r))"
  by pat_completeness auto

text \<open>A call that returns a value has consumed text, so the text that is left gets shorter with every call.\<close>

termination
proof -
  have consumes:
    "parse_value_parse_object_parse_members_parse_array_parse_elements_dom (Inl (Inl (lm, d, s))) \<Longrightarrow>
       parse_value lm d s = Some (j, r) \<Longrightarrow> length r < length s"
    "parse_value_parse_object_parse_members_parse_array_parse_elements_dom (Inl (Inr (lm, d, s))) \<Longrightarrow>
       parse_object lm d s = Some (j, r) \<Longrightarrow> length r < length s"
    "parse_value_parse_object_parse_members_parse_array_parse_elements_dom (Inr (Inl (lm, d, obj, s))) \<Longrightarrow>
       parse_members lm d obj s = Some (j, r) \<Longrightarrow> length r < length s"
    "parse_value_parse_object_parse_members_parse_array_parse_elements_dom (Inr (Inr (Inl (lm, d, s)))) \<Longrightarrow>
       parse_array lm d s = Some (j, r) \<Longrightarrow> length r < length s"
    "parse_value_parse_object_parse_members_parse_array_parse_elements_dom (Inr (Inr (Inr (lm, d, arr, s)))) \<Longrightarrow>
       parse_elements lm d arr s = Some (j, r) \<Longrightarrow> length r < length s"
    for lm d s obj arr j r
  proof (induction lm d s and lm d s and lm d obj s and lm d s and lm d arr s arbitrary: j r and j r and j r and j r and j r
      rule: parse_value_parse_object_parse_members_parse_array_parse_elements.pinduct)
    case (1 lm d s)
    let ?s = "skip_ws s"
    have "?s \<noteq> []" using "1.prems" by (simp add: parse_value.psimps [OF 1(1)] Let_def split: if_splits)
    moreover have "length r < length ?s"
      using "1.prems" \<open>?s \<noteq> []\<close>
      by (auto simp: parse_value.psimps [OF 1(1)] Let_def split: if_splits
          dest: parse_literal_length parse_string_length parse_number_length 1(2,3) [OF refl refl])
    ultimately show ?case using skip_ws_length [of s] by simp
  next
    case (2 lm d s)
    let ?r = "skip_ws (tl s)"
    have "length r < length ?r"
      using "2.prems" 2(2) peek_tl_length [of ?r] by (auto simp: parse_object.psimps [OF 2(1)] Let_def split: if_splits)
    then show ?case using skip_ws_length [of "tl s"] by simp
  next
    case (3 lm d obj s)
    let ?s = "skip_ws s"
    have q: "peek ?s = CHR 0x22" using "3.prems" by (simp add: parse_members.psimps [OF 3(1)] Let_def split: if_splits)
    with "3.prems" obtain key r1 where k: "parse_string (max_depth lm) (max_string lm) d ?s = Some (key, r1)"
      by (auto simp: parse_members.psimps [OF 3(1)] Let_def split: option.splits)
    let ?r1 = "skip_ws r1"
    have c: "peek ?r1 = CHR '':''" using "3.prems" q k by (simp add: parse_members.psimps [OF 3(1)] Let_def split: if_splits)
    with "3.prems" q k obtain val r2 where v: "parse_value lm d (tl ?r1) = Some (val, r2)"
      by (auto simp: parse_members.psimps [OF 3(1)] Let_def split: option.splits)
    let ?r2 = "skip_ws r2" and ?obj = "json_set key val obj"
    have "?s \<noteq> []" using q by (cases ?s) (simp_all add: peek_def)
    with parse_string_length [OF k] have l1: "length r1 < length ?s" .
    have l2: "length r2 < length (tl ?r1)" using 3(2) [OF refl _ k refl refl] q c v by simp
    have l3: "length r < length ?r2"
    proof (cases "peek ?r2 = CHR ''}''")
      case True
      then show ?thesis using "3.prems" q k c v peek_tl_length [of ?r2] by (simp add: parse_members.psimps [OF 3(1)] Let_def)
    next
      case False
      then have m: "peek ?r2 = CHR '',''" "parse_members lm d ?obj (tl ?r2) = Some (j, r)"
        using "3.prems" q k c v by (simp_all add: parse_members.psimps [OF 3(1)] Let_def split: if_splits)
      then have "length r < length (tl ?r2)" using 3(3) [OF refl _ k refl refl _ v refl refl refl False] q c by simp
      then show ?thesis by simp
    qed
    show ?case using l1 l2 l3 skip_ws_length [of s] skip_ws_length [of r1] skip_ws_length [of r2] by simp
  next
    case (4 lm d s)
    let ?r = "skip_ws (tl s)"
    have "length r < length ?r"
      using "4.prems" 4(2) peek_tl_length [of ?r] by (auto simp: parse_array.psimps [OF 4(1)] Let_def split: if_splits)
    then show ?case using skip_ws_length [of "tl s"] by simp
  next
    case (5 lm d arr s)
    from "5.prems" obtain val r1 where v: "parse_value lm d s = Some (val, r1)"
      by (auto simp: parse_elements.psimps [OF 5(1)] split: option.splits)
    have "length r1 < length s" using 5(2) v by blast
    moreover have "length r < length (skip_ws r1)"
      using "5.prems" 5(3) [OF v refl refl refl] peek_tl_length [of "skip_ws r1"] v
      by (auto simp: parse_elements.psimps [OF 5(1)] Let_def split: if_splits)
    ultimately show ?case using skip_ws_length [of r1] by simp
  qed
  show ?thesis
  proof (relation
    "measure (\<lambda>x. case x of
       Inl (Inl (_, _, s)) \<Rightarrow> 4 * length s + 1
     | Inl (Inr (_, _, s)) \<Rightarrow> if s = [] then 1 else 4 * length s
     | Inr (Inl (_, _, _, s)) \<Rightarrow> 4 * length s
     | Inr (Inr (Inl (_, _, s))) \<Rightarrow> if s = [] then 3 else 4 * length s
     | Inr (Inr (Inr (_, _, _, s))) \<Rightarrow> 4 * length s + 2)", goal_cases)
    case (2 lm depth s0 s c)
    then show ?case using skip_ws_length [of s0] by simp
  next
    case (3 lm depth s0 s c)
    then show ?case using skip_ws_length [of s0] by simp
  next
    case (4 lm depth s r)
    then show ?case using skip_ws_length [of "tl s"] by (cases s) auto
  next
    case (5 lm depth obj s0 s kr key r1 r)
    then have "length r1 < length s" "length r = Suc (length (tl r))"
      using parse_string_quote [of s "max_depth lm" "max_string lm" depth key r1] peek_length [of r] by simp_all
    then show ?case using 5 skip_ws_length [of s0] skip_ws_length [of r1] by simp
  next
    case (6 lm depth obj s0 s kr key r1 r vr val r2 obj' r')
    then have "length r1 < length s" "length r = Suc (length (tl r))" "length r' = Suc (length (tl r'))"
      using parse_string_quote [of s "max_depth lm" "max_string lm" depth key r1] peek_length [of r] peek_length [of r'] by simp_all
    moreover have "length r2 < length (tl r)" using 6 consumes(1) [of lm depth "tl r" val r2] by simp
    ultimately show ?case using 6 skip_ws_length [of s0] skip_ws_length [of r1] skip_ws_length [of r2] by simp
  next
    case (7 lm depth s r)
    then show ?case using skip_ws_length [of "tl s"] by (cases s) auto
  next
    case (9 lm depth arr s vr val r1 arr' r)
    then have "length r1 < length s" "length r = Suc (length (tl r))"
      using consumes(1) [of lm depth s val r1] peek_length [of r] by simp_all
    then show ?case using 9 skip_ws_length [of r1] by simp
  qed simp_all
qed

declare parse_value.simps [simp del] parse_object.simps [simp del] parse_members.simps [simp del]
  parse_array.simps [simp del] parse_elements.simps [simp del]

text \<open>The same for the total functions.\<close>

lemma consumes:
  "parse_value lm d s = Some (j, r) \<Longrightarrow> length r < length s"
  "parse_object lm d s = Some (j, r) \<Longrightarrow> length r < length s"
  "parse_members lm d obj s = Some (j, r) \<Longrightarrow> length r < length s"
  "parse_array lm d s = Some (j, r) \<Longrightarrow> length r < length s"
  "parse_elements lm d arr s = Some (j, r) \<Longrightarrow> length r < length s"
proof (induction lm d s and lm d s and lm d obj s and lm d s and lm d arr s arbitrary: j r and j r and j r and j r and j r
    rule: parse_value_parse_object_parse_members_parse_array_parse_elements.induct)
  case (1 lm d s)
  let ?s = "skip_ws s"
  have "?s \<noteq> []" using "1.prems" by (simp add: parse_value.simps [of lm d s] Let_def split: if_splits)
  moreover have "length r < length ?s"
    using "1.prems" \<open>?s \<noteq> []\<close>
    by (auto simp: parse_value.simps [of lm d s] Let_def split: if_splits
        dest: parse_literal_length parse_string_length parse_number_length 1(1,2) [OF refl refl])
  ultimately show ?case using skip_ws_length [of s] by simp
next
  case (2 lm d s)
  let ?r = "skip_ws (tl s)"
  have "length r < length ?r"
    using "2.prems" 2(1) peek_tl_length [of ?r] by (auto simp: parse_object.simps [of lm d s] Let_def split: if_splits)
  then show ?case using skip_ws_length [of "tl s"] by simp
next
  case (3 lm d obj s)
  let ?s = "skip_ws s"
  have q: "peek ?s = CHR 0x22" using "3.prems" by (simp add: parse_members.simps [of lm d obj s] Let_def split: if_splits)
  with "3.prems" obtain key r1 where k: "parse_string (max_depth lm) (max_string lm) d ?s = Some (key, r1)"
    by (auto simp: parse_members.simps [of lm d obj s] Let_def split: option.splits)
  let ?r1 = "skip_ws r1"
  have c: "peek ?r1 = CHR '':''" using "3.prems" q k by (simp add: parse_members.simps [of lm d obj s] Let_def split: if_splits)
  with "3.prems" q k obtain val r2 where v: "parse_value lm d (tl ?r1) = Some (val, r2)"
    by (auto simp: parse_members.simps [of lm d obj s] Let_def split: option.splits)
  let ?r2 = "skip_ws r2" and ?obj = "json_set key val obj"
  have "?s \<noteq> []" using q by (cases ?s) (simp_all add: peek_def)
  with parse_string_length [OF k] have l1: "length r1 < length ?s" .
  have l2: "length r2 < length (tl ?r1)" using 3(1) [OF refl _ k refl refl] q c v by simp
  have l3: "length r < length ?r2"
  proof (cases "peek ?r2 = CHR ''}''")
    case True
    then show ?thesis using "3.prems" q k c v peek_tl_length [of ?r2] by (simp add: parse_members.simps [of lm d obj s] Let_def)
  next
    case False
    then have m: "peek ?r2 = CHR '',''" "parse_members lm d ?obj (tl ?r2) = Some (j, r)"
      using "3.prems" q k c v by (simp_all add: parse_members.simps [of lm d obj s] Let_def split: if_splits)
    then have "length r < length (tl ?r2)" using 3(2) [OF refl _ k refl refl _ v refl refl refl False] q c by simp
    then show ?thesis by simp
  qed
  show ?case using l1 l2 l3 skip_ws_length [of s] skip_ws_length [of r1] skip_ws_length [of r2] by simp
next
  case (4 lm d s)
  let ?r = "skip_ws (tl s)"
  have "length r < length ?r"
    using "4.prems" 4(1) peek_tl_length [of ?r] by (auto simp: parse_array.simps [of lm d s] Let_def split: if_splits)
  then show ?case using skip_ws_length [of "tl s"] by simp
next
  case (5 lm d arr s)
  from "5.prems" obtain val r1 where v: "parse_value lm d s = Some (val, r1)"
    by (auto simp: parse_elements.simps [of lm d arr s] split: option.splits)
  have "length r1 < length s" using 5(1) v by blast
  moreover have "length r < length (skip_ws r1)"
    using "5.prems" 5(2) [OF v refl refl refl] peek_tl_length [of "skip_ws r1"] v
    by (auto simp: parse_elements.simps [of lm d arr s] Let_def split: if_splits)
  ultimately show ?case using skip_ws_length [of r1] by simp
qed

section \<open>The entry point\<close>

definition json_parse :: "JsonParseLimits \<Rightarrow> string \<Rightarrow> Json option" where
  "json_parse lm text =
    (if max_bytes lm < length text then None
     else case parse_value lm 0 text of None \<Rightarrow> None
       | Some (j, r) \<Rightarrow> if skip_ws r \<noteq> [] then None else Some j)"

end
