(* ===== verification/JsonRoundTrip.thy ===== *)
theory JsonRoundTrip imports JsonParser begin

text \<open>
  The two directions of the JSON codec: what the parser can return, and that it reads back exactly what the
  serializer writes.
\<close>

section \<open>Values within the limits\<close>

fun proper_double :: "double \<Rightarrow> bool" where
  "proper_double (Fin r) = proper r"
| "proper_double d = False"

text \<open>The values that a parser with the given limits can return at a depth.\<close>

fun json_ok :: "JsonParseLimits \<Rightarrow> nat \<Rightarrow> Json \<Rightarrow> bool" where
  "json_ok lm d (J_Number x) = proper_double x"
| "json_ok lm d (J_String s) = (d < max_depth lm \<and> length s \<le> max_string lm)"
| "json_ok lm d (J_Array xs) = (d < max_depth lm \<and> list_all (json_ok lm (Suc d)) xs)"
| "json_ok lm d (J_Object m) = (d < max_depth lm \<and> sm_ok m \<and>
     list_all (\<lambda>kv. Suc d < max_depth lm \<and> length (fst kv) \<le> max_string lm \<and> json_ok lm (Suc d) (snd kv)) m)"
| "json_ok lm d j = True"

text \<open>The value has no number \<open>2^63\<close>, which the serializer would cast out of range.\<close>

fun castable :: "Json \<Rightarrow> bool" where
  "castable (J_Number x) \<longleftrightarrow> x \<noteq> Fin (2 ^ 63)"
| "castable (J_Array xs) = list_all castable xs"
| "castable (J_Object m) = list_all (\<lambda>kv. castable (snd kv)) m"
| "castable j = True"

section \<open>The serializer\<close>

lemma to_i64_integral:
  assumes "in_i64_range (Fin r)" "r \<noteq> 2 ^ 63"
  shows "\<exists>i. to_i64 (Fin r) = Some i \<and> of_int (sint i) = r"
proof -
  have r: "of_int \<lfloor>r\<rfloor> = r" "- (2 ^ 63) \<le> r" "r < 2 ^ 63" using assms by (auto simp: in_i64_range_def)
  then have b: "- (2 ^ 63) \<le> \<lfloor>r\<rfloor>" "\<lfloor>r\<rfloor> < 2 ^ 63" by (simp_all add: floor_less_iff le_floor_iff)
  have t: "rat_trunc r = \<lfloor>r\<rfloor>" using r(1) by (metis ceiling_of_int rat_trunc_def)
  have "sint (of_int \<lfloor>r\<rfloor> :: i64) = \<lfloor>r\<rfloor>"
    using b by (simp add: sint_sbintrunc' signed_take_bit_int_eq_self)
  then have "(of_int (sint (of_int \<lfloor>r\<rfloor> :: i64)) :: rat) = r" by (simp only: r(1))
  moreover have "to_i64 (Fin r) = Some (of_int \<lfloor>r\<rfloor>)" using b by (simp add: t)
  ultimately show ?thesis by blast
qed

lemma serialize_number_ok:
  assumes "proper r" "r \<noteq> 2 ^ 63"
  shows "\<exists>t. serialize_number (Fin r) = Some (t, True) \<and>
    (\<forall>rest reject. number_end rest \<longrightarrow> parse_number reject (t @ rest) = Some (Fin r, rest))"
proof (cases "in_i64_range (Fin r)")
  case True
  obtain i where "to_i64 (Fin r) = Some i" "of_int (sint i) = r" using to_i64_integral [OF True assms(2)] by blast
  then show ?thesis using True parse_int_to_chars [of "sint i" r] proper_in_range [OF assms(1)]
    by (simp add: serialize_number_def)
next
  case False
  then show ?thesis using parse_to_chars [OF assms(1)] by (simp add: serialize_number_def)
qed

lemma number_start:
  assumes "parse_number reject (t @ rest) = Some (d, rest)"
  shows "t \<noteq> [] \<and> (hd t = CHR ''-'' \<or> is_digit (hd t))"
proof -
  have "t \<noteq> []" using parse_number_length [OF assms] by auto
  moreover have "scan_number (t @ rest) \<noteq> None" using assms by (auto simp: parse_number_def split: option.splits)
  ultimately show ?thesis
    by (cases t) (auto simp: scan_number_def scan_integer_def peek_def is_digit19_iff split: if_splits option.splits)
qed

section \<open>Parsing what was serialized\<close>

text \<open>A text that starts a value: the parser skips nothing and does not take it for a closing bracket.\<close>

definition starts_value :: "string \<Rightarrow> bool" where
  "starts_value t \<longleftrightarrow> t \<noteq> [] \<and> \<not> is_ws (hd t) \<and> hd t \<noteq> CHR '']''"

lemma skip_ws_start: "starts_value t \<Longrightarrow> skip_ws (t @ rest) = t @ rest \<and> peek (t @ rest) = hd t"
  by (cases t) (simp_all add: starts_value_def skip_ws_def peek_def)

lemma skip_ws_Cons: "\<not> is_ws c \<Longrightarrow> skip_ws (c # s) = c # s"
  by (simp add: skip_ws_def)

lemma not_ws [simp]: "\<not> is_ws CHR ''{''" "\<not> is_ws CHR ''}''" "\<not> is_ws CHR ''[''" "\<not> is_ws CHR '']''" "\<not> is_ws CHR 0x22"
  "\<not> is_ws CHR '':''" "\<not> is_ws CHR '',''" "\<not> is_ws CHR ''t''" "\<not> is_ws CHR ''f''" "\<not> is_ws CHR ''n''" "\<not> is_ws CHR ''-''"
  by (simp_all add: is_ws_def)

lemma digit_not_ws: "is_digit c \<Longrightarrow> \<not> is_ws c \<and> c \<notin> {CHR ''{'', CHR ''['', CHR 0x22, CHR ''t'', CHR ''f'', CHR ''n'', CHR '']''}"
  by (auto simp: is_ws_def is_digit_iff)

lemma peek_Cons [simp]: "peek (c # s) = c"
  by (simp add: peek_def)

text \<open>\<open>reads lm d t j\<close>: at depth \<open>d\<close> the text \<open>t\<close>, whatever follows, reads as \<open>j\<close>.\<close>

definition reads :: "JsonParseLimits \<Rightarrow> nat \<Rightarrow> string \<Rightarrow> Json \<Rightarrow> bool" where
  "reads lm d t j \<longleftrightarrow> starts_value t \<and> (\<forall>rest. number_end rest \<longrightarrow> parse_value lm d (t @ rest) = Some (j, rest))"

lemma number_end_punctuation [simp]:
  "number_end (CHR '','' # s)" "number_end (CHR '']'' # s)" "number_end (CHR ''}'' # s)" "number_end []"
  by (simp_all add: number_end_def is_digit_iff)

lemma reads_literals: "reads lm d ''null'' J_Null" "reads lm d (if b then ''true'' else ''false'') (J_Bool b)"
  by (auto simp: reads_def starts_value_def parse_value.simps Let_def skip_ws_Cons parse_literal_def)

lemma reads_number:
  assumes "\<forall>rest reject. number_end rest \<longrightarrow> parse_number reject (t @ rest) = Some (x, rest)"
  shows "reads lm d t (J_Number x)"
proof -
  have t: "t \<noteq> []" "hd t = CHR ''-'' \<or> is_digit (hd t)"
    using number_start [of True t "[]"] assms by (simp_all add: number_end_def)
  then have "starts_value t" using digit_not_ws [of "hd t"] by (auto simp: starts_value_def)
  moreover have "parse_value lm d (t @ rest) = Some (J_Number x, rest)" if "number_end rest" for rest
    using skip_ws_start [OF \<open>starts_value t\<close>, of rest] t digit_not_ws [of "hd t"] assms that
    by (auto simp: parse_value.simps Let_def)
  ultimately show ?thesis by (simp add: reads_def)
qed

lemma reads_string: "d < max_depth lm \<Longrightarrow> length s \<le> max_string lm \<Longrightarrow> reads lm d (serialize_string s) (J_String s)"
  using parse_string_serialized [of d "max_depth lm" s "max_string lm"]
  by (auto simp: reads_def starts_value_def serialize_string_def parse_value.simps Let_def skip_ws_Cons)

lemma parse_elements_ok:
  assumes "list_all2 (reads lm d) ts xs" "xs \<noteq> []"
  shows "parse_elements lm d (J_Array ys) (join_comma ts @ CHR '']'' # rest) = Some (J_Array (ys @ xs), rest)"
  using assms
proof (induction ts arbitrary: xs ys rule: join_comma.induct)
  case (2 t)
  then obtain x where "xs = [x]" "reads lm d t x" by (auto simp: list_all2_Cons1)
  then show ?case by (subst parse_elements.simps) (simp add: reads_def skip_ws_Cons)
next
  case (3 t u us)
  then obtain x zs where x: "xs = x # zs" "reads lm d t x" "list_all2 (reads lm d) (u # us) zs" by (auto simp: list_all2_Cons1)
  then have IH: "parse_elements lm d (J_Array (ys @ [x])) (join_comma (u # us) @ CHR '']'' # rest) = Some (J_Array (ys @ x # zs), rest)"
    using "3.IH" [of zs "ys @ [x]"] by auto
  have "parse_value lm d (t @ CHR '','' # r) = Some (x, CHR '','' # r)" for r using x(2) by (simp add: reads_def)
  then show ?case using IH by (subst parse_elements.simps) (simp add: skip_ws_Cons x(1))
qed simp

lemma join_starts: "ts \<noteq> [] \<Longrightarrow> list_all starts_value ts \<Longrightarrow> starts_value (join_comma ts)"
  by (induction ts rule: join_comma.induct) (auto simp: starts_value_def)

lemma reads_array:
  assumes "list_all2 (reads lm (Suc d)) ts xs" "d < max_depth lm"
  shows "reads lm d (CHR ''['' # join_comma ts @ '']'') (J_Array xs)"
proof -
  have "parse_array lm d (CHR ''['' # join_comma ts @ CHR '']'' # rest) = Some (J_Array xs, rest)" for rest
  proof (cases "xs = []")
    case True
    then show ?thesis using assms by (subst parse_array.simps) (simp add: skip_ws_Cons)
  next
    case False
    then have "ts \<noteq> []" "list_all starts_value ts" using assms(1) by (auto simp: list_all2_conv_all_nth list_all_length reads_def)
    then have s: "starts_value (join_comma ts)" by (rule join_starts)
    then have "hd (join_comma ts) \<noteq> CHR '']''" by (simp add: starts_value_def)
    with parse_elements_ok [OF assms(1) False, of "[]" rest] skip_ws_start [OF s] assms(2) show ?thesis
      by (subst parse_array.simps) (simp add: Let_def)
  qed
  then show ?thesis by (auto simp: reads_def starts_value_def parse_value.simps Let_def skip_ws_Cons)
qed

lemma sm_assign_last: "\<forall>k' \<in> fst ` set m. k' < k \<Longrightarrow> sm_assign k v m = m @ [(k, v)]"
  by (induction k v m rule: sm_assign.induct) auto

lemma sm_ok_append: "sm_ok (m @ (k, v) # m') \<Longrightarrow> \<forall>k' \<in> fst ` set m. k' < k"
  by (auto simp: sm_ok_def sorted_wrt_append)

text \<open>A member of an object, as the serializer writes it.\<close>

definition member_text :: "string \<Rightarrow> string \<Rightarrow> string" where
  "member_text k t = serialize_string k @ CHR '':'' # t"

definition reads_member :: "JsonParseLimits \<Rightarrow> nat \<Rightarrow> string \<Rightarrow> string \<times> Json \<Rightarrow> bool" where
  "reads_member lm d t kv \<longleftrightarrow> d < max_depth lm \<and> length (fst kv) \<le> max_string lm \<and>
     (\<exists>u. t = member_text (fst kv) u \<and> reads lm d u (snd kv))"

text \<open>One turn of the loop over the members.\<close>

lemma parse_member_step:
  assumes "reads_member lm d t (k, v)" "number_end (c # rest)"
  shows "parse_members lm d obj (t @ c # rest) =
    (let obj' = json_set k v obj; r = skip_ws (c # rest) in
     if peek r = CHR ''}'' then Some (obj', tl r)
     else if peek r \<noteq> CHR '','' then None
     else parse_members lm d obj' (tl r))"
proof -
  obtain u where u: "t = member_text k u" "reads lm d u v" "d < max_depth lm" "length k \<le> max_string lm"
    using assms(1) by (auto simp: reads_member_def)
  have t: "t @ c # rest = serialize_string k @ CHR '':'' # (u @ c # rest)" by (simp add: u(1) member_text_def)
  have str: "parse_string (max_depth lm) (max_string lm) d (t @ c # rest) = Some (k, CHR '':'' # (u @ c # rest))"
    unfolding t by (rule parse_string_serialized [OF u(3,4)])
  have s: "skip_ws (t @ c # rest) = t @ c # rest" "peek (t @ c # rest) = CHR 0x22"
    by (simp_all add: t serialize_string_def skip_ws_Cons)
  have v: "parse_value lm d (u @ c # rest) = Some (v, c # rest)" using u(2) assms(2) by (simp add: reads_def)
  show ?thesis by (subst parse_members.simps) (simp add: s str v skip_ws_Cons Let_def)
qed

lemma parse_members_ok:
  assumes "list_all2 (reads_member lm d) ts kvs" "kvs \<noteq> []" "sm_ok (m @ kvs)"
  shows "parse_members lm d (J_Object m) (join_comma ts @ CHR ''}'' # rest) = Some (J_Object (m @ kvs), rest)"
  using assms
proof (induction ts arbitrary: kvs m rule: join_comma.induct)
  case (2 t)
  then obtain k v where kv: "kvs = [(k, v)]" "reads_member lm d t (k, v)" by (auto simp: list_all2_Cons1)
  then show ?case using 2 sm_ok_append [of m k v "[]"]
    by (simp add: parse_member_step Let_def skip_ws_Cons sm_assign_last)
next
  case (3 t u us)
  then obtain k v zs where kv: "kvs = (k, v) # zs" "reads_member lm d t (k, v)" "list_all2 (reads_member lm d) (u # us) zs"
    by (auto simp: list_all2_Cons1)
  then have "parse_members lm d (J_Object (m @ [(k, v)])) (join_comma (u # us) @ CHR ''}'' # rest) =
      Some (J_Object (m @ (k, v) # zs), rest)" using "3.IH" [of zs "m @ [(k, v)]"] "3.prems"(3) by auto
  moreover have "sm_assign k v m = m @ [(k, v)]"
    using sm_ok_append [of m k v zs] "3.prems"(3) by (simp add: kv(1) sm_assign_last)
  ultimately show ?case by (simp add: parse_member_step [OF kv(2)] Let_def skip_ws_Cons kv(1))
qed simp

lemma reads_object:
  assumes "list_all2 (reads_member lm (Suc d)) ts kvs" "sm_ok kvs" "d < max_depth lm"
  shows "reads lm d (CHR ''{'' # join_comma ts @ ''}'') (J_Object kvs)"
proof -
  have "parse_object lm d (CHR ''{'' # join_comma ts @ CHR ''}'' # rest) = Some (J_Object kvs, rest)" for rest
  proof (cases "kvs = []")
    case True
    then show ?thesis using assms by (subst parse_object.simps) (simp add: skip_ws_Cons)
  next
    case False
    then have "ts \<noteq> []" "list_all (\<lambda>t. starts_value t \<and> hd t = CHR 0x22) ts"
      using assms(1) by (auto simp: list_all2_conv_all_nth list_all_length reads_member_def member_text_def
          serialize_string_def starts_value_def)
    then have s: "starts_value (join_comma ts)" "hd (join_comma ts) = CHR 0x22"
      using join_starts [of ts] by (auto simp: list_all_iff neq_Nil_conv) (cases ts rule: join_comma.cases; auto simp: starts_value_def)
    with parse_members_ok [OF assms(1) False, of "[]" rest] skip_ws_start [OF s(1)] assms(2,3) show ?thesis
      by (subst parse_object.simps) (simp add: Let_def)
  qed
  then show ?thesis by (auto simp: reads_def starts_value_def parse_value.simps Let_def skip_ws_Cons)
qed

text \<open>The serializer succeeds on a value within the limits, and its text reads as the value.\<close>

lemma serialize_reads:
  "json_ok lm d j \<Longrightarrow> castable j \<Longrightarrow> \<exists>t. serialize_to j = Some (t, True) \<and> reads lm d t j"
proof (induction j arbitrary: d)
  case (J_Number x)
  then obtain r where r: "x = Fin r" "proper r" "r \<noteq> 2 ^ 63" by (cases x) auto
  then show ?case using serialize_number_ok [OF r(2,3)] reads_number by (metis serialize_to.simps(3))
next
  case (J_Array xs)
  have "\<exists>ts. those (map serialize_to ys) = Some (map (\<lambda>t. (t, True)) ts) \<and> list_all2 (reads lm (Suc d)) ts ys"
    if "set ys \<subseteq> set xs" for ys
    using that
  proof (induction ys)
    case (Cons y ys)
    then obtain t where "serialize_to y = Some (t, True)" "reads lm (Suc d) t y"
      using J_Array.IH [of y "Suc d"] J_Array.prems by (auto simp: list_all_iff)
    moreover obtain ts where "those (map serialize_to ys) = Some (map (\<lambda>t. (t, True)) ts)" "list_all2 (reads lm (Suc d)) ts ys"
      using Cons by auto
    ultimately show ?case by (intro exI [of _ "t # ts"]) simp
  qed simp
  then obtain ts where "those (map serialize_to xs) = Some (map (\<lambda>t. (t, True)) ts)" "list_all2 (reads lm (Suc d)) ts xs" by blast
  then show ?case using reads_array [of lm d ts xs] J_Array.prems by (simp add: comp_def list_all_iff)
next
  case (J_Object m)
  let ?f = "\<lambda>kv. map_option (\<lambda>p. (serialize_string (fst kv) @ CHR '':'' # fst p, snd p)) (serialize_to (snd kv))"
  have "\<exists>ts. those (map ?f kvs) = Some (map (\<lambda>t. (t, True)) ts) \<and> list_all2 (reads_member lm (Suc d)) ts kvs"
    if "set kvs \<subseteq> set m" for kvs
    using that
  proof (induction kvs)
    case (Cons kv kvs)
    have "snd kv \<in> Basic_BNFs.snds kv" by (cases kv) simp
    moreover have "json_ok lm (Suc d) (snd kv)" "castable (snd kv)"
      using Cons.prems J_Object.prems by (auto simp: list_all_iff)
    ultimately obtain t where t: "serialize_to (snd kv) = Some (t, True)" "reads lm (Suc d) t (snd kv)"
      using J_Object.IH [of kv "snd kv" "Suc d"] Cons.prems by auto
    have "reads_member lm (Suc d) (member_text (fst kv) t) kv"
      using Cons.prems J_Object.prems t(2) by (auto simp: reads_member_def list_all_iff)
    moreover obtain ts where "those (map ?f kvs) = Some (map (\<lambda>t. (t, True)) ts)" "list_all2 (reads_member lm (Suc d)) ts kvs"
      using Cons by auto
    ultimately show ?case using t(1) by (intro exI [of _ "member_text (fst kv) t # ts"]) (simp add: member_text_def)
  qed simp
  then obtain ts where "those (map ?f m) = Some (map (\<lambda>t. (t, True)) ts)" "list_all2 (reads_member lm (Suc d)) ts m" by blast
  then show ?case using reads_object [of lm d ts m] J_Object.prems by (simp add: comp_def list_all_iff)
next
  case J_Null
  show ?case by (rule exI, rule conjI [OF _ reads_literals(1)]) simp
next
  case (J_Bool b)
  show ?case by (rule exI, rule conjI [OF _ reads_literals(2)]) simp
next
  case (J_String s)
  then show ?case using reads_string [of d lm s] by simp
qed

lemma json_reparse:
  assumes "json_ok lm 0 j" "castable j"
  shows "\<exists>text. json_serialize j = Some (Some text) \<and> json_dump j = Some text \<and>
    (length text \<le> max_bytes lm \<longrightarrow> json_parse lm text = Some j)"
proof -
  obtain t where t: "serialize_to j = Some (t, True)" "reads lm 0 t j" using serialize_reads [OF assms] by blast
  have "parse_value lm 0 (t @ []) = Some (j, [])" using t(2) number_end_punctuation(4) unfolding reads_def by blast
  then show ?thesis using t(1) by (simp add: json_serialize_def json_dump_def json_parse_def skip_ws_def)
qed

text \<open>
  C10. JSON round trip: a value within the parser's limits whose numbers are values of doubles, and which does not contain
  the number \<open>2^63\<close>, serializes without undefined behaviour, and the parser reads the text back as exactly
  that value, when the text is within the byte limit. Integers, fractions, escapes, nesting and key order are included.
\<close>

theorem json_round_trip:
  assumes "json_ok lm 0 j" "castable j"
  shows "\<exists>text. json_serialize j = Some (Some text) \<and> json_dump j = Some text \<and>
    (length text \<le> max_bytes lm \<longrightarrow> json_parse lm text = Some j)"
  using assms by (rule json_reparse)

lemma json_round_trip_witness:
  "\<exists>text. json_serialize (J_Object [(''a'', J_Array [J_Number (Fin (1/4)), J_String [CHR 0x0A]])]) = Some (Some text)"
proof -
  have "rnd64 (1/4) = 1/4" by code_simp
  then have "proper (1/4)" by (simp add: proper_def fl_def Let_def)
  then have "json_ok default_limits 0 (J_Object [(''a'', J_Array [J_Number (Fin (1/4)), J_String [CHR 0x0A]])])"
    by (simp add: default_limits_def sm_ok_def)
  from json_round_trip [OF this] show ?thesis by auto
qed

section \<open>What the parser returns\<close>

lemma parse_chars_bound: "length str \<le> m \<Longrightarrow> parse_chars m str s = Some (v, r) \<Longrightarrow> length v \<le> m"
proof (induction m str s rule: parse_chars.induct)
  case (1 m str s)
  show ?case
  proof (cases "s = [] \<or> hd s = CHR 0x22")
    case True
    then show ?thesis using "1.prems" by (auto simp: parse_chars.simps [of m str s] split: if_splits)
  next
    case False
    then obtain bs r' where c: "parse_char s = Some (bs, r')" "\<not> m < length (str @ bs)" "parse_chars m (str @ bs) r' = Some (v, r)"
      using "1.prems" by (auto simp: parse_chars.simps [of m str s] split: if_splits option.splits)
    then show ?thesis using False "1.IH" [of "(bs, r')" bs r'] by simp
  qed
qed

lemma parse_string_ok: "parse_string md ms d s = Some (v, r) \<Longrightarrow> d < md \<and> length v \<le> ms"
  by (auto simp: parse_string_def split: if_splits dest: parse_chars_bound [rotated])

lemma fl_proper: assumes "isfinite (fl q)" shows "proper_double (fl q)"
proof -
  obtain v where v: "fl q = Fin v" using assms by (auto simp: isfinite_iff)
  then have "v = rnd64 q" by (auto simp: fl_def Let_def split: if_splits simp del: power_numeral)
  then have "rnd64 v = v" by (simp add: rnd64_exact representable_rnd64)
  then have "fl v = fl q" unfolding fl_def Let_def by (simp add: \<open>v = rnd64 q\<close> del: power_numeral)
  with v show ?thesis by (simp add: proper_def)
qed

lemma parse_number_proper: assumes "parse_number b s = Some (x, r)" shows "proper_double x"
proof -
  obtain q where "in_range q = Some x"
    using assms by (auto simp: parse_number_def from_chars_def Let_def split: option.splits if_splits prod.splits)
  then have "fl q = x" "isfinite x" by (auto simp: in_range_def Let_def split: if_splits)
  then show ?thesis using fl_proper by blast
qed

lemma parse_literal_value: "parse_literal lit v s = Some (j, r) \<Longrightarrow> j = v"
  by (simp add: parse_literal_def split: if_splits)

definition members_ok :: "JsonParseLimits \<Rightarrow> nat \<Rightarrow> Json \<Rightarrow> bool" where
  "members_ok lm d j \<longleftrightarrow> (\<exists>m. j = J_Object m \<and> sm_ok m \<and>
     list_all (\<lambda>kv. d < max_depth lm \<and> length (fst kv) \<le> max_string lm \<and> json_ok lm d (snd kv)) m)"

definition elements_ok :: "JsonParseLimits \<Rightarrow> nat \<Rightarrow> Json \<Rightarrow> bool" where
  "elements_ok lm d j \<longleftrightarrow> (\<exists>xs. j = J_Array xs \<and> list_all (json_ok lm d) xs)"

lemma set_sm_assign: "set (sm_assign k v m) \<subseteq> insert (k, v) (set m)"
  by (induction k v m rule: sm_assign.induct) auto

lemma members_ok_set:
  "members_ok lm d j \<Longrightarrow> d < max_depth lm \<and> length k \<le> max_string lm \<Longrightarrow> json_ok lm d v \<Longrightarrow> members_ok lm d (json_set k v j)"
  using set_sm_assign [of k v] by (fastforce simp: members_ok_def list_all_iff sm_ok_assign)

lemma elements_ok_push: "elements_ok lm d j \<Longrightarrow> json_ok lm d v \<Longrightarrow> elements_ok lm d (push_back v j)"
  by (auto simp: elements_ok_def)

lemma parser_ok:
  "parse_value lm d s = Some (j, r) \<Longrightarrow> json_ok lm d j"
  "parse_object lm d s = Some (j, r) \<Longrightarrow> json_ok lm d j"
  "parse_members lm d obj s = Some (j, r) \<Longrightarrow> members_ok lm d obj \<Longrightarrow> members_ok lm d j"
  "parse_array lm d s = Some (j, r) \<Longrightarrow> json_ok lm d j"
  "parse_elements lm d arr s = Some (j, r) \<Longrightarrow> elements_ok lm d arr \<Longrightarrow> elements_ok lm d j"
proof (induction lm d s and lm d s and lm d obj s and lm d s and lm d arr s arbitrary: j r and j r and j r and j r and j r
    rule: parse_value_parse_object_parse_members_parse_array_parse_elements.induct)
  case (1 lm d s)
  then show ?case
    by (auto simp: parse_value.simps [of lm d s] Let_def split: if_splits
        dest: parse_string_ok parse_number_proper parse_literal_value)
next
  case (2 lm d s)
  have "members_ok lm (Suc d) (J_Object [])" by (simp add: members_ok_def)
  with 2 show ?case by (fastforce simp: parse_object.simps [of lm d s] Let_def members_ok_def split: if_splits)
next
  case (3 lm d obj s)
  let ?s = "skip_ws s"
  from "3.prems" obtain key r1 val r2 where k: "peek ?s = CHR 0x22"
    "parse_string (max_depth lm) (max_string lm) d ?s = Some (key, r1)" "peek (skip_ws r1) = CHR '':''"
    "parse_value lm d (tl (skip_ws r1)) = Some (val, r2)"
    by (auto simp: parse_members.simps [of lm d obj s] Let_def split: if_splits option.splits)
  have "json_ok lm d val" using "3.IH"(1) [OF refl _ k(2) refl refl _ k(4)] k by simp
  then have m: "members_ok lm d (json_set key val obj)"
    using "3.prems"(2) parse_string_ok [OF k(2)] by (intro members_ok_set) simp_all
  show ?case
  proof (cases "peek (skip_ws r2) = CHR ''}''")
    case True
    then show ?thesis using "3.prems"(1) k m by (simp add: parse_members.simps [of lm d obj s] Let_def)
  next
    case False
    then have "peek (skip_ws r2) = CHR '',''" "parse_members lm d (json_set key val obj) (tl (skip_ws r2)) = Some (j, r)"
      using "3.prems"(1) k by (simp_all add: parse_members.simps [of lm d obj s] Let_def split: if_splits)
    then show ?thesis using "3.IH"(2) [OF refl _ k(2) refl refl _ k(4) refl refl refl False] k m by simp
  qed
next
  case (4 lm d s)
  have "elements_ok lm (Suc d) (J_Array [])" by (simp add: elements_ok_def)
  with 4 show ?case by (fastforce simp: parse_array.simps [of lm d s] Let_def elements_ok_def split: if_splits)
next
  case (5 lm d arr s)
  then show ?case
    by (auto simp: parse_elements.simps [of lm d arr s] Let_def elements_ok_push split: if_splits option.splits)
qed

text \<open>The nesting of a value.\<close>

fun json_depth :: "Json \<Rightarrow> nat" where
  "json_depth (J_Array xs) = Suc (fold max (map json_depth xs) 0)"
| "json_depth (J_Object m) = Suc (fold max (map (\<lambda>kv. json_depth (snd kv)) m) 0)"
| "json_depth j = 0"

lemma fold_max_le: "fold max xs (n::nat) \<le> b \<longleftrightarrow> n \<le> b \<and> (\<forall>x \<in> set xs. x \<le> b)"
  by (induction xs arbitrary: n) auto

lemma json_ok_depth: "json_ok lm d j \<Longrightarrow> d \<le> max_depth lm \<Longrightarrow> d + json_depth j \<le> max_depth lm"
proof (induction j arbitrary: d)
  case (J_Array xs)
  then have "\<forall>x \<in> set xs. json_depth x \<le> max_depth lm - Suc d" by (fastforce simp: list_all_iff)
  then have "fold max (map json_depth xs) 0 \<le> max_depth lm - Suc d" by (simp add: fold_max_le)
  then show ?case using J_Array.prems by auto
next
  case (J_Object m)
  have "json_depth (snd kv) \<le> max_depth lm - Suc d" if kv: "kv \<in> set m" for kv
  proof -
    have "snd kv \<in> Basic_BNFs.snds kv" by (cases kv) simp
    moreover have "json_ok lm (Suc d) (snd kv)" using J_Object.prems kv by (auto simp: list_all_iff)
    ultimately show ?thesis using J_Object.IH [OF kv, of "snd kv" "Suc d"] J_Object.prems by simp
  qed
  then have "fold max (map (\<lambda>kv. json_depth (snd kv)) m) 0 \<le> max_depth lm - Suc d" by (simp add: fold_max_le)
  then show ?case using J_Object.prems by auto
qed auto

lemma json_ok_finite: "json_ok lm d j \<Longrightarrow> is_finite j"
proof (induction j arbitrary: d)
  case (J_Number x)
  then show ?case by (cases x) simp_all
next
  case (J_Array xs)
  then show ?case by (auto simp: list_all_iff)
next
  case (J_Object m)
  have "is_finite (snd kv)" if kv: "kv \<in> set m" for kv
  proof -
    have "snd kv \<in> Basic_BNFs.snds kv" by (cases kv) simp
    then show ?thesis using J_Object.IH [OF kv, of "snd kv" "Suc d"] J_Object.prems kv by (auto simp: list_all_iff)
  qed
  then show ?case by (simp add: list_all_iff)
qed simp_all

text \<open>
  C28. The limits of the parser hold of what it returns: an accepted text is within the byte limit, and its value nests
  at most \<open>max_depth\<close> deep, has strings and keys of at most \<open>max_string\<close> bytes, objects with distinct keys in ascending
  order and only finite numbers. If no number is \<open>2^63\<close>, the value also serializes, and its text reads back as the same value.
\<close>

theorem parsed_within_limits:
  assumes "json_parse lm text = Some j"
  shows "length text \<le> max_bytes lm \<and> json_ok lm 0 j \<and> json_depth j \<le> max_depth lm \<and> is_finite j \<and>
    (castable j \<longrightarrow> (\<exists>text'. json_serialize j = Some (Some text') \<and>
       (length text' \<le> max_bytes lm \<longrightarrow> json_parse lm text' = Some j)))"
proof -
  obtain r where r: "length text \<le> max_bytes lm" "parse_value lm 0 text = Some (j, r)"
    using assms by (auto simp: json_parse_def split: if_splits option.splits)
  have ok: "json_ok lm 0 j" using r(2) by (rule parser_ok(1))
  show ?thesis using r(1) ok json_ok_depth [OF ok] json_ok_finite [OF ok] json_reparse [OF ok] by auto
qed

definition small_limits :: JsonParseLimits where
  "small_limits = \<lparr>max_depth = 3, max_bytes = 40, max_string = 10, reject_non_finite = True\<rparr>"

definition sample_text :: string where
  "sample_text = ''{'' @ [CHR 0x22] @ ''k'' @ [CHR 0x22] @ '': [true, null] }''"

lemma sample_text_parses: "json_parse small_limits sample_text = Some (J_Object [(''k'', J_Array [J_Bool True, J_Null])])"
  by code_simp

lemma parsed_within_limits_witness: "length sample_text \<le> max_bytes small_limits \<and>
    json_depth (J_Object [(''k'', J_Array [J_Bool True, J_Null])]) \<le> max_depth small_limits"
  using parsed_within_limits [OF sample_text_parses] by blast

text \<open>
  C29. Every function of the recursive parser returns on every text, since a value, an object, an array and each
  of their loops consume at least one character before they succeed, whatever the limits and the depth.
\<close>

theorem parser_progress:
  assumes "parse_value lm d s = Some (j, r) \<or> parse_object lm d s = Some (j, r) \<or> parse_members lm d obj s = Some (j, r) \<or>
    parse_array lm d s = Some (j, r) \<or> parse_elements lm d arr s = Some (j, r)"
  shows "length r < length s"
  using assms by (elim disjE) (erule consumes)+

lemma parser_progress_witness: "length ''x'' < length ''null x''"
proof -
  have "parse_value small_limits 0 ''null x'' = Some (J_Null, '' x'')" by code_simp
  then show ?thesis using parser_progress [of small_limits 0 "''null x''" J_Null "'' x''"] by simp
qed

text \<open>
  The bound \<open>2^63\<close> is accepted by the range test of the accessor and of the serializer, which compare with the largest
  \<open>int64\<close> converted to a double: a text that the parser accepts makes both cast out of range.
\<close>

lemma int64_cast_overflow:
  "json_parse default_limits ''9223372036854775808'' = Some (J_Number (Fin (2 ^ 63))) \<and>
   as_int64 (J_Number (Fin (2 ^ 63))) = None \<and> json_serialize (J_Number (Fin (2 ^ 63))) = None"
proof (intro conjI)
  have "proper (2 ^ 63)" using rnd64_pow2 [of 63] pow2_mono [of 63 1023]
    by (simp add: proper_def fl_Fin pow2_nat del: power_numeral)
  then have "parse_number reject (int_to_chars (2 ^ 63) @ rest) = Some (Fin (2 ^ 63), rest)" if "number_end rest" for reject rest
    using proper_in_range [of "2 ^ 63"] that by (intro parse_int_to_chars) simp_all
  then have "reads default_limits 0 (int_to_chars (2 ^ 63)) (J_Number (Fin (2 ^ 63)))" by (intro reads_number) blast
  moreover have "int_to_chars (2 ^ 63) = ''9223372036854775808''"
    by (simp add: int_to_chars_def num_text_def dec.simps dec_digit_def) code_simp
  ultimately have "parse_value default_limits 0 (''9223372036854775808'' @ []) = Some (J_Number (Fin (2 ^ 63)), [])"
    using number_end_punctuation(4) unfolding reads_def by metis
  then show "json_parse default_limits ''9223372036854775808'' = Some (J_Number (Fin (2 ^ 63)))"
    by (simp add: json_parse_def default_limits_def skip_ws_def)
qed (simp_all add: as_int64_def json_serialize_def serialize_number_def in_i64_range_def rat_trunc_def)

end
