(* ===== verification/JsonFields.thy ===== *)
theory JsonFields imports JsonRoundTrip begin

text \<open>
  How serialize.cpp writes and reads the members of a JSON object: the helper functions at its top, the idioms it
  repeats (\<open>if (const Json* v = j.find(k)) field = ...\<close>, \<open>value_or\<close>), and the exact range of the integers that
  survive the way through \<open>int64_t\<close> and \<open>double\<close>.
\<close>

section \<open>Writing\<close>

text \<open>\<open>Json(static_cast<std::int64_t>(w))\<close>: two's complement, then the nearest double.\<close>

definition jint :: "u64 \<Rightarrow> Json" where
  "jint w = J_Number (fl (of_int (sint w)))"

definition jint32 :: "u32 \<Rightarrow> Json" where
  "jint32 w = J_Number (fl (of_nat (unat w)))"

definition jint_signed :: "i32 \<Rightarrow> Json" where
  "jint_signed w = J_Number (fl (of_int (sint w)))"

text \<open>An object that is filled by \<open>r[key] = value\<close> in this order.\<close>

definition json_object :: "(string \<times> Json) list \<Rightarrow> Json" where
  "json_object kvs = fold (\<lambda>(k, v) r. json_set k v r) kvs (J_Object [])"

section \<open>Reading\<close>

definition value_or :: "'a \<Rightarrow> 'a option \<Rightarrow> 'a" where
  "value_or d x = (case x of None \<Rightarrow> d | Some v \<Rightarrow> v)"

text \<open>\<open>if (const Json* v = j.find(k)) out = f(*v);\<close>\<close>

definition field_or :: "Json \<Rightarrow> string \<Rightarrow> (Json \<Rightarrow> 'a) \<Rightarrow> 'a \<Rightarrow> 'a" where
  "field_or j k f old = (case json_find k j of None \<Rightarrow> old | Some v \<Rightarrow> f v)"

definition num_or_nullopt :: "Json \<Rightarrow> string \<Rightarrow> double option" where
  "num_or_nullopt j k = (case json_find k j of None \<Rightarrow> None | Some v \<Rightarrow> as_number v)"

definition string_or_nullopt :: "Json \<Rightarrow> string \<Rightarrow> string option" where
  "string_or_nullopt j k = (case json_find k j of None \<Rightarrow> None | Some v \<Rightarrow> as_string v)"

text \<open>The \<open>write_\<close> functions store what they read and return whether they could.\<close>

definition write_u64 :: "Json \<Rightarrow> string \<Rightarrow> u64 option" where
  "write_u64 j k = (case json_find k j of None \<Rightarrow> None | Some v \<Rightarrow> as_uint64 v)"

definition write_double :: "Json \<Rightarrow> string \<Rightarrow> double option" where
  "write_double j k = (case json_find k j of None \<Rightarrow> None
     | Some v \<Rightarrow> (case as_number v of None \<Rightarrow> None | Some d \<Rightarrow> if isfinite d then Some d else None))"

definition write_string :: "Json \<Rightarrow> string \<Rightarrow> string option" where
  "write_string j k = (case json_find k j of None \<Rightarrow> None | Some v \<Rightarrow> as_string v)"

definition u64_or :: "u64 \<Rightarrow> Json \<Rightarrow> u64" where
  "u64_or d v = value_or d (as_uint64 v)"

definition number_or :: "double \<Rightarrow> Json \<Rightarrow> double" where
  "number_or d v = value_or d (as_number v)"

definition bool_or :: "bool \<Rightarrow> Json \<Rightarrow> bool" where
  "bool_or d v = value_or d (as_bool v)"

definition text_of :: "Json \<Rightarrow> string" where
  "text_of v = value_or [] (as_string v)"

text \<open>\<open>as_int64().value_or(d)\<close>; \<open>None\<close> is the undefined cast.\<close>

definition i64_or :: "i64 \<Rightarrow> Json \<Rightarrow> i64 option" where
  "i64_or d v = map_option (value_or d) (as_int64 v)"

section \<open>Objects\<close>

lemma json_find_set: "json_find k (json_set k' v (J_Object m)) = (if k = k' then Some v else json_find k (J_Object m))"
  by (simp add: sm_find_assign)

lemma json_object_shape: "\<exists>m. json_object kvs = J_Object m \<and> sm_ok m \<and> set m \<subseteq> set kvs"
proof (induction kvs rule: rev_induct)
  case (snoc kv kvs)
  then obtain m where m: "json_object kvs = J_Object m" "sm_ok m" "set m \<subseteq> set kvs" by blast
  obtain k v where kv: "kv = (k, v)" by (cases kv)
  have "json_object (kvs @ [kv]) = json_set k v (json_object kvs)" by (simp add: json_object_def kv)
  then show ?case using m set_sm_assign [of k v m] by (auto simp: kv sm_ok_assign)
qed (simp add: json_object_def)

lemma json_find_object: "json_find k (json_object kvs) = map_of (rev kvs) k"
proof (induction kvs rule: rev_induct)
  case (snoc kv kvs)
  obtain m where m: "json_object kvs = J_Object m" using json_object_shape by blast
  have "json_object (kvs @ [kv]) = json_set (fst kv) (snd kv) (json_object kvs)" by (simp add: json_object_def split_beta)
  with snoc show ?case by (cases kv) (auto simp: m sm_find_assign)
qed (simp add: json_object_def)

lemma json_type_object [simp]: "json_type (json_object kvs) = JT_Object"
  using json_object_shape [of kvs] by auto

section \<open>Integers\<close>

lemma sint_unat: "sint (w :: u64) = (int (unat w) + 2 ^ 63) mod 2 ^ 64 - 2 ^ 63"
  using int_word_sint [of "int (unat w)", where 'a = 64] by simp

lemma sint_small: fixes w :: u64 assumes "unat w < 2 ^ 63" shows "sint w = int (unat w)"
proof -
  obtain n where n: "unat w = n" by simp
  show ?thesis using assms unfolding sint_unat n by simp
qed

lemma sint_big: fixes w :: u64 assumes "2 ^ 63 \<le> unat w" shows "sint w < 0"
proof -
  obtain n where n: "unat w = n" by simp
  have b: "int n < 2 ^ 64" using unsigned_less [of w, where 'a = nat] by (simp add: n)
  have "(int n + 2 ^ 63) mod 2 ^ 64 = (int n + 2 ^ 63 - 2 ^ 64) mod 2 ^ 64" by (rule minus_mod_self2 [symmetric])
  also have "\<dots> = int n + 2 ^ 63 - 2 ^ 64" using assms b by (intro mod_pos_pos_trivial) (simp_all add: n)
  finally show ?thesis using b unfolding sint_unat n by simp
qed

lemma as_uint64_Fin: "as_uint64 (J_Number (Fin r)) =
    (if of_int \<lfloor>r\<rfloor> \<noteq> r \<or> r < 0 \<or> 9007199254740992 < r then None else Some (of_int \<lfloor>r\<rfloor>))"
  by (auto simp: as_uint64_def dlt_def rat_trunc_def floor_less_iff Let_def)

lemma fl_i64: "fl (of_int (sint (w :: u64))) = Fin (rnd64 (of_int (sint w)))"
proof -
  have "\<bar>sint w\<bar> \<le> 2 ^ 63" using sint_ge [of w] sint_lt [of w] by simp
  then have "\<bar>of_int (sint w) :: rat\<bar> \<le> of_int (2 ^ 63)" by (simp only: of_int_le_iff flip: of_int_abs)
  also have "\<dots> \<le> pow2 1023" using pow2_mono [of 63 1023] by (simp add: pow2_nat)
  finally show ?thesis by (rule fl_Fin)
qed

lemma counter_read:
  "as_uint64 (jint w) =
    (if unat w \<le> 2 ^ 53 then Some w else if unat w = 2 ^ 53 + 1 then Some (2 ^ 53) else None)"
proof -
  let ?n = "sint w"
  have val: "as_uint64 (jint w) = as_uint64 (J_Number (Fin (rnd64 (of_int ?n))))" unfolding jint_def fl_i64 ..
  consider (small) "unat w \<le> 2 ^ 53" | (odd) "unat w = 2 ^ 53 + 1" | (mid) "2 ^ 53 + 2 \<le> unat w" "unat w < 2 ^ 63" | (big) "2 ^ 63 \<le> unat w"
    by linarith
  then show ?thesis
  proof cases
    case small
    obtain k where k: "unat w = k" by simp
    have n: "?n = int k" using small sint_small [of w] unfolding k by simp
    have "of_nat (unat w) = w" by simp
    then have w: "of_nat k = w" unfolding k .
    have "rnd64 (of_int (int k)) = of_int (int k)" using small k by (intro rnd64_int) simp
    then show ?thesis using small w unfolding val as_uint64_Fin n by (simp add: k)
  next
    case odd
    then have "?n = 9007199254740993" using sint_small [of w] by (simp only: odd) simp
    moreover have "rnd64 9007199254740993 = 9007199254740992" by code_simp
    ultimately show ?thesis using odd unfolding val as_uint64_Fin by simp
  next
    case mid
    obtain k where k: "unat w = k" by simp
    have n: "9007199254740994 \<le> ?n" using mid sint_small [of w] unfolding k by simp
    have "rnd64 (of_int 9007199254740994) \<le> rnd64 (of_int ?n)" using n by (intro rnd64_mono) (simp only: of_int_le_iff)
    moreover have "rnd64 9007199254740994 = 9007199254740994" by code_simp
    ultimately show ?thesis using mid unfolding val as_uint64_Fin by simp
  next
    case big
    then have "?n \<le> - 1" using sint_big [of w] by simp
    then have "(of_int ?n :: rat) \<le> of_int (- 1)" by (simp only: of_int_le_iff)
    then have "rnd64 (of_int ?n) \<le> rnd64 (- 1)" by (intro rnd64_mono) simp
    also have "\<dots> = - 1" using rnd64_int [of "- 1"] by simp
    finally show ?thesis using big unfolding val as_uint64_Fin by simp
  qed
qed

text \<open>
  C32. The wire format of the 64-bit counters, completely: a counter written through \<open>int64_t\<close> and \<open>double\<close> reads back
  exactly when it is at most \<open>2^53\<close>; \<open>2^53 + 1\<close> reads back as \<open>2^53\<close> without an error; every other counter, also
  those from \<open>2^63\<close> on, which are written negative, is rejected by the reader.
\<close>

theorem counter_round_trip:
  "as_uint64 (jint w) =
    (if unat w \<le> 2 ^ 53 then Some w else if unat w = 2 ^ 53 + 1 then Some (2 ^ 53) else None)"
  by (rule counter_read)

lemma as_uint64_jint [simp]: "unat w \<le> 2 ^ 53 \<Longrightarrow> as_uint64 (jint w) = Some w"
  by (simp add: counter_read)

lemma as_int64_int: assumes "\<bar>i\<bar> \<le> 2 ^ 53" shows "as_int64 (J_Number (fl (of_int i))) = Some (Some (of_int i))"
proof -
  have "- (2 ^ 63) \<le> (of_int i :: rat)" "(of_int i :: rat) \<le> 2 ^ 63" "- (2 ^ 63) \<le> i" "i < 2 ^ 63"
  proof -
    show i: "- (2 ^ 63) \<le> i" "i < 2 ^ 63" using assms by (simp_all add: abs_le_iff)
    have "of_int (- (2 ^ 63)) \<le> (of_int i :: rat)" "(of_int i :: rat) \<le> of_int (2 ^ 63)" unfolding of_int_le_iff using i by simp_all
    then show "- (2 ^ 63) \<le> (of_int i :: rat)" "(of_int i :: rat) \<le> 2 ^ 63" by simp_all
  qed
  then show ?thesis using fl_int [OF assms] by (simp add: as_int64_def in_i64_range_def rat_trunc_def)
qed

lemma i64_or_jint32 [simp]: "map_option ucast (i64_or d (jint32 w)) = Some w"
proof -
  obtain n where n: "unat w = n" by simp
  have "n < 2 ^ 32" using unsigned_less [of w, where 'a = nat] by (simp add: n)
  then have "as_int64 (J_Number (fl (of_int (int n)))) = Some (Some (of_int (int n)))" by (intro as_int64_int) simp
  moreover have "ucast (of_nat n :: i64) = w"
  proof -
    have "ucast (of_nat n :: i64) = (of_nat n :: u32)" using \<open>n < 2 ^ 32\<close> by (simp add: unsigned_of_nat take_bit_nat_eq_self)
    also have "(of_nat n :: u32) = of_nat (unat w)" by (simp only: n)
    finally show ?thesis by simp
  qed
  ultimately show ?thesis by (simp add: i64_or_def jint32_def n value_or_def)
qed

section \<open>Reading what an object was filled with\<close>

lemma field_or_object: "field_or (json_object kvs) k f old = (case map_of (rev kvs) k of None \<Rightarrow> old | Some v \<Rightarrow> f v)"
  by (simp add: field_or_def json_find_object)

lemma value_or_simps [simp]: "value_or d None = d" "value_or d (Some x) = x"
  by (simp_all add: value_or_def)

lemma readers [simp]: "number_or d (J_Number x) = x" "bool_or c (J_Bool b) = b" "text_of (J_String s) = s"
  "unat w \<le> 2 ^ 53 \<Longrightarrow> u64_or u (jint w) = w"
  by (simp_all add: number_or_def bool_or_def text_of_def u64_or_def del: power_numeral)

lemma json_object_sorted: "sm_ok kvs \<Longrightarrow> json_object kvs = J_Object kvs"
proof (induction kvs rule: rev_induct)
  case (snoc kv kvs)
  obtain k v where kv: "kv = (k, v)" by (cases kv)
  have "sm_ok kvs" using snoc.prems by (simp add: sm_ok_def sorted_wrt_append)
  moreover have "json_object (kvs @ [kv]) = json_set k v (json_object kvs)" by (simp add: json_object_def kv)
  ultimately show ?case using snoc.IH sm_ok_append [of kvs k v "[]"] snoc.prems by (simp add: kv sm_assign_last)
qed (simp add: json_object_def)

lemma map_filter_codec: "(\<And>x. f (g x) = Some x) \<Longrightarrow> List.map_filter (\<lambda>a. f (text_of a)) (map (\<lambda>a. J_String (g a)) xs) = xs"
  by (induction xs) (simp_all add: List.map_filter_simps)

end
