(* ===== verification/PolicyJson.thy ===== *)
theory PolicyJson imports JsonFields Policies Budgets begin

text \<open>
  serialize.cpp: policies and budgets to JSON and back. A reader answers \<open>Some None\<close> where the source returns
  \<open>nullopt\<close> and \<open>None\<close> where a cast is undefined.
\<close>

section \<open>Policies\<close>

definition thresholds_to_json :: "Thresholds \<Rightarrow> Json" where
  "thresholds_to_json t = json_object
    [(''normal_exit'', J_Number (normal_exit t)), (''elevated_enter'', J_Number (elevated_enter t)),
     (''elevated_exit'', J_Number (elevated_exit t)), (''high_enter'', J_Number (high_enter t)),
     (''high_exit'', J_Number (high_exit t)), (''critical_enter'', J_Number (critical_enter t)),
     (''critical_exit'', J_Number (critical_exit t)), (''exhausted_enter'', J_Number (exhausted_enter t)),
     (''exhausted_exit'', J_Number (exhausted_exit t))]"

definition hysteresis_to_json :: "HysteresisConfig \<Rightarrow> Json" where
  "hysteresis_to_json h = json_object
    [(''min_dwell_observations'', jint32 (min_dwell_observations h)),
     (''min_dwell_duration_ms'', J_Number (min_dwell_duration_ms h)),
     (''escalation_delay_ms'', J_Number (escalation_delay_ms h)),
     (''recovery_delay_ms'', J_Number (recovery_delay_ms h)),
     (''immediate_emergency_escalation'', J_Bool (immediate_emergency_escalation h)),
     (''max_debounce_observations'', jint32 (max_debounce_observations h))]"

definition weights_to_json :: "ScoreWeights \<Rightarrow> Json" where
  "weights_to_json w = json_object
    [(''utilization'', J_Number (w_utilization w)), (''free_deficit'', J_Number (w_free_deficit w)),
     (''reserve_deficit'', J_Number (w_reserve_deficit w)), (''growth_rate'', J_Number (w_growth_rate w)),
     (''allocation_failure'', J_Number (w_allocation_failure w)), (''fragmentation'', J_Number (w_fragmentation w)),
     (''reclaimable_deficit'', J_Number (w_reclaimable_deficit w)),
     (''confidence_penalty'', J_Number (w_confidence_penalty w)), (''stale_penalty'', J_Number (w_stale_penalty w))]"

definition aggregate_to_json :: "AggregateConfig \<Rightarrow> Json" where
  "aggregate_to_json a = json_object
    [(''consider_hierarchy'', J_Bool (consider_hierarchy a)),
     (''role_weight'', json_object (map (\<lambda>(role, v). (TierRole_to_string role, J_Number v)) (role_weight a))),
     (''bottleneck_penalty'', J_Number (bottleneck_penalty a)),
     (''reserve_exhaustion_penalty'', J_Number (reserve_exhaustion_penalty a)),
     (''response_feasibility_penalty'', J_Number (response_feasibility_penalty a))]"

definition freshness_to_json :: "FreshnessConfig \<Rightarrow> Json" where
  "freshness_to_json f = json_object
    [(''default_max_age_us'', jint (default_max_age_us f)),
     (''per_provider_max_age_us'', json_object (map (\<lambda>(k, v). (k, jint v)) (per_provider_max_age_us f)))]"

definition rule_to_json :: "ResponseRule \<Rightarrow> Json" where
  "rule_to_json rule = json_object
    [(''level'', J_String (PressureLevel_to_string (rule_level rule))),
     (''actions'', J_Array (map (\<lambda>a. J_String (ResponseAction_to_string a)) (rule_actions rule)))]"

definition policy_to_json :: "PressurePolicy \<Rightarrow> Json" where
  "policy_to_json p = json_object
    [(''schema'', J_Number (Fin 1)), (''version'', jint (policy_version p)), (''name'', J_String (policy_name p)),
     (''thresholds'', thresholds_to_json (thresholds p)), (''hysteresis'', hysteresis_to_json (hysteresis p)),
     (''weights'', weights_to_json (weights p)), (''aggregate'', aggregate_to_json (aggregate p)),
     (''freshness'', freshness_to_json (freshness p)),
     (''response_rules'', J_Array (map rule_to_json (response_rules p))),
     (''max_queued_events'', jint (max_queued_events p)), (''max_relief_bytes'', jint (max_relief_bytes p))]"

definition thresholds_from_json :: "Json \<Rightarrow> Thresholds option" where
  "thresholds_from_json th =
    (case (write_double th ''normal_exit'', write_double th ''elevated_enter'', write_double th ''elevated_exit'') of
       (Some ne, Some ee, Some ex) \<Rightarrow>
        (case (write_double th ''high_enter'', write_double th ''high_exit'', write_double th ''critical_enter'') of
           (Some he, Some hx, Some ce) \<Rightarrow>
            (case (write_double th ''critical_exit'', write_double th ''exhausted_enter'', write_double th ''exhausted_exit'') of
               (Some cx, Some xe, Some xx) \<Rightarrow>
                 Some \<lparr>normal_exit = ne, elevated_enter = ee, elevated_exit = ex, high_enter = he, high_exit = hx,
                   critical_enter = ce, critical_exit = cx, exhausted_enter = xe, exhausted_exit = xx\<rparr>
             | _ \<Rightarrow> None)
         | _ \<Rightarrow> None)
     | _ \<Rightarrow> None)"

text \<open>\<open>static_cast<std::uint32_t>(v->as_int64().value_or(d))\<close> of an optional member.\<close>

definition u32_field_or :: "Json \<Rightarrow> string \<Rightarrow> i64 \<Rightarrow> u32 \<Rightarrow> u32 option" where
  "u32_field_or j k d old = field_or j k (\<lambda>v. map_option ucast (i64_or d v)) (Some old)"

definition hysteresis_from_json :: "Json \<Rightarrow> HysteresisConfig option" where
  "hysteresis_from_json j =
    (let h = HysteresisConfig_init in
     case json_find ''hysteresis'' j of None \<Rightarrow> Some h
     | Some hs \<Rightarrow>
       (case (u32_field_or hs ''min_dwell_observations'' 2 (min_dwell_observations h),
              u32_field_or hs ''max_debounce_observations'' 4 (max_debounce_observations h)) of
          (Some dwell, Some bounce) \<Rightarrow>
            Some \<lparr>min_dwell_observations = dwell,
              min_dwell_duration_ms = field_or hs ''min_dwell_duration_ms'' (number_or (Fin 0)) (min_dwell_duration_ms h),
              escalation_delay_ms = field_or hs ''escalation_delay_ms'' (number_or (Fin 0)) (escalation_delay_ms h),
              recovery_delay_ms = field_or hs ''recovery_delay_ms'' (number_or (Fin 0)) (recovery_delay_ms h),
              immediate_emergency_escalation =
                field_or hs ''immediate_emergency_escalation'' (bool_or True) (immediate_emergency_escalation h),
              max_debounce_observations = bounce\<rparr>
        | _ \<Rightarrow> None))"

definition weights_from_json :: "Json \<Rightarrow> ScoreWeights" where
  "weights_from_json j =
    (let d = ScoreWeights_init in
     case json_find ''weights'' j of None \<Rightarrow> d
     | Some w \<Rightarrow> let rd = (\<lambda>k old. field_or w k (number_or (Fin (- 1))) old) in
         \<lparr>w_utilization = rd ''utilization'' (w_utilization d), w_free_deficit = rd ''free_deficit'' (w_free_deficit d),
          w_reserve_deficit = rd ''reserve_deficit'' (w_reserve_deficit d), w_growth_rate = rd ''growth_rate'' (w_growth_rate d),
          w_allocation_failure = rd ''allocation_failure'' (w_allocation_failure d),
          w_fragmentation = rd ''fragmentation'' (w_fragmentation d),
          w_reclaimable_deficit = rd ''reclaimable_deficit'' (w_reclaimable_deficit d),
          w_confidence_penalty = rd ''confidence_penalty'' (w_confidence_penalty d),
          w_stale_penalty = rd ''stale_penalty'' (w_stale_penalty d)\<rparr>)"

definition read_role :: "string \<times> Json \<Rightarrow> (TierRole \<times> double) list \<Rightarrow> (TierRole \<times> double) list" where
  "read_role = (\<lambda>(k, val) m. case (tier_role_from_string k, as_number val) of
     (Some role, Some v) \<Rightarrow> sm_assign role v m | _ \<Rightarrow> m)"

definition aggregate_from_json :: "Json \<Rightarrow> AggregateConfig" where
  "aggregate_from_json j =
    (let d = AggregateConfig_init in
     case json_find ''aggregate'' j of None \<Rightarrow> d
     | Some agg \<Rightarrow> d\<lparr>
         consider_hierarchy := field_or agg ''consider_hierarchy'' (bool_or True) (consider_hierarchy d),
         role_weight := field_or agg ''role_weight''
           (\<lambda>v. if json_type v = JT_Object then fold read_role (object_items v) (role_weight d) else role_weight d) (role_weight d)\<rparr>)"

definition rule_from_json :: "Json \<Rightarrow> ResponseRule" where
  "rule_from_json rr = ResponseRule_init\<lparr>
     rule_level := field_or rr ''level'' (\<lambda>v. value_or (rule_level ResponseRule_init) (pressure_level_from_string (text_of v)))
       (rule_level ResponseRule_init),
     rule_actions := field_or rr ''actions''
       (\<lambda>acts. List.map_filter (\<lambda>a. response_action_from_string (text_of a)) (array_items acts)) []\<rparr>"

definition rules_from_json :: "Json \<Rightarrow> ResponseRule list" where
  "rules_from_json j = field_or j ''response_rules''
     (\<lambda>rules. if json_type rules = JT_Array then map rule_from_json (array_items rules) else []) []"

text \<open>The policy once the schema is accepted.\<close>

definition policy_body_from_json :: "Json \<Rightarrow> PressurePolicy option option" where
  "policy_body_from_json j =
    (case write_u64 j ''version'' of None \<Rightarrow> Some None
     | Some version \<Rightarrow>
     (case json_find ''thresholds'' j of None \<Rightarrow> Some None
     | Some th \<Rightarrow>
     (case thresholds_from_json th of None \<Rightarrow> Some None
     | Some t \<Rightarrow>
     (case hysteresis_from_json j of None \<Rightarrow> None
     | Some h \<Rightarrow>
       let p = PressurePolicy_init\<lparr>policy_version := version,
             policy_name := value_or ''default'' (write_string j ''name''),
             thresholds := t, hysteresis := h, weights := weights_from_json j, aggregate := aggregate_from_json j,
             response_rules := rules_from_json j,
             max_queued_events := field_or j ''max_queued_events'' (u64_or 4096) (max_queued_events PressurePolicy_init),
             max_relief_bytes := field_or j ''max_relief_bytes'' (u64_or (- 1)) (max_relief_bytes PressurePolicy_init)\<rparr>
       in if validate_policy p \<noteq> None then Some None else Some (Some p)))))"

definition policy_from_json :: "Json \<Rightarrow> PressurePolicy option option" where
  "policy_from_json j =
    (if json_type j \<noteq> JT_Object then Some None
     else case json_find ''schema'' j of None \<Rightarrow> Some None
       | Some schema \<Rightarrow>
         if json_type schema \<noteq> JT_Number then Some None
         else case i64_or (- 1) schema of None \<Rightarrow> None
           | Some v \<Rightarrow> if v \<noteq> 1 then Some None else policy_body_from_json j)"

section \<open>Budgets\<close>

definition reserve_to_json :: "Reserve \<Rightarrow> Json" where
  "reserve_to_json r = json_object [(''kind'', J_String (ReserveKind_to_string (rsv_kind r))),
     (''name'', J_String (rsv_name r)), (''bytes'', jint (rsv_bytes r))]"

definition budget_to_json :: "Budget \<Rightarrow> Json" where
  "budget_to_json b = json_object
    ([(''version'', jint (budget_version b)), (''hard_capacity'', jint (hard_capacity b))] @
     (case soft_capacity b of None \<Rightarrow> [] | Some s \<Rightarrow> [(''soft_capacity'', jint s)]) @
     [(''emergency_reserve_bytes'', jint (emergency_reserve_bytes b)),
      (''minimum_free_reserve'', jint (minimum_free_reserve b)), (''reclaim_target'', jint (reclaim_target b)),
      (''demotion_target'', jint (demotion_target b)), (''admission_headroom'', jint (admission_headroom b)),
      (''owner'', J_String (owner b)), (''reserves'', J_Array (map reserve_to_json (reserves b)))])"

definition reserve_from_json :: "Json \<Rightarrow> Reserve" where
  "reserve_from_json rv =
    \<lparr>rsv_kind = field_or rv ''kind'' (\<lambda>k. value_or RK_Custom (reserve_kind_from_string (text_of k))) RK_Custom,
     rsv_name = field_or rv ''name'' text_of [],
     rsv_bytes = field_or rv ''bytes'' (u64_or 0) 0\<rparr>"

definition budget_from_json :: "Json \<Rightarrow> Budget option" where
  "budget_from_json j =
    (if json_type j \<noteq> JT_Object then None
     else case write_u64 j ''hard_capacity'' of None \<Rightarrow> None
       | Some hard \<Rightarrow>
         let b = \<lparr>hard_capacity = hard,
               soft_capacity = field_or j ''soft_capacity'' as_uint64 None,
               reserves = field_or j ''reserves''
                 (\<lambda>res. if json_type res = JT_Array then map reserve_from_json (array_items res) else []) [],
               emergency_reserve_bytes = field_or j ''emergency_reserve_bytes'' (u64_or 0) 0,
               minimum_free_reserve = field_or j ''minimum_free_reserve'' (u64_or 0) 0,
               reclaim_target = field_or j ''reclaim_target'' (u64_or 0) 0,
               demotion_target = field_or j ''demotion_target'' (u64_or 0) 0,
               admission_headroom = field_or j ''admission_headroom'' (u64_or 0) 0,
               owner = value_or [] (write_string j ''owner''),
               budget_version = field_or j ''version'' (u64_or 0) 0\<rparr>
         in if validate_budget b \<noteq> None then None else Some b)"

end
