(* ===== verification/Traces.thy ===== *)
theory Traces imports Runtime begin

text \<open>
  trace.h and trace.cpp: recorded traces and the provider that replays one, a frame per sample. The null
  pointer is the trace \<open>None\<close>.
\<close>

record TraceFrame =
  tf_timestamp_ms :: u64
  tf_observations :: "DomainObservation list"
  tf_provider_health :: "(string \<times> ProviderStatus) list"

definition TraceFrame_init :: TraceFrame where
  "TraceFrame_init = \<lparr>tf_timestamp_ms = 0, tf_observations = [], tf_provider_health = []\<rparr>"

record PressureTrace =
  tr_policy_version :: u64
  tr_frames :: "TraceFrame list"

definition PressureTrace_init :: PressureTrace where
  "PressureTrace_init = \<lparr>tr_policy_version = 1, tr_frames = []\<rparr>"

record TraceProvider =
  tp_trace :: "PressureTrace option"
  tp_index :: nat

definition TraceProvider_new :: "PressureTrace option \<Rightarrow> TraceProvider" where
  "TraceProvider_new t = \<lparr>tp_trace = t, tp_index = 0\<rparr>"

definition trace_length :: "TraceProvider \<Rightarrow> nat" where
  "trace_length tp = (case tp_trace tp of None \<Rightarrow> 0 | Some t \<Rightarrow> length (tr_frames t))"

definition trace_exhausted :: "TraceProvider \<Rightarrow> bool" where
  "trace_exhausted tp \<longleftrightarrow> trace_length tp \<le> tp_index tp"

definition trace_sample :: "u64 \<Rightarrow> TraceProvider \<Rightarrow> ProviderSample \<times> TraceProvider" where
  "trace_sample now tp =
    (let out = \<lparr>sample_status = PS_Healthy, sample_observations = [], sample_error = [], sampled_at_ms = now\<rparr> in
     case tp_trace tp of None \<Rightarrow> (out, tp)
     | Some t \<Rightarrow>
         if length (tr_frames t) \<le> tp_index tp then (out, tp)
         else (out\<lparr>sample_observations := tf_observations (tr_frames t ! tp_index tp)\<rparr>, tp\<lparr>tp_index := tp_index tp + 1\<rparr>))"

section \<open>Replay\<close>

text \<open>The samples of a sequence of calls, at the given times.\<close>

fun trace_run :: "u64 list \<Rightarrow> TraceProvider \<Rightarrow> ProviderSample list \<times> TraceProvider" where
  "trace_run [] tp = ([], tp)"
| "trace_run (now # nows) tp =
    (case trace_sample now tp of (s, tp') \<Rightarrow> (case trace_run nows tp' of (ss, tp'') \<Rightarrow> (s # ss, tp'')))"

lemma trace_run_replays:
  assumes "tp_trace tp = Some t"
  shows "map sample_observations (fst (trace_run nows tp)) =
      map (\<lambda>k. if tp_index tp + k < length (tr_frames t) then tf_observations (tr_frames t ! (tp_index tp + k)) else []) [0..<length nows] \<and>
    tp_index (snd (trace_run nows tp)) = max (tp_index tp) (min (tp_index tp + length nows) (length (tr_frames t)))"
  using assms
proof (induction nows arbitrary: tp)
  case (Cons now nows)
  show ?case
  proof (cases "length (tr_frames t) \<le> tp_index tp")
    case True
    then have s: "trace_sample now tp = (\<lparr>sample_status = PS_Healthy, sample_observations = [], sample_error = [], sampled_at_ms = now\<rparr>, tp)"
      using Cons.prems by (simp add: trace_sample_def Let_def)
    show ?thesis using Cons.IH [OF Cons.prems] True
      by (simp add: s split_beta upt_conv_Cons map_Suc_upt [symmetric] del: upt_Suc)
  next
    case False
    let ?tp = "tp\<lparr>tp_index := tp_index tp + 1\<rparr>"
    have s: "trace_sample now tp = (\<lparr>sample_status = PS_Healthy, sample_observations = tf_observations (tr_frames t ! tp_index tp),
        sample_error = [], sampled_at_ms = now\<rparr>, ?tp)"
      using Cons.prems False by (simp add: trace_sample_def Let_def)
    have "map sample_observations (fst (trace_run nows ?tp)) =
        map (\<lambda>k. if tp_index ?tp + k < length (tr_frames t) then tf_observations (tr_frames t ! (tp_index ?tp + k)) else []) [0..<length nows] \<and>
      tp_index (snd (trace_run nows ?tp)) = max (tp_index ?tp) (min (tp_index ?tp + length nows) (length (tr_frames t)))"
      using Cons.prems by (intro Cons.IH) simp
    then show ?thesis using False
      by (simp add: s split_beta upt_conv_Cons map_Suc_upt [symmetric] del: upt_Suc)
  qed
qed simp

text \<open>
  Replay: sampling a fresh trace provider yields the observations of the recorded frames in order, one frame
  per call, then nothing; it is exhausted exactly when there were as many calls as frames.
\<close>

lemma trace_replay:
  "map sample_observations (fst (trace_run nows (TraceProvider_new (Some t)))) =
     map (\<lambda>k. if k < length (tr_frames t) then tf_observations (tr_frames t ! k) else []) [0..<length nows] \<and>
   (trace_exhausted (snd (trace_run nows (TraceProvider_new (Some t)))) \<longleftrightarrow> length (tr_frames t) \<le> length nows)"
proof -
  have "tp_trace (snd (trace_run nows tp)) = tp_trace tp" for tp
    by (induction nows arbitrary: tp) (auto simp: trace_sample_def Let_def split_beta split: option.splits)
  then show ?thesis using trace_run_replays [of "TraceProvider_new (Some t)" t nows]
    by (auto simp: TraceProvider_new_def trace_exhausted_def trace_length_def min_def split: if_splits)
qed

end
