(* ===== verification/SnapshotJson.thy ===== *)
theory SnapshotJson imports PolicyJson Traces begin

text \<open>
  serialize.cpp: observations, domain states, snapshots, events, statistics and traces to JSON and back. As in
  \<open>PolicyJson\<close>, a reader with an undefined cast in it answers \<open>None\<close> there and \<open>Some None\<close> for \<open>nullopt\<close>.
\<close>

definition read_id :: "Json \<Rightarrow> PressureDomainId option" where
  "read_id j = (case json_find ''id'' j of None \<Rightarrow> None
     | Some v \<Rightarrow> if json_type v = JT_String then from_hex (text_of v) else None)"

section \<open>Observations\<close>

definition optional_u64 :: "string \<Rightarrow> u64 option \<Rightarrow> (string \<times> Json) list" where
  "optional_u64 k x = (case x of None \<Rightarrow> [] | Some w \<Rightarrow> [(k, jint w)])"

definition observation_to_json :: "DomainObservation \<Rightarrow> Json" where
  "observation_to_json ob = json_object
    ([(''id'', J_String (to_hex (obs_id ob))), (''type'', J_String (DomainType_to_string (obs_type ob))),
      (''provider'', J_String (obs_provider ob)), (''native_resource_id'', J_String (obs_native_resource_id ob)),
      (''total_capacity'', jint (obs_total_capacity ob)), (''committed'', jint (obs_committed ob)),
      (''resident'', jint (obs_resident ob))] @
     optional_u64 ''reclaimable'' (obs_reclaimable ob) @
     [(''unavailable'', jint (obs_unavailable ob)), (''available'', jint (obs_available ob))] @
     optional_u64 ''usable_capacity'' (obs_usable_capacity ob) @
     optional_u64 ''reserved'' (obs_reserved ob) @
     [(''confidence'', J_String (Confidence_to_string (obs_confidence ob))),
      (''provenance'', J_String (Provenance_to_string (obs_provenance ob))),
      (''validity'', J_String (Validity_to_string (obs_validity ob))),
      (''observed_at_ms'', jint (obs_observed_at_ms ob)),
      (''allocation_failures'', jint_signed (obs_allocation_failures ob)),
      (''growth_bytes_per_s'', J_Number (obs_growth_bytes_per_s ob)), (''detail'', J_String (obs_detail ob))])"

text \<open>The lambda \<open>req\<close> of the reader: an absent member keeps the value, a malformed one fails.\<close>

definition req :: "Json \<Rightarrow> string \<Rightarrow> u64 \<Rightarrow> u64 option" where
  "req j k old = field_or j k as_uint64 (Some old)"

definition optional_req :: "Json \<Rightarrow> string \<Rightarrow> u64 option option" where
  "optional_req j k = field_or j k (\<lambda>v. map_option Some (as_uint64 v)) (Some None)"

text \<open>The counters, which can make the reader fail.\<close>

definition read_counters :: "Json \<Rightarrow> DomainObservation \<Rightarrow> DomainObservation option" where
  "read_counters j ob =
    (case (req j ''total_capacity'' (obs_total_capacity ob), req j ''committed'' (obs_committed ob),
           req j ''resident'' (obs_resident ob)) of
       (Some capacity, Some committed, Some resident) \<Rightarrow>
        (case (req j ''unavailable'' (obs_unavailable ob), req j ''available'' (obs_available ob),
               req j ''observed_at_ms'' (obs_observed_at_ms ob)) of
           (Some unavail, Some avail, Some observed) \<Rightarrow>
            (case (optional_req j ''reclaimable'', optional_req j ''usable_capacity'', optional_req j ''reserved'') of
               (Some reclaimable, Some usable, Some reserved) \<Rightarrow>
                 Some (ob\<lparr>obs_total_capacity := capacity, obs_committed := committed, obs_resident := resident,
                   obs_unavailable := unavail, obs_available := avail, obs_observed_at_ms := observed,
                   obs_reclaimable := reclaimable, obs_usable_capacity := usable, obs_reserved := reserved\<rparr>)
             | _ \<Rightarrow> None)
         | _ \<Rightarrow> None)
     | _ \<Rightarrow> None)"

definition observation_from_json :: "Json \<Rightarrow> DomainObservation option option" where
  "observation_from_json j =
    (if json_type j \<noteq> JT_Object then Some None
     else case read_id j of None \<Rightarrow> Some None
       | Some i \<Rightarrow>
         (case read_counters j (DomainObservation_init\<lparr>obs_id := i\<rparr>) of None \<Rightarrow> Some None
          | Some ob \<Rightarrow>
            (case field_or j ''allocation_failures'' (\<lambda>v. map_option ucast (i64_or 0 v)) (Some (obs_allocation_failures ob)) of
               None \<Rightarrow> None
             | Some failures \<Rightarrow> Some (Some (ob\<lparr>
                 obs_type := field_or j ''type'' (\<lambda>v. value_or DT_Unknown (domain_type_from_string (text_of v))) (obs_type ob),
                 obs_provider := field_or j ''provider'' text_of (obs_provider ob),
                 obs_native_resource_id := field_or j ''native_resource_id'' text_of (obs_native_resource_id ob),
                 obs_confidence := field_or j ''confidence'' (\<lambda>v. value_or Conf_Unknown (confidence_from_string (text_of v))) (obs_confidence ob),
                 obs_provenance := field_or j ''provenance'' (\<lambda>v. value_or Prov_Unknown (provenance_from_string (text_of v))) (obs_provenance ob),
                 obs_validity := field_or j ''validity'' (\<lambda>v. value_or Val_Valid (validity_from_string (text_of v))) (obs_validity ob),
                 obs_allocation_failures := failures,
                 obs_growth_bytes_per_s := field_or j ''growth_bytes_per_s'' (number_or (Fin 0)) (obs_growth_bytes_per_s ob),
                 obs_detail := field_or j ''detail'' text_of (obs_detail ob)\<rparr>)))))"

section \<open>Domain states\<close>

definition domain_members :: "DomainState \<Rightarrow> (string \<times> Json) list" where
  "domain_members d =
    [(''id'', J_String (to_hex (ds_id d))),
     (''type'', J_String (DomainType_to_string (ds_type d))),
     (''provider'', J_String (ds_provider d)),
     (''native_resource_id'', J_String (ds_native_resource_id d)),
     (''budget'', budget_to_json (ds_budget d)),
     (''governed'', J_Bool (ds_governed d)),
     (''total_capacity'', jint (ds_total_capacity d)),
     (''usable_capacity'', jint (ds_usable_capacity d)),
     (''reserved_bytes'', jint (ds_reserved_bytes d)),
     (''committed'', jint (ds_committed d)),
     (''resident'', jint (ds_resident d)),
     (''available'', jint (ds_available d)),
     (''reclaimable'', jint (ds_reclaimable d)),
     (''utilization'', J_Number (ds_utilization d)),
     (''level'', J_String (PressureLevel_to_string (ds_level d))),
     (''previous_level'', J_String (PressureLevel_to_string (ds_previous_level d))),
     (''in_hysteresis_hold'', J_Bool (ds_in_hysteresis_hold d)),
     (''level_hold_observations'', jint (ds_level_hold_observations d)),
     (''score'', J_Number (ds_score d)),
     (''utilization_component'', J_Number (ds_utilization_component d)),
     (''free_deficit_component'', J_Number (ds_free_deficit_component d)),
     (''reserve_deficit_component'', J_Number (ds_reserve_deficit_component d)),
     (''growth_component'', J_Number (ds_growth_component d)),
     (''allocation_failure_component'', J_Number (ds_allocation_failure_component d)),
     (''stigma'', J_Number (ds_stigma d)),
     (''trend'', J_String (TrendDirection_to_string (ds_trend d))),
     (''trend_rate'', J_Number (ds_trend_rate d)),
     (''trend_confidence'', J_Number (ds_trend_confidence d)),
     (''trend_window_samples'', jint (ds_trend_window_samples d)),
     (''confidence'', J_String (Confidence_to_string (ds_confidence d))),
     (''provenance'', J_String (Provenance_to_string (ds_provenance d))),
     (''validity'', J_String (Validity_to_string (ds_validity d))),
     (''timestamp_ms'', jint (ds_timestamp_ms d)),
     (''explanation'', J_String (ds_explanation d)),
     (''entered_level_at_ms'', jint (ds_entered_level_at_ms d)),
     (''peak_level'', jint (ds_peak_level d)),
     (''responses'', J_Array (map (\<lambda>a. J_String (ResponseAction_to_string a)) (ds_responses d)))]"

definition domain_state_to_json :: "DomainState \<Rightarrow> Json" where
  "domain_state_to_json d = json_object (domain_members d)"

definition domain_state_from_json :: "Json \<Rightarrow> DomainState option" where
  "domain_state_from_json j =
    (let d = DomainState_init in
     if json_type j \<noteq> JT_Object then None
     else case read_id j of None \<Rightarrow> None
     | Some i \<Rightarrow> Some (d\<lparr>ds_id := i,
       ds_type := field_or j ''type'' (\<lambda>v. value_or DT_Unknown (domain_type_from_string (text_of v))) (ds_type d),
       ds_provider := field_or j ''provider'' text_of (ds_provider d),
       ds_native_resource_id := field_or j ''native_resource_id'' text_of (ds_native_resource_id d),
       ds_budget := field_or j ''budget'' (\<lambda>v. value_or Budget_init (budget_from_json v)) (ds_budget d),
       ds_governed := field_or j ''governed'' (bool_or False) (ds_governed d),
       ds_total_capacity := field_or j ''total_capacity'' (u64_or 0) (ds_total_capacity d),
       ds_usable_capacity := field_or j ''usable_capacity'' (u64_or 0) (ds_usable_capacity d),
       ds_reserved_bytes := field_or j ''reserved_bytes'' (u64_or 0) (ds_reserved_bytes d),
       ds_committed := field_or j ''committed'' (u64_or 0) (ds_committed d),
       ds_resident := field_or j ''resident'' (u64_or 0) (ds_resident d),
       ds_available := field_or j ''available'' (u64_or 0) (ds_available d),
       ds_reclaimable := field_or j ''reclaimable'' (u64_or 0) (ds_reclaimable d),
       ds_utilization := field_or j ''utilization'' (number_or (Fin 0)) (ds_utilization d),
       ds_level := field_or j ''level'' (\<lambda>v. value_or PL_Unknown (pressure_level_from_string (text_of v))) (ds_level d),
       ds_previous_level := field_or j ''previous_level'' (\<lambda>v. value_or PL_Unknown (pressure_level_from_string (text_of v))) (ds_previous_level d),
       ds_in_hysteresis_hold := field_or j ''in_hysteresis_hold'' (bool_or False) (ds_in_hysteresis_hold d),
       ds_level_hold_observations := field_or j ''level_hold_observations'' (u64_or 0) (ds_level_hold_observations d),
       ds_score := field_or j ''score'' (number_or (Fin 0)) (ds_score d),
       ds_utilization_component := field_or j ''utilization_component'' (number_or (Fin 0)) (ds_utilization_component d),
       ds_free_deficit_component := field_or j ''free_deficit_component'' (number_or (Fin 0)) (ds_free_deficit_component d),
       ds_reserve_deficit_component := field_or j ''reserve_deficit_component'' (number_or (Fin 0)) (ds_reserve_deficit_component d),
       ds_growth_component := field_or j ''growth_component'' (number_or (Fin 0)) (ds_growth_component d),
       ds_allocation_failure_component := field_or j ''allocation_failure_component'' (number_or (Fin 0)) (ds_allocation_failure_component d),
       ds_stigma := field_or j ''stigma'' (number_or (Fin 0)) (ds_stigma d),
       ds_trend := field_or j ''trend'' (\<lambda>v. value_or Trend_Unknown (trend_from_string (text_of v))) (ds_trend d),
       ds_trend_rate := field_or j ''trend_rate'' (number_or (Fin 0)) (ds_trend_rate d),
       ds_trend_confidence := field_or j ''trend_confidence'' (number_or (Fin 0)) (ds_trend_confidence d),
       ds_trend_window_samples := field_or j ''trend_window_samples'' (u64_or 0) (ds_trend_window_samples d),
       ds_confidence := field_or j ''confidence'' (\<lambda>v. value_or Conf_Unknown (confidence_from_string (text_of v))) (ds_confidence d),
       ds_provenance := field_or j ''provenance'' (\<lambda>v. value_or Prov_Unknown (provenance_from_string (text_of v))) (ds_provenance d),
       ds_validity := field_or j ''validity'' (\<lambda>v. value_or Val_Valid (validity_from_string (text_of v))) (ds_validity d),
       ds_timestamp_ms := field_or j ''timestamp_ms'' (u64_or 0) (ds_timestamp_ms d),
       ds_explanation := field_or j ''explanation'' text_of (ds_explanation d),
       ds_entered_level_at_ms := field_or j ''entered_level_at_ms'' (u64_or 0) (ds_entered_level_at_ms d),
       ds_peak_level := field_or j ''peak_level'' (u64_or 0) (ds_peak_level d),
       ds_responses := field_or j ''responses'' (\<lambda>v. if json_type v = JT_Array then List.map_filter (\<lambda>a. response_action_from_string (text_of a)) (array_items v) else []) (ds_responses d)\<rparr>))"

section \<open>Snapshots\<close>

definition health_to_json :: "(string \<times> ProviderStatus) list \<Rightarrow> Json" where
  "health_to_json m = json_object (map (\<lambda>(k, v). (k, J_String (ProviderStatus_to_string v))) m)"

definition health_from_json :: "Json \<Rightarrow> (string \<times> ProviderStatus) list" where
  "health_from_json v = (if json_type v = JT_Object
     then fold (\<lambda>(k, hv) m. sm_assign k (value_or PS_Unavailable (provider_status_from_string (text_of hv))) m) (object_items v) []
     else [])"

definition events_to_json :: "SnapshotEventSummary \<Rightarrow> Json" where
  "events_to_json e = json_object [(''count'', jint32 (ses_count e)), (''dropped'', jint32 (ses_dropped e))]"

definition events_from_json :: "Json \<Rightarrow> SnapshotEventSummary" where
  "events_from_json v = \<lparr>ses_classes = [], ses_count = field_or v ''count'' (\<lambda>c. ucast (u64_or 0 c)) 0,
     ses_dropped = field_or v ''dropped'' (\<lambda>c. ucast (u64_or 0 c)) 0\<rparr>"

definition snapshot_to_json :: "Snapshot \<Rightarrow> Json" where
  "snapshot_to_json s = json_object
    [(''schema'', J_Number (Fin 1)), (''id'', jint (sn_id s)), (''generation'', jint (sn_generation s)),
     (''timestamp_ms'', jint (sn_timestamp_ms s)), (''policy_version'', jint (sn_policy_version s)),
     (''policy_name'', J_String (sn_policy_name s)),
     (''aggregate_level'', J_String (PressureLevel_to_string (sn_aggregate_level s))),
     (''aggregate_score'', J_Number (sn_aggregate_score s)),
     (''aggregate_explanation'', J_String (sn_aggregate_explanation s)),
     (''stale_data'', J_Bool (sn_stale_data s)), (''partial_data'', J_Bool (sn_partial_data s)),
     (''confidence'', J_String (Confidence_to_string (sn_confidence s))),
     (''provenance'', J_String (Provenance_to_string (sn_provenance s))),
     (''warnings'', J_Array (map J_String (sn_warnings s))),
     (''provider_health'', health_to_json (sn_provider_health s)),
     (''domains'', J_Array (map domain_state_to_json (sn_domains s))),
     (''events'', events_to_json (sn_events s))]"

text \<open>The loop over the domains, which refuses an identity that it has seen.\<close>

fun read_domains :: "PressureDomainId list \<Rightarrow> Json list \<Rightarrow> DomainState list option" where
  "read_domains seen [] = Some []"
| "read_domains seen (dv # dvs) =
    (case domain_state_from_json dv of None \<Rightarrow> None
     | Some d \<Rightarrow> if ds_id d \<in> set seen then None
         else map_option (\<lambda>ds. d # ds) (read_domains (seen @ [ds_id d]) dvs))"

definition snapshot_body_from_json :: "Json \<Rightarrow> Snapshot option" where
  "snapshot_body_from_json j =
    (let s = Snapshot_init in
     case field_or j ''domains'' (\<lambda>v. if json_type v = JT_Array then read_domains [] (array_items v) else Some []) (Some []) of
       None \<Rightarrow> None
     | Some ds \<Rightarrow> Some (s\<lparr>
         sn_id := field_or j ''id'' (u64_or 0) (sn_id s),
         sn_generation := field_or j ''generation'' (u64_or 0) (sn_generation s),
         sn_timestamp_ms := field_or j ''timestamp_ms'' (u64_or 0) (sn_timestamp_ms s),
         sn_policy_version := field_or j ''policy_version'' (u64_or 0) (sn_policy_version s),
         sn_policy_name := field_or j ''policy_name'' text_of (sn_policy_name s),
         sn_aggregate_level := field_or j ''aggregate_level'' (\<lambda>v. value_or PL_Unknown (pressure_level_from_string (text_of v))) (sn_aggregate_level s),
         sn_aggregate_score := field_or j ''aggregate_score'' (number_or (Fin 0)) (sn_aggregate_score s),
         sn_aggregate_explanation := field_or j ''aggregate_explanation'' text_of (sn_aggregate_explanation s),
         sn_stale_data := field_or j ''stale_data'' (bool_or False) (sn_stale_data s),
         sn_partial_data := field_or j ''partial_data'' (bool_or False) (sn_partial_data s),
         sn_confidence := field_or j ''confidence'' (\<lambda>v. value_or Conf_Unknown (confidence_from_string (text_of v))) (sn_confidence s),
         sn_provenance := field_or j ''provenance'' (\<lambda>v. value_or Prov_Unknown (provenance_from_string (text_of v))) (sn_provenance s),
         sn_warnings := field_or j ''warnings'' (\<lambda>v. if json_type v = JT_Array then map text_of (array_items v) else []) (sn_warnings s),
         sn_provider_health := field_or j ''provider_health'' health_from_json (sn_provider_health s),
         sn_domains := ds,
         sn_events := field_or j ''events'' (\<lambda>v. if json_type v = JT_Object then events_from_json v else sn_events s) (sn_events s)\<rparr>))"

definition schema_version :: "Json \<Rightarrow> i64 option" where
  "schema_version j = (case json_find ''schema'' j of None \<Rightarrow> Some (- 1) | Some v \<Rightarrow> i64_or (- 1) v)"

definition snapshot_from_json :: "Json \<Rightarrow> Snapshot option option" where
  "snapshot_from_json j =
    (if json_type j \<noteq> JT_Object then Some None
     else case schema_version j of None \<Rightarrow> None
       | Some v \<Rightarrow> if v \<noteq> 1 then Some None else Some (snapshot_body_from_json j))"

section \<open>Events and statistics\<close>

definition event_to_json :: "PressureEvent \<Rightarrow> Json" where
  "event_to_json e = json_object
    ([(''schema'', J_Number (Fin 1)), (''id'', jint (ev_id e)), (''type'', J_String (PressureEventType_to_string (ev_type e))),
      (''generation'', jint (ev_generation e)), (''timestamp_ms'', jint (ev_timestamp_ms e))] @
     (case ev_domain e of None \<Rightarrow> [] | Some i \<Rightarrow> [(''domain'', J_String (to_hex i))]) @
     [(''detail'', J_String (ev_detail e)), (''severity_rank'', jint32 (ev_severity_rank e))])"

definition stats_to_json :: "RuntimeStats \<Rightarrow> Json" where
  "stats_to_json s = json_object
    [(''observations'', jint (st_observations s)),
     (''snapshots'', jint (st_snapshots s)),
     (''pressure_transitions'', jint (st_pressure_transitions s)),
     (''provider_failures'', jint (st_provider_failures s)),
     (''stale_observations'', jint (st_stale_observations s)),
     (''admission_accept'', jint (st_admission_accept s)),
     (''admission_caution'', jint (st_admission_caution s)),
     (''admission_defer'', jint (st_admission_defer s)),
     (''admission_reject'', jint (st_admission_reject s)),
     (''backpressure_signals'', jint (st_backpressure_signals s)),
     (''reclaim_requests'', jint (st_reclaim_requests s)),
     (''demotion_requests'', jint (st_demotion_requests s)),
     (''event_dropped'', jint (st_event_dropped s)),
     (''policy_changes'', jint (st_policy_changes s)),
     (''generation_changes'', jint (st_generation_changes s)),
     (''refresh_latency_us'', jint (st_refresh_latency_us s)),
     (''query_count'', jint (st_query_count s))]"

section \<open>Traces\<close>

definition frame_to_json :: "TraceFrame \<Rightarrow> Json" where
  "frame_to_json f = json_object
    [(''timestamp_ms'', jint (tf_timestamp_ms f)),
     (''observations'', J_Array (map observation_to_json (tf_observations f))),
     (''provider_health'', health_to_json (tf_provider_health f))]"

definition trace_to_json :: "PressureTrace \<Rightarrow> Json" where
  "trace_to_json t = json_object
    [(''schema'', J_Number (Fin 1)), (''policy_version'', jint (tr_policy_version t)),
     (''frames'', J_Array (map frame_to_json (tr_frames t)))]"

text \<open>The loops over the observations and over the frames stop at the first failure.\<close>

fun read_all :: "('a \<Rightarrow> 'b option option) \<Rightarrow> 'a list \<Rightarrow> 'b list option option" where
  "read_all f [] = Some (Some [])"
| "read_all f (x # xs) =
    (case f x of None \<Rightarrow> None
     | Some None \<Rightarrow> Some None
     | Some (Some y) \<Rightarrow> map_option (map_option (\<lambda>ys. y # ys)) (read_all f xs))"

definition frame_from_json :: "Json \<Rightarrow> TraceFrame option option" where
  "frame_from_json f = map_option (map_option (\<lambda>obs.
      \<lparr>tf_timestamp_ms = field_or f ''timestamp_ms'' (u64_or 0) 0, tf_observations = obs,
       tf_provider_health = field_or f ''provider_health'' health_from_json []\<rparr>))
    (field_or f ''observations''
       (\<lambda>v. if json_type v = JT_Array then read_all observation_from_json (array_items v) else Some (Some [])) (Some (Some [])))"

definition trace_from_json :: "Json \<Rightarrow> PressureTrace option option" where
  "trace_from_json j =
    (if json_type j \<noteq> JT_Object then Some None
     else case schema_version j of None \<Rightarrow> None
       | Some v \<Rightarrow> if v \<noteq> 1 then Some None
           else (case json_find ''frames'' j of None \<Rightarrow> Some None
             | Some frames \<Rightarrow> if json_type frames \<noteq> JT_Array then Some None
                 else map_option (map_option (\<lambda>fs. \<lparr>tr_policy_version = field_or j ''policy_version'' (u64_or 1) 1, tr_frames = fs\<rparr>))
                   (read_all frame_from_json (array_items frames))))"

end
