(* ===== verification/PolicyJsonLaws.thy ===== *)
theory PolicyJsonLaws imports PolicyJson begin

text \<open>Budgets and policies read back from their JSON values, and what the readers guarantee of any input.\<close>

section \<open>Budgets\<close>

text \<open>Every counter of the budget is at most \<open>2^53\<close>.\<close>

definition small :: "u64 \<Rightarrow> bool" where
  "small w \<longleftrightarrow> unat w \<le> 2 ^ 53"

lemma small_readers [simp]: "small w \<Longrightarrow> as_uint64 (jint w) = Some w" "small w \<Longrightarrow> u64_or u (jint w) = w"
  by (simp_all add: small_def del: power_numeral)

definition budget_small :: "Budget \<Rightarrow> bool" where
  "budget_small b \<longleftrightarrow> list_all small [budget_version b, hard_capacity b, emergency_reserve_bytes b, minimum_free_reserve b,
     reclaim_target b, demotion_target b, admission_headroom b] \<and>
     (case soft_capacity b of None \<Rightarrow> True | Some s \<Rightarrow> small s) \<and> list_all (\<lambda>r. small (rsv_bytes r)) (reserves b)"

lemma reserve_read_back: "small (rsv_bytes r) \<Longrightarrow> reserve_from_json (reserve_to_json r) = r"
  by (simp add: reserve_from_json_def reserve_to_json_def field_or_object reserve_kind_codec.dec_enc)

lemma reserves_read_back: "list_all (\<lambda>r. small (rsv_bytes r)) rs \<Longrightarrow> map reserve_from_json (map reserve_to_json rs) = rs"
  by (induction rs) (simp_all add: reserve_read_back)

lemma budget_eta: "soft_capacity b = s \<Longrightarrow>
    \<lparr>hard_capacity = hard_capacity b, soft_capacity = s, reserves = reserves b,
     emergency_reserve_bytes = emergency_reserve_bytes b, minimum_free_reserve = minimum_free_reserve b,
     reclaim_target = reclaim_target b, demotion_target = demotion_target b, admission_headroom = admission_headroom b,
     owner = owner b, budget_version = budget_version b\<rparr> = b"
  by (cases b) simp

lemma budget_read_back:
  assumes "validate_budget b = None" "budget_small b"
  shows "budget_from_json (budget_to_json b) = Some b"
proof -
  have sm: "small (budget_version b)" "small (hard_capacity b)" "small (emergency_reserve_bytes b)"
    "small (minimum_free_reserve b)" "small (reclaim_target b)" "small (demotion_target b)" "small (admission_headroom b)"
    "list_all (\<lambda>r. small (rsv_bytes r)) (reserves b)" using assms(2) by (simp_all add: budget_small_def)
  note defs = budget_from_json_def budget_to_json_def write_u64_def write_string_def json_find_object field_or_object
    reserves_read_back [OF sm(8), unfolded map_map]
  show ?thesis
  proof (cases "soft_capacity b")
    case None
    with sm assms(1) show ?thesis by (simp add: defs budget_eta Let_def)
  next
    case (Some s)
    then have "small s" using assms(2) by (simp add: budget_small_def)
    with Some sm assms(1) show ?thesis by (simp add: defs budget_eta Let_def)
  qed
qed

section \<open>Policies\<close>

lemma unit_double_finite: "unit_double d \<Longrightarrow> isfinite d"
  by (auto simp: unit_double_def)

lemma valid_thresholds_finite:
  assumes "validate_policy p = None"
  shows "list_all isfinite [normal_exit (thresholds p), elevated_enter (thresholds p), elevated_exit (thresholds p),
    high_enter (thresholds p), high_exit (thresholds p), critical_enter (thresholds p), critical_exit (thresholds p),
    exhausted_enter (thresholds p), exhausted_exit (thresholds p)]"
  using assms by (simp add: validate_policy_None thresholds_ok_def unit_double_finite)

lemma thresholds_read_back:
  assumes "validate_policy p = None"
  shows "thresholds_from_json (thresholds_to_json (thresholds p)) = Some (thresholds p)"
  using valid_thresholds_finite [OF assms]
  by (simp add: thresholds_from_json_def thresholds_to_json_def write_double_def json_find_object)

lemma hysteresis_read_back: "hysteresis_from_json (json_object kvs) = Some h"
  if "map_of (rev kvs) ''hysteresis'' = Some (hysteresis_to_json h)"
  using that by (simp add: hysteresis_from_json_def json_find_object hysteresis_to_json_def u32_field_or_def field_or_object)

lemma weights_read_back: "weights_from_json (json_object kvs) = w"
  if "map_of (rev kvs) ''weights'' = Some (weights_to_json w)"
  using that by (simp add: weights_from_json_def json_find_object weights_to_json_def field_or_object Let_def)

text \<open>The roles come back in the order of their names and are sorted into the map again.\<close>

lemma sm_find_map_of: "sm_find m k = map_of m k"
  by (induction m) auto

lemma map_of_rev: assumes "distinct (map fst xs)" shows "map_of (rev xs) = map_of xs"
proof
  fix k
  have "map_of (rev xs) k = Some v \<longleftrightarrow> map_of xs k = Some v" for v
    using assms by (simp add: map_of_eq_Some_iff flip: rev_map)
  then show "map_of (rev xs) k = map_of xs k" by (metis option.exhaust)
qed

lemma read_roles:
  assumes "\<forall>(k, j) \<in> set ms. \<exists>r x. k = TierRole_to_string r \<and> j = J_Number x" "distinct (map fst ms)" "sm_ok m"
  shows "sm_ok (fold read_role ms m) \<and> sm_find (fold read_role ms m) r =
    (case map_of ms (TierRole_to_string r) of None \<Rightarrow> sm_find m r | Some j \<Rightarrow> as_number j)"
  using assms
proof (induction ms arbitrary: m)
  case (Cons kj ms)
  obtain r' x where kj: "kj = (TierRole_to_string r', J_Number x)" using Cons.prems(1) by (cases kj) auto
  have step: "read_role kj m = sm_assign r' x m" by (simp add: kj read_role_def tier_codec.dec_enc)
  have "map_of ms (TierRole_to_string r') = None" using Cons.prems(2) by (simp add: kj map_of_eq_None_iff)
  moreover have "sm_ok (fold read_role ms (sm_assign r' x m)) \<and> sm_find (fold read_role ms (sm_assign r' x m)) r =
      (case map_of ms (TierRole_to_string r) of None \<Rightarrow> sm_find (sm_assign r' x m) r | Some j \<Rightarrow> as_number j)"
    using Cons.prems by (intro Cons.IH) (simp_all add: sm_ok_assign)
  ultimately show ?case unfolding fold_simps step
    by (cases "r = r'") (simp_all add: kj sm_find_assign tier_codec.enc_inject split: option.splits)
qed simp

lemma roles_read_back:
  assumes "sm_ok rw"
  shows "fold read_role (object_items (json_object (map (\<lambda>(role, v). (TierRole_to_string role, J_Number v)) rw))) [] = rw"
proof -
  let ?kvs = "map (\<lambda>(role, v). (TierRole_to_string role, J_Number v)) rw"
  obtain m where m: "json_object ?kvs = J_Object m" "sm_ok m" "set m \<subseteq> set ?kvs" using json_object_shape by blast
  have look: "map_of m k = map_of (rev ?kvs) k" for k
    using json_find_object [of k ?kvs] by (simp add: m(1) sm_find_map_of)
  have shape: "\<forall>(k, j) \<in> set m. \<exists>r x. k = TierRole_to_string r \<and> j = J_Number x" using m(3) by fastforce
  have dist: "distinct (map fst m)" using m(2) by (simp add: sm_ok_def strict_sorted_iff)
  have drw: "distinct (map fst rw)" using assms by (simp add: sm_ok_def strict_sorted_iff)
  have "inj TierRole_to_string" by (rule injI) (simp add: tier_codec.enc_inject)
  then have "distinct (map fst ?kvs)" using drw by (simp add: distinct_map inj_on_def comp_def split_beta)
  then have rev: "map_of (rev ?kvs) = map_of ?kvs" by (rule map_of_rev)
  have "map_of ?kvs (TierRole_to_string r) = map_option J_Number (map_of rw r)" for r
    by (induction rw) (auto simp: tier_codec.enc_inject)
  then have "sm_find (fold read_role m []) r = sm_find rw r" for r
    using read_roles [OF shape dist sm_ok_Nil, of r] by (simp add: look rev sm_find_map_of split: option.splits)
  then show ?thesis using read_roles [OF shape dist sm_ok_Nil] assms by (simp add: m(1) sm_ext)
qed

lemma aggregate_read_back:
  assumes "map_of (rev kvs) ''aggregate'' = Some (aggregate_to_json a)" "sm_ok (role_weight a)"
  shows "aggregate_from_json (json_object kvs) = AggregateConfig_init\<lparr>consider_hierarchy := consider_hierarchy a, role_weight := role_weight a\<rparr>"
proof -
  have "role_weight AggregateConfig_init = []" by (simp add: AggregateConfig_init_def)
  then show ?thesis using assms(1) roles_read_back [OF assms(2)]
    by (simp add: aggregate_from_json_def json_find_object aggregate_to_json_def field_or_object)
qed

lemma rule_read_back: "rule_from_json (rule_to_json r) = r"
  by (simp add: rule_from_json_def rule_to_json_def field_or_object level_codec.dec_enc map_filter_codec action_codec.dec_enc
      ResponseRule_init_def)

lemma rules_read_back: "rules_from_json (json_object kvs) = rs"
  if "map_of (rev kvs) ''response_rules'' = Some (J_Array (map rule_to_json rs))"
  using that by (simp add: rules_from_json_def field_or_object comp_def rule_read_back)

lemma schema_ok: "i64_or (- 1) (J_Number (Fin 1)) = Some 1"
  by (simp add: i64_or_def as_int64_def in_i64_range_def rat_trunc_def)

text \<open>What the wire format of a policy keeps: all but the freshness and the three aggregate penalties.\<close>

definition wire_policy :: "PressurePolicy \<Rightarrow> PressurePolicy" where
  "wire_policy p = p\<lparr>freshness := FreshnessConfig_init,
     aggregate := AggregateConfig_init\<lparr>consider_hierarchy := consider_hierarchy (aggregate p), role_weight := role_weight (aggregate p)\<rparr>\<rparr>"

lemma wire_policy_valid: "validate_policy (wire_policy p) = validate_policy p"
  by (simp add: wire_policy_def validate_policy_def)

lemma wire_policy_eta: "PressurePolicy_init\<lparr>policy_version := policy_version p, policy_name := policy_name p,
    thresholds := thresholds p, hysteresis := hysteresis p, weights := weights p,
    aggregate := AggregateConfig_init\<lparr>consider_hierarchy := consider_hierarchy (aggregate p), role_weight := role_weight (aggregate p)\<rparr>,
    response_rules := response_rules p, max_queued_events := max_queued_events p, max_relief_bytes := max_relief_bytes p\<rparr> = wire_policy p"
  by (simp add: wire_policy_def PressurePolicy_init_def)

lemma relief_read_back: "small w \<or> w = - 1 \<Longrightarrow> u64_or (- 1) (jint w) = w"
proof (elim disjE)
  assume "w = - 1"
  have "unat (- 1 :: u64) = 2 ^ 64 - 1" by (simp add: unsigned_minus_1_eq_mask mask_eq_exp_minus_1)
  then have "as_uint64 (jint (- 1)) = None" by (simp add: counter_read)
  with \<open>w = - 1\<close> show ?thesis by (simp add: u64_or_def)
qed simp

lemma policy_read_back:
  assumes "validate_policy p = None" "small (policy_version p)" "small (max_queued_events p)"
    and "small (max_relief_bytes p) \<or> max_relief_bytes p = - 1" "sm_ok (role_weight (aggregate p))"
  shows "policy_from_json (policy_to_json p) = Some (Some (wire_policy p))"
proof -
  have "policy_body_from_json (policy_to_json p) = Some (Some (wire_policy p))"
    using assms thresholds_read_back [OF assms(1)] wire_policy_valid [of p]
    by (simp add: policy_body_from_json_def policy_to_json_def write_u64_def write_string_def json_find_object field_or_object
        hysteresis_read_back weights_read_back aggregate_read_back rules_read_back relief_read_back wire_policy_eta)
  then show ?thesis by (simp add: policy_from_json_def policy_to_json_def json_find_object schema_ok)
qed

end
