(* ===== verification/SnapshotJsonLaws.thy ===== *)
theory SnapshotJsonLaws imports SnapshotJson PolicyJsonLaws begin

text \<open>Round trips of observations, domain states, snapshots and traces through JSON, and through JSON text.\<close>

section \<open>Observations\<close>

definition small_option :: "u64 option \<Rightarrow> bool" where
  "small_option x \<longleftrightarrow> (case x of None \<Rightarrow> True | Some w \<Rightarrow> small w)"

definition observation_small :: "DomainObservation \<Rightarrow> bool" where
  "observation_small ob \<longleftrightarrow> list_all small [obs_total_capacity ob, obs_committed ob, obs_resident ob, obs_unavailable ob,
     obs_available ob, obs_observed_at_ms ob] \<and>
     list_all small_option [obs_reclaimable ob, obs_usable_capacity ob, obs_reserved ob]"

lemma i64_or_jint_signed [simp]: "map_option ucast (i64_or d (jint_signed w)) = Some w"
proof -
  have b: "\<bar>sint w\<bar> \<le> 2 ^ 53" by (rule i32_bound)
  have "ucast (scast w :: i64) = w" by (rule bit_word_eqI) (auto simp: bit_simps)
  then have "ucast (of_int (sint w) :: i64) = w" by simp
  then show ?thesis using as_int64_int [OF b] by (simp add: i64_or_def jint_signed_def)
qed

lemma id_read_back: "map_of (rev kvs) ''id'' = Some (J_String (to_hex i)) \<Longrightarrow> read_id (json_object kvs) = Some i"
  by (simp add: read_id_def json_find_object domain_id_codec.dec_enc)

lemma observation_read_back:
  assumes "observation_small ob"
  shows "observation_from_json (observation_to_json ob) = Some (Some ob)"
proof -
  have sm: "small (obs_total_capacity ob)" "small (obs_committed ob)" "small (obs_resident ob)" "small (obs_unavailable ob)"
    "small (obs_available ob)" "small (obs_observed_at_ms ob)"
    and opt: "small_option (obs_reclaimable ob)" "small_option (obs_usable_capacity ob)" "small_option (obs_reserved ob)"
    using assms by (simp_all add: observation_small_def)
  show ?thesis using sm opt
    by (cases "obs_reclaimable ob"; cases "obs_usable_capacity ob"; cases "obs_reserved ob")
       (simp_all add: observation_from_json_def observation_to_json_def id_read_back read_counters_def req_def optional_req_def
        field_or_object optional_u64_def small_option_def domain_type_codec.dec_enc confidence_codec.dec_enc
        provenance_codec.dec_enc validity_codec.dec_enc DomainObservation_init_def)
qed

section \<open>Domain states\<close>

definition domain_small :: "DomainState \<Rightarrow> bool" where
  "domain_small d \<longleftrightarrow> list_all small [ds_total_capacity d, ds_usable_capacity d, ds_reserved_bytes d, ds_committed d,
     ds_resident d, ds_available d, ds_reclaimable d, ds_level_hold_observations d, ds_trend_window_samples d,
     ds_timestamp_ms d, ds_entered_level_at_ms d, ds_peak_level d] \<and>
     validate_budget (ds_budget d) = None \<and> budget_small (ds_budget d)"

lemma domain_members_lookup:
  "map_of (rev (domain_members d)) ''id'' = Some (J_String (to_hex (ds_id d)))"
  "map_of (rev (domain_members d)) ''type'' = Some (J_String (DomainType_to_string (ds_type d)))"
  "map_of (rev (domain_members d)) ''provider'' = Some (J_String (ds_provider d))"
  "map_of (rev (domain_members d)) ''native_resource_id'' = Some (J_String (ds_native_resource_id d))"
  "map_of (rev (domain_members d)) ''budget'' = Some (budget_to_json (ds_budget d))"
  "map_of (rev (domain_members d)) ''governed'' = Some (J_Bool (ds_governed d))"
  "map_of (rev (domain_members d)) ''total_capacity'' = Some (jint (ds_total_capacity d))"
  "map_of (rev (domain_members d)) ''usable_capacity'' = Some (jint (ds_usable_capacity d))"
  "map_of (rev (domain_members d)) ''reserved_bytes'' = Some (jint (ds_reserved_bytes d))"
  "map_of (rev (domain_members d)) ''committed'' = Some (jint (ds_committed d))"
  "map_of (rev (domain_members d)) ''resident'' = Some (jint (ds_resident d))"
  "map_of (rev (domain_members d)) ''available'' = Some (jint (ds_available d))"
  "map_of (rev (domain_members d)) ''reclaimable'' = Some (jint (ds_reclaimable d))"
  "map_of (rev (domain_members d)) ''utilization'' = Some (J_Number (ds_utilization d))"
  "map_of (rev (domain_members d)) ''level'' = Some (J_String (PressureLevel_to_string (ds_level d)))"
  "map_of (rev (domain_members d)) ''previous_level'' = Some (J_String (PressureLevel_to_string (ds_previous_level d)))"
  "map_of (rev (domain_members d)) ''in_hysteresis_hold'' = Some (J_Bool (ds_in_hysteresis_hold d))"
  "map_of (rev (domain_members d)) ''level_hold_observations'' = Some (jint (ds_level_hold_observations d))"
  "map_of (rev (domain_members d)) ''score'' = Some (J_Number (ds_score d))"
  "map_of (rev (domain_members d)) ''utilization_component'' = Some (J_Number (ds_utilization_component d))"
  "map_of (rev (domain_members d)) ''free_deficit_component'' = Some (J_Number (ds_free_deficit_component d))"
  "map_of (rev (domain_members d)) ''reserve_deficit_component'' = Some (J_Number (ds_reserve_deficit_component d))"
  "map_of (rev (domain_members d)) ''growth_component'' = Some (J_Number (ds_growth_component d))"
  "map_of (rev (domain_members d)) ''allocation_failure_component'' = Some (J_Number (ds_allocation_failure_component d))"
  "map_of (rev (domain_members d)) ''stigma'' = Some (J_Number (ds_stigma d))"
  "map_of (rev (domain_members d)) ''trend'' = Some (J_String (TrendDirection_to_string (ds_trend d)))"
  "map_of (rev (domain_members d)) ''trend_rate'' = Some (J_Number (ds_trend_rate d))"
  "map_of (rev (domain_members d)) ''trend_confidence'' = Some (J_Number (ds_trend_confidence d))"
  "map_of (rev (domain_members d)) ''trend_window_samples'' = Some (jint (ds_trend_window_samples d))"
  "map_of (rev (domain_members d)) ''confidence'' = Some (J_String (Confidence_to_string (ds_confidence d)))"
  "map_of (rev (domain_members d)) ''provenance'' = Some (J_String (Provenance_to_string (ds_provenance d)))"
  "map_of (rev (domain_members d)) ''validity'' = Some (J_String (Validity_to_string (ds_validity d)))"
  "map_of (rev (domain_members d)) ''timestamp_ms'' = Some (jint (ds_timestamp_ms d))"
  "map_of (rev (domain_members d)) ''explanation'' = Some (J_String (ds_explanation d))"
  "map_of (rev (domain_members d)) ''entered_level_at_ms'' = Some (jint (ds_entered_level_at_ms d))"
  "map_of (rev (domain_members d)) ''peak_level'' = Some (jint (ds_peak_level d))"
  "map_of (rev (domain_members d)) ''responses'' = Some (J_Array (map (\<lambda>a. J_String (ResponseAction_to_string a)) (ds_responses d)))"
  by (simp_all add: domain_members_def)

lemma domain_state_read_back:
  assumes "domain_small d"
  shows "domain_state_from_json (domain_state_to_json d) = Some d"
proof -
  have sm: "small (ds_total_capacity d)" "small (ds_usable_capacity d)" "small (ds_reserved_bytes d)" "small (ds_committed d)"
    "small (ds_resident d)" "small (ds_available d)" "small (ds_reclaimable d)" "small (ds_level_hold_observations d)"
    "small (ds_trend_window_samples d)" "small (ds_timestamp_ms d)" "small (ds_entered_level_at_ms d)" "small (ds_peak_level d)"
    and bud: "budget_from_json (budget_to_json (ds_budget d)) = Some (ds_budget d)"
    using assms budget_read_back by (simp_all add: domain_small_def)
  then show ?thesis
    by (simp add: domain_state_from_json_def domain_state_to_json_def id_read_back domain_members_lookup field_or_object map_filter_codec
        domain_type_codec.dec_enc level_codec.dec_enc trend_codec.dec_enc confidence_codec.dec_enc
        provenance_codec.dec_enc validity_codec.dec_enc action_codec.dec_enc Let_def DomainState_init_def)
qed

section \<open>Snapshots\<close>

text \<open>
  What survives of the provider health: \<open>to_string\<close> (types.h) has no case for Partial and writes UNAVAILABLE, so a partial
  provider is read as unavailable.
\<close>

definition wire_status :: "ProviderStatus \<Rightarrow> ProviderStatus" where
  "wire_status v = (if v = PS_Partial then PS_Unavailable else v)"

definition wire_health :: "(string \<times> ProviderStatus) list \<Rightarrow> (string \<times> ProviderStatus) list" where
  "wire_health m = map (\<lambda>(k, v). (k, wire_status v)) m"

lemma read_status: "value_or PS_Unavailable (provider_status_from_string (ProviderStatus_to_string v)) = wire_status v"
  by (cases v) (simp_all add: wire_status_def provider_status_from_string_def)

lemma wire_health_id: "PS_Partial \<notin> snd ` set m \<Longrightarrow> wire_health m = m"
  by (induction m) (auto simp: wire_health_def wire_status_def)

lemma wire_health_keys [simp]: "map fst (wire_health m) = map fst m"
  by (simp add: wire_health_def split_beta comp_def)

lemma health_fold:
  assumes "sm_ok (m @ kvs)"
  shows "fold (\<lambda>(k, hv) m. sm_assign k (value_or PS_Unavailable (provider_status_from_string (text_of hv))) m)
      (map (\<lambda>(k, v). (k, J_String (ProviderStatus_to_string v))) kvs) m = m @ wire_health kvs"
  using assms
proof (induction kvs arbitrary: m)
  case (Cons kv kvs)
  obtain k v where kv: "kv = (k, v)" by (cases kv)
  have "sm_assign k (wire_status v) m = m @ [(k, wire_status v)]"
    using Cons.prems sm_ok_append [of m k v kvs] by (simp add: kv sm_assign_last)
  moreover have "sm_ok ((m @ [(k, wire_status v)]) @ kvs)" using Cons.prems by (simp add: kv sm_ok_def)
  ultimately show ?case using Cons.IH [of "m @ [(k, wire_status v)]"] by (simp add: kv read_status) (simp add: wire_health_def)
qed (simp add: wire_health_def)

lemma health_read_back: "sm_ok m \<Longrightarrow> health_from_json (health_to_json m) = wire_health m"
proof -
  assume ok: "sm_ok m"
  let ?kvs = "map (\<lambda>(k, v). (k, J_String (ProviderStatus_to_string v))) m"
  have "map fst ?kvs = map fst m" by (simp add: split_beta comp_def)
  then have "json_object ?kvs = J_Object ?kvs" using ok by (intro json_object_sorted) (simp only: sm_ok_def)
  then show ?thesis using health_fold [of "[]" m] ok by (simp add: health_from_json_def health_to_json_def)
qed

lemma read_domains_back:
  assumes "list_all domain_small ds" "distinct (seen @ map ds_id ds)"
  shows "read_domains seen (map domain_state_to_json ds) = Some ds"
  using assms by (induction ds arbitrary: seen) (auto simp: domain_state_read_back)

lemma u64_or_jint32 [simp]: "ucast (u64_or 0 (jint32 w)) = w"
proof -
  obtain n where n: "unat w = n" by simp
  have b: "n < 2 ^ 32" using unsigned_less [of w, where 'a = nat] by (simp add: n)
  have "jint32 w = jint (of_nat n)"
    using b sint_small [of "of_nat n"] by (simp add: jint32_def jint_def n unat_of_nat)
  moreover have "small (of_nat n)" using b by (simp add: small_def unat_of_nat)
  moreover have "ucast (of_nat n :: u64) = (of_nat n :: u32)" using b by (simp add: unsigned_of_nat take_bit_nat_eq_self)
  moreover have "of_nat n = w" unfolding n [symmetric] by simp
  ultimately show ?thesis by simp
qed

definition snapshot_small :: "Snapshot \<Rightarrow> bool" where
  "snapshot_small s \<longleftrightarrow> list_all small [sn_id s, sn_generation s, sn_timestamp_ms s, sn_policy_version s] \<and>
     list_all domain_small (sn_domains s) \<and> distinct (map ds_id (sn_domains s)) \<and> sm_ok (sn_provider_health s)"

text \<open>A snapshot as it is read back: the event classes, of which only the count is written, are empty.\<close>

definition wire_snapshot :: "Snapshot \<Rightarrow> Snapshot" where
  "wire_snapshot s = s\<lparr>sn_provider_health := wire_health (sn_provider_health s),
     sn_events := (sn_events s)\<lparr>ses_classes := []\<rparr>\<rparr>"

lemma events_read_back: "events_from_json (events_to_json e) = e\<lparr>ses_classes := []\<rparr>"
  by (cases e) (simp add: events_from_json_def events_to_json_def field_or_object)

lemma schema_object: "map_of (rev kvs) ''schema'' = Some (J_Number (Fin 1)) \<Longrightarrow> schema_version (json_object kvs) = Some 1"
  by (simp add: schema_version_def json_find_object schema_ok)

lemma snapshot_read_back:
  assumes "snapshot_small s"
  shows "snapshot_from_json (snapshot_to_json s) = Some (Some (wire_snapshot s))"
proof -
  have sm: "small (sn_id s)" "small (sn_generation s)" "small (sn_timestamp_ms s)" "small (sn_policy_version s)"
    and ds: "read_domains [] (map domain_state_to_json (sn_domains s)) = Some (sn_domains s)"
    and h: "health_from_json (health_to_json (sn_provider_health s)) = wire_health (sn_provider_health s)"
    and e: "events_from_json (events_to_json (sn_events s)) = (sn_events s)\<lparr>ses_classes := []\<rparr>"
    using assms read_domains_back [of "sn_domains s" "[]"] health_read_back events_read_back by (simp_all add: snapshot_small_def)
  have "json_type (events_to_json (sn_events s)) = JT_Object" by (simp add: events_to_json_def)
  then have "snapshot_body_from_json (snapshot_to_json s) = Some (wire_snapshot s)" using sm ds h e
    by (simp add: snapshot_body_from_json_def snapshot_to_json_def field_or_object Let_def level_codec.dec_enc
        confidence_codec.dec_enc provenance_codec.dec_enc comp_def Snapshot_init_def wire_snapshot_def)
  then show ?thesis by (simp add: snapshot_from_json_def schema_object) (simp add: snapshot_to_json_def schema_object)
qed

end
