(* ===== verification/WireText.thy ===== *)
theory WireText imports SnapshotJsonLaws begin

text \<open>
  The wire format end to end: which values serialize.cpp can hand to the text layer, that snapshots and traces survive the
  way through JSON, and what the readers guarantee of input that nobody wrote with this library.
\<close>

section \<open>The JSON of a record is within the limits of the parser\<close>

definition text_ok :: "string \<Rightarrow> bool" where
  "text_ok s \<longleftrightarrow> length s \<le> max_string default_limits"

definition number_ok :: "double \<Rightarrow> bool" where
  "number_ok x \<longleftrightarrow> proper_double x \<and> x \<noteq> Fin (2 ^ 63)"

text \<open>Ready for the serializer at a depth below the limit.\<close>

definition wire_ok :: "nat \<Rightarrow> Json \<Rightarrow> bool" where
  "wire_ok d j \<longleftrightarrow> json_ok default_limits d j \<and> castable j"

lemma limits [simp]: "max_depth default_limits = 128" "max_string default_limits = 1048576"
  by (simp_all add: default_limits_def)

lemma wire_ok_scalars:
  "wire_ok d (J_String s) \<longleftrightarrow> d < 128 \<and> text_ok s" "wire_ok d (J_Bool b)" "wire_ok d (J_Number x) \<longleftrightarrow> number_ok x"
  by (auto simp: wire_ok_def text_ok_def number_ok_def)

lemma wire_ok_array: "wire_ok d (J_Array xs) \<longleftrightarrow> d < 128 \<and> list_all (wire_ok (Suc d)) xs"
  by (auto simp: wire_ok_def list_all_iff)

lemma wire_ok_object:
  assumes "d < 127" "list_all (\<lambda>kv. text_ok (fst kv) \<and> wire_ok (Suc d) (snd kv)) kvs"
  shows "wire_ok d (json_object kvs)"
proof -
  obtain m where "json_object kvs = J_Object m" "sm_ok m" "set m \<subseteq> set kvs" using json_object_shape by blast
  then show ?thesis using assms by (auto simp: wire_ok_def text_ok_def list_all_iff)
qed

lemma number_ok_int: assumes "\<bar>i\<bar> \<le> 2 ^ 53" shows "number_ok (fl (of_int i))"
proof -
  have "(of_int i :: rat) \<le> of_int (2 ^ 53)" using assms by (simp only: of_int_le_iff abs_le_iff)
  then show ?thesis using fl_int [OF assms] by (auto simp: number_ok_def proper_def)
qed

lemma wire_ok_jint: "small w \<Longrightarrow> wire_ok d (jint w)"
proof -
  assume s: "small w"
  obtain n where n: "unat w = n" by simp
  have "n \<le> 2 ^ 53" using s unfolding small_def n .
  moreover have "sint w = int n" using sint_small [of w] calculation unfolding n by simp
  ultimately show ?thesis using number_ok_int [of "int n"] by (simp add: jint_def wire_ok_scalars)
qed

lemma wire_ok_jint32: "wire_ok d (jint32 w)"
proof -
  obtain n where n: "unat w = n" by simp
  have "n < 2 ^ 32" using unsigned_less [of w, where 'a = nat] by (simp add: n)
  then show ?thesis using number_ok_int [of "int n"] by (simp add: jint32_def n wire_ok_scalars)
qed

lemma wire_ok_jint_signed: "wire_ok d (jint_signed w)"
  using number_ok_int [OF i32_bound] by (simp only: jint_signed_def wire_ok_scalars)

lemma wire_ok_one: "number_ok (Fin 1)"
  using number_ok_int [of 1] by (simp add: fl_int del: power_numeral)

text \<open>The names of the enumerations are short.\<close>

lemma text_ok_names [simp]: "text_ok (DomainType_to_string dt)" "text_ok (PressureLevel_to_string pl)"
  "text_ok (TrendDirection_to_string td)" "text_ok (Confidence_to_string co)" "text_ok (Provenance_to_string pr)"
  "text_ok (Validity_to_string va)" "text_ok (ResponseAction_to_string ra)" "text_ok (ProviderStatus_to_string ps)"
  "text_ok (ReserveKind_to_string rk)" "text_ok (to_hex i)"
proof -
  note [simp] = text_ok_def
  show "text_ok (DomainType_to_string dt)" by (cases dt) simp_all
  show "text_ok (PressureLevel_to_string pl)" by (cases pl) simp_all
  show "text_ok (TrendDirection_to_string td)" by (cases td) simp_all
  show "text_ok (Confidence_to_string co)" by (cases co) simp_all
  show "text_ok (Provenance_to_string pr)" by (cases pr) simp_all
  show "text_ok (Validity_to_string va)" by (cases va) simp_all
  show "text_ok (ResponseAction_to_string ra)" by (cases ra) simp_all
  show "text_ok (ProviderStatus_to_string ps)" by (cases ps) simp_all
  show "text_ok (ReserveKind_to_string rk)" by (cases rk) simp_all
  show "text_ok (to_hex i)" by (simp add: to_hex_def)
qed

lemmas wire_values = wire_ok_scalars wire_ok_array wire_ok_jint wire_ok_jint32 wire_ok_jint_signed wire_ok_one

text \<open>The members of the objects that serialize.cpp builds, at a depth that leaves room for them.\<close>

definition members_wire :: "nat \<Rightarrow> (string \<times> Json) list \<Rightarrow> bool" where
  "members_wire d kvs \<longleftrightarrow> list_all (\<lambda>kv. text_ok (fst kv) \<and> wire_ok d (snd kv)) kvs"

lemma members_wire_simps [simp]:
  "members_wire d []" "members_wire d ((k, v) # kvs) \<longleftrightarrow> text_ok k \<and> wire_ok d v \<and> members_wire d kvs"
  "members_wire d (xs @ ys) \<longleftrightarrow> members_wire d xs \<and> members_wire d ys"
  by (simp_all add: members_wire_def)

lemma wire_ok_members: "d < 127 \<Longrightarrow> members_wire (Suc d) kvs \<Longrightarrow> wire_ok d (json_object kvs)"
  by (rule wire_ok_object) (simp_all add: members_wire_def)

lemma text_ok_literal [simp]: "text_ok [] = True" "text_ok (c # s) \<longleftrightarrow> length s < 1048576"
  by (auto simp: text_ok_def)

section \<open>Budgets and domain states\<close>

definition budget_wire :: "Budget \<Rightarrow> bool" where
  "budget_wire b \<longleftrightarrow> text_ok (owner b) \<and> list_all (\<lambda>r. text_ok (rsv_name r)) (reserves b)"

lemma wire_ok_budget:
  assumes "d < 120" "budget_small b" "budget_wire b"
  shows "wire_ok d (budget_to_json b)"
proof -
  have "wire_ok (Suc (Suc d)) (reserve_to_json r)" if "r \<in> set (reserves b)" for r
    using that assms unfolding reserve_to_json_def
    by (intro wire_ok_members) (auto simp: wire_values budget_small_def budget_wire_def list_all_iff)
  then show ?thesis using assms unfolding budget_to_json_def
    by (intro wire_ok_members) (auto simp: wire_values budget_small_def budget_wire_def list_all_iff split: option.split)
qed

definition domain_wire :: "DomainState \<Rightarrow> bool" where
  "domain_wire d \<longleftrightarrow> list_all text_ok [ds_provider d, ds_native_resource_id d, ds_explanation d] \<and> budget_wire (ds_budget d) \<and>
     list_all number_ok [ds_utilization d, ds_score d, ds_utilization_component d, ds_free_deficit_component d,
       ds_reserve_deficit_component d, ds_growth_component d, ds_allocation_failure_component d, ds_stigma d,
       ds_trend_rate d, ds_trend_confidence d]"

lemma wire_ok_domain_state:
  assumes "e < 100" "domain_small d" "domain_wire d"
  shows "wire_ok e (domain_state_to_json d)"
proof -
  have "wire_ok (Suc e) (budget_to_json (ds_budget d))"
    using assms by (intro wire_ok_budget) (simp_all add: domain_small_def domain_wire_def)
  then show ?thesis using assms unfolding domain_state_to_json_def domain_members_def
    by (intro wire_ok_members) (simp_all add: wire_values domain_small_def domain_wire_def list_all_iff)
qed

section \<open>Snapshots\<close>

lemma wire_ok_health: "d < 100 \<Longrightarrow> list_all (\<lambda>kv. text_ok (fst kv)) m \<Longrightarrow> wire_ok d (health_to_json m)"
  unfolding health_to_json_def by (intro wire_ok_members) (auto simp: members_wire_def list_all_iff wire_values)

definition snapshot_wire :: "Snapshot \<Rightarrow> bool" where
  "snapshot_wire s \<longleftrightarrow> list_all text_ok [sn_policy_name s, sn_aggregate_explanation s] \<and> list_all text_ok (sn_warnings s) \<and>
     number_ok (sn_aggregate_score s) \<and> list_all (\<lambda>kv. text_ok (fst kv)) (sn_provider_health s) \<and>
     list_all domain_wire (sn_domains s)"

lemma wire_ok_snapshot:
  assumes "snapshot_small s" "snapshot_wire s"
  shows "wire_ok 0 (snapshot_to_json s)"
proof -
  have "wire_ok (Suc 0) (events_to_json e)" for e
    unfolding events_to_json_def by (intro wire_ok_members) (simp_all add: wire_values)
  moreover have "wire_ok (Suc (Suc 0)) (domain_state_to_json d)" if "d \<in> set (sn_domains s)" for d
    using that assms by (intro wire_ok_domain_state) (simp_all add: snapshot_small_def snapshot_wire_def list_all_iff)
  moreover have "wire_ok (Suc 0) (health_to_json (sn_provider_health s))"
    using assms by (intro wire_ok_health) (simp_all add: snapshot_wire_def)
  ultimately show ?thesis using assms unfolding snapshot_to_json_def
    by (intro wire_ok_members) (auto simp: wire_values snapshot_small_def snapshot_wire_def list_all_iff)
qed

text \<open>The default configuration of the parser, and what is read from a text.\<close>

definition read_text :: "(Json \<Rightarrow> 'a) \<Rightarrow> string \<Rightarrow> 'a option" where
  "read_text f text = map_option f (json_parse default_limits text)"

lemma wire_reparse:
  assumes "wire_ok 0 j" "f j = y"
  shows "\<exists>text. json_dump j = Some text \<and> (length text \<le> max_bytes default_limits \<longrightarrow> read_text f text = Some y)"
  using json_reparse [of default_limits j] assms by (auto simp: wire_ok_def read_text_def)

lemma wire_snapshot_id:
  "PS_Partial \<notin> snd ` set (sn_provider_health s) \<Longrightarrow> ses_classes (sn_events s) = [] \<Longrightarrow> wire_snapshot s = s"
  by (simp add: wire_snapshot_def wire_health_id)

text \<open>
  C11. Snapshots survive the wire: a snapshot with distinct domain identifiers, valid budgets, counters of at most \<open>2^53\<close>, finite
  scores other than \<open>2^63\<close> and strings of at most a megabyte is written as JSON text without undefined behaviour, and when the text
  is within the byte limit of the default parser, parsing it and reading the snapshot back gives the snapshot, with two
  losses: a provider whose health is Partial is read as Unavailable, and the classes of the event summary, which are never written,
  are empty. A snapshot without these is read back exactly.
\<close>

theorem snapshot_text_round_trip:
  assumes "snapshot_small s" "snapshot_wire s"
  shows "\<exists>text. json_dump (snapshot_to_json s) = Some text \<and>
    (length text \<le> max_bytes default_limits \<longrightarrow> read_text snapshot_from_json text = Some (Some (Some (wire_snapshot s)))) \<and>
    (PS_Partial \<notin> snd ` set (sn_provider_health s) \<and> ses_classes (sn_events s) = [] \<longrightarrow> wire_snapshot s = s)"
  using wire_reparse [of "snapshot_to_json s" snapshot_from_json, OF wire_ok_snapshot [OF assms] snapshot_read_back [OF assms(1)]]
    wire_snapshot_id [of s] by blast

definition wire_sample :: Snapshot where
  "wire_sample = Snapshot_init\<lparr>sn_warnings := [''late''],
     sn_provider_health := [(''cuda'', PS_Partial), (''host'', PS_Healthy)],
     sn_domains := [DomainState_init\<lparr>ds_budget := sample_budget, ds_level := PL_High, ds_responses := [RA_RequestReclaim]\<rparr>]\<rparr>"

lemma wire_sample_ok: "snapshot_small wire_sample" "snapshot_wire wire_sample"
  using number_ok_int [of 0]
  by (simp_all add: wire_sample_def snapshot_small_def snapshot_wire_def domain_small_def domain_wire_def budget_wire_def
      budget_small_def small_def sample_budget_def Budget_init_def validate_budget_def reserve_bytes_def
      DomainState_init_def Snapshot_init_def sm_ok_def fl_int)

section \<open>Traces\<close>

definition frame_small :: "TraceFrame \<Rightarrow> bool" where
  "frame_small f \<longleftrightarrow> small (tf_timestamp_ms f) \<and> list_all observation_small (tf_observations f) \<and> sm_ok (tf_provider_health f)"

definition trace_small :: "PressureTrace \<Rightarrow> bool" where
  "trace_small t \<longleftrightarrow> small (tr_policy_version t) \<and> list_all frame_small (tr_frames t)"

text \<open>A frame, and a trace, as they are read back.\<close>

definition wire_frame :: "TraceFrame \<Rightarrow> TraceFrame" where
  "wire_frame f = f\<lparr>tf_provider_health := wire_health (tf_provider_health f)\<rparr>"

definition wire_trace :: "PressureTrace \<Rightarrow> PressureTrace" where
  "wire_trace t = t\<lparr>tr_frames := map wire_frame (tr_frames t)\<rparr>"

lemma wire_trace_id: "(\<forall>f \<in> set (tr_frames t). PS_Partial \<notin> snd ` set (tf_provider_health f)) \<Longrightarrow> wire_trace t = t"
  by (simp add: wire_trace_def wire_frame_def wire_health_id map_idI)

lemma read_all_back: "(\<And>x. x \<in> set xs \<Longrightarrow> f (g x) = Some (Some (h x))) \<Longrightarrow> read_all f (map g xs) = Some (Some (map h xs))"
  by (induction xs) simp_all

lemma frame_read_back:
  assumes "frame_small f"
  shows "frame_from_json (frame_to_json f) = Some (Some (wire_frame f))"
proof -
  have "read_all observation_from_json (map observation_to_json (tf_observations f)) = Some (Some (tf_observations f))"
    using assms read_all_back [of "tf_observations f" observation_from_json observation_to_json id]
    by (simp add: frame_small_def list_all_iff observation_read_back)
  moreover have "health_from_json (health_to_json (tf_provider_health f)) = wire_health (tf_provider_health f)"
    using assms by (intro health_read_back) (simp add: frame_small_def)
  ultimately show ?thesis using assms
    by (simp add: frame_from_json_def frame_to_json_def field_or_object frame_small_def wire_frame_def)
qed

lemma trace_read_back:
  assumes "trace_small t"
  shows "trace_from_json (trace_to_json t) = Some (Some (wire_trace t))"
proof -
  have "read_all frame_from_json (map frame_to_json (tr_frames t)) = Some (Some (map wire_frame (tr_frames t)))"
    using assms by (intro read_all_back frame_read_back) (simp add: trace_small_def list_all_iff)
  then show ?thesis using assms
    by (simp add: trace_from_json_def trace_to_json_def field_or_object json_find_object schema_object trace_small_def wire_trace_def)
qed

definition observation_wire :: "DomainObservation \<Rightarrow> bool" where
  "observation_wire ob \<longleftrightarrow> list_all text_ok [obs_provider ob, obs_native_resource_id ob, obs_detail ob] \<and>
     number_ok (obs_growth_bytes_per_s ob)"

definition trace_wire :: "PressureTrace \<Rightarrow> bool" where
  "trace_wire t \<longleftrightarrow> list_all (\<lambda>f. list_all observation_wire (tf_observations f) \<and>
     list_all (\<lambda>kv. text_ok (fst kv)) (tf_provider_health f)) (tr_frames t)"

lemma wire_ok_observation:
  assumes "d < 100" "observation_small ob" "observation_wire ob"
  shows "wire_ok d (observation_to_json ob)"
  using assms unfolding observation_to_json_def optional_u64_def
  by (intro wire_ok_members)
     (auto simp: wire_values observation_small_def observation_wire_def small_option_def split: option.splits)

lemma wire_ok_trace:
  assumes "trace_small t" "trace_wire t"
  shows "wire_ok 0 (trace_to_json t)"
proof -
  have "wire_ok (Suc (Suc 0)) (frame_to_json f)" if f: "f \<in> set (tr_frames t)" for f
  proof -
    have "wire_ok (Suc (Suc (Suc (Suc 0)))) (observation_to_json ob)" if "ob \<in> set (tf_observations f)" for ob
      using that f assms
      by (intro wire_ok_observation) (auto simp: trace_small_def frame_small_def trace_wire_def list_all_iff)
    moreover have "wire_ok (Suc (Suc (Suc 0))) (health_to_json (tf_provider_health f))"
      using f assms by (intro wire_ok_health) (auto simp: trace_wire_def list_all_iff)
    ultimately show ?thesis using f assms unfolding frame_to_json_def
      by (intro wire_ok_members) (auto simp: wire_values trace_small_def frame_small_def list_all_iff)
  qed
  then show ?thesis using assms unfolding trace_to_json_def
    by (intro wire_ok_members) (auto simp: wire_values trace_small_def list_all_iff)
qed

text \<open>
  C30. Recorded traces survive the wire: with counters of at most \<open>2^53\<close>, finite growth rates other than \<open>2^63\<close>, provider names in the
  order of \<open>std::map\<close> and strings of at most a megabyte, the JSON text of a trace, when within the byte limit of the default
  parser, reads back as the trace, every frame and every observation of it, except that a provider health of Partial is read as
  Unavailable; without one it is exactly the trace, so a replay of the file is a replay of the recording.
\<close>

theorem trace_text_round_trip:
  assumes "trace_small t" "trace_wire t"
  shows "\<exists>text. json_dump (trace_to_json t) = Some text \<and>
    (length text \<le> max_bytes default_limits \<longrightarrow> read_text trace_from_json text = Some (Some (Some (wire_trace t)))) \<and>
    ((\<forall>f \<in> set (tr_frames t). PS_Partial \<notin> snd ` set (tf_provider_health f)) \<longrightarrow> wire_trace t = t)"
  using wire_reparse [of "trace_to_json t" trace_from_json, OF wire_ok_trace [OF assms] trace_read_back [OF assms(1)]]
    wire_trace_id [of t] by blast

definition wire_trace_sample :: PressureTrace where
  "wire_trace_sample = \<lparr>tr_policy_version = 3, tr_frames = [\<lparr>tf_timestamp_ms = 5,
     tf_observations = [DomainObservation_init\<lparr>obs_reserved := Some 7\<rparr>], tf_provider_health = [(''cuda'', PS_Partial)]\<rparr>]\<rparr>"

lemma wire_trace_sample_ok: "trace_small wire_trace_sample" "trace_wire wire_trace_sample"
  using number_ok_int [of 0]
  by (simp_all add: wire_trace_sample_def trace_small_def trace_wire_def frame_small_def observation_small_def small_option_def small_def
      observation_wire_def sm_ok_def DomainObservation_init_def fl_int)

end
