(* ===== verification/WireReaders.thy ===== *)
theory WireReaders imports WireText begin

text \<open>What the readers of serialize.cpp guarantee of input that nobody wrote with this library.\<close>

section \<open>Counters\<close>

lemma as_uint64_small: assumes "as_uint64 j = Some w" shows "small w"
proof -
  obtain r where "j = J_Number (Fin r)"
    using assms by (cases j) (auto simp: as_uint64_def isfinite_iff split: option.splits if_splits)
  then have w: "0 \<le> r" "r \<le> 9007199254740992" "w = of_int \<lfloor>r\<rfloor>"
    using assms by (auto simp: as_uint64_Fin split: if_splits)
  define n where "n = nat \<lfloor>r\<rfloor>"
  have "\<lfloor>r\<rfloor> = int n" using w(1) by (simp add: n_def)
  moreover have "of_int \<lfloor>r\<rfloor> \<le> (9007199254740992 :: rat)" using w(2) of_int_floor_le [of r] by (rule order_trans [rotated])
  then have "\<lfloor>r\<rfloor> \<le> 9007199254740992" by (simp only: of_int_le_numeral_iff)
  ultimately have n: "\<lfloor>r\<rfloor> = int n" "n \<le> 2 ^ 53" by simp_all
  have "unat (of_nat n :: u64) = n" using n(2) by (simp add: unat_of_nat)
  then show ?thesis using n(2) w(3) by (simp add: small_def n(1))
qed

lemma small_0 [simp]: "small 0" by (simp add: small_def)

lemma u64_or_small: "small d \<Longrightarrow> small (u64_or d j)"
  by (auto simp: u64_or_def value_or_def as_uint64_small split: option.splits)

lemma field_or_cases: "P old \<Longrightarrow> (\<And>v. P (f v)) \<Longrightarrow> P (field_or j k f old)"
  by (auto simp: field_or_def split: option.splits)

section \<open>Budgets and policies\<close>

lemma budget_from_json_ok:
  assumes "budget_from_json j = Some b"
  shows "validate_budget b = None \<and> budget_small b"
proof -
  have soft: "field_or j k as_uint64 None = Some s \<Longrightarrow> small s" for k s
    by (auto simp: field_or_def as_uint64_small split: option.splits)
  have field: "small (field_or j' k (u64_or 0) 0)" for j' k by (rule field_or_cases) (simp_all add: u64_or_small)
  have "list_all (\<lambda>r. small (rsv_bytes r)) (field_or j ''reserves''
      (\<lambda>res. if json_type res = JT_Array then map reserve_from_json (array_items res) else []) [])"
    by (rule field_or_cases) (auto simp: list_all_iff reserve_from_json_def field)
  moreover have "write_u64 j k = Some w \<Longrightarrow> small w" for k w
    by (auto simp: write_u64_def as_uint64_small split: option.splits)
  ultimately show ?thesis using assms soft field
    by (auto simp: budget_from_json_def budget_small_def Let_def split: if_splits option.splits)
qed


lemma budget_stable: "budget_from_json j = Some b \<Longrightarrow> budget_from_json (budget_to_json b) = Some b"
  using budget_from_json_ok budget_read_back by blast

lemma read_roles_ok: "sm_ok m \<Longrightarrow> sm_ok (fold read_role ms m)"
  by (induction ms arbitrary: m) (auto simp: read_role_def sm_ok_assign split: option.split)

lemma aggregate_from_json_ok: "aggregate_from_json j = AggregateConfig_init\<lparr>consider_hierarchy := consider_hierarchy (aggregate_from_json j),
    role_weight := role_weight (aggregate_from_json j)\<rparr> \<and> sm_ok (role_weight (aggregate_from_json j))"
  by (auto simp: aggregate_from_json_def field_or_def AggregateConfig_init_def Let_def read_roles_ok split: option.split)

lemma policy_from_json_ok:
  assumes "policy_from_json j = Some (Some p)"
  shows "validate_policy p = None \<and> wire_policy p = p \<and> small (policy_version p) \<and> small (max_queued_events p) \<and>
    (small (max_relief_bytes p) \<or> max_relief_bytes p = - 1) \<and> sm_ok (role_weight (aggregate p))"
proof -
  have queue: "small (field_or j ''max_queued_events'' (u64_or 4096) (max_queued_events PressurePolicy_init))"
    by (rule field_or_cases) (simp add: PressurePolicy_init_def small_def, rule u64_or_small, simp add: small_def)
  have relief: "small (field_or j ''max_relief_bytes'' (u64_or (- 1)) (max_relief_bytes PressurePolicy_init)) \<or>
      field_or j ''max_relief_bytes'' (u64_or (- 1)) (max_relief_bytes PressurePolicy_init) = - 1"
    by (rule field_or_cases) (auto simp: PressurePolicy_init_def u64_or_def value_or_def dest: as_uint64_small split: option.split)
  have version: "write_u64 j ''version'' = Some v \<Longrightarrow> small v" for v
    by (auto simp: write_u64_def as_uint64_small split: option.splits)
  have agg: "wire_policy p = p" if "aggregate p = aggregate_from_json j" "freshness p = FreshnessConfig_init"
    using aggregate_from_json_ok [of j] that by (simp add: wire_policy_def)
  from assms have "policy_body_from_json j = Some (Some p)"
    by (auto simp: policy_from_json_def split: if_splits option.splits)
  then show ?thesis using queue relief version agg aggregate_from_json_ok [of j]
    by (auto simp: policy_body_from_json_def Let_def PressurePolicy_init_def split: if_splits option.splits)
qed

lemma read_domains_ok:
  "read_domains seen js = Some ds \<Longrightarrow> distinct (map ds_id ds) \<and> set (map ds_id ds) \<inter> set seen = {}"
proof (induction seen js arbitrary: ds rule: read_domains.induct)
  case (2 seen dv dvs)
  then obtain d ds' where d: "domain_state_from_json dv = Some d" "ds_id d \<notin> set seen"
    "read_domains (seen @ [ds_id d]) dvs = Some ds'" "ds = d # ds'" by (auto split: option.splits if_splits)
  with "2.IH" [OF d(1,2,3)] show ?case by auto
qed simp

lemma snapshot_from_json_distinct:
  assumes "snapshot_from_json j = Some (Some s)"
  shows "distinct (map ds_id (sn_domains s))"
proof -
  have "distinct (map ds_id ds)" if "field_or j ''domains''
      (\<lambda>v. if json_type v = JT_Array then read_domains [] (array_items v) else Some []) (Some []) = Some ds" for ds
    using that read_domains_ok by (auto simp: field_or_def split: option.splits if_splits)
  then show ?thesis using assms
    by (auto simp: snapshot_from_json_def snapshot_body_from_json_def Let_def split: if_splits option.splits)
qed

text \<open>
  C31. What the configuration readers accept, whatever the JSON: the policy and the budget are valid, and writing them and reading
  them back gives the same policy and the same budget, so a configuration is canonical after one reading; a snapshot that
  was read lists no domain twice.
\<close>

theorem readers_validate:
  assumes "policy_from_json j = Some (Some p)" "budget_from_json k = Some b" "snapshot_from_json l = Some (Some s)"
  shows "validate_policy p = None \<and> policy_from_json (policy_to_json p) = Some (Some p) \<and>
    validate_budget b = None \<and> budget_from_json (budget_to_json b) = Some b \<and>
    distinct (map ds_id (sn_domains s))"
proof -
  have "policy_from_json (policy_to_json p) = Some (Some (wire_policy p))" "wire_policy p = p" "validate_policy p = None"
    using policy_from_json_ok [OF assms(1)] policy_read_back by blast+
  then show ?thesis using budget_from_json_ok [OF assms(2)] budget_stable [OF assms(2)] snapshot_from_json_distinct [OF assms(3)] by simp
qed

lemma readers_validate_witness: "policy_from_json (policy_to_json (wire_policy default_policy)) = Some (Some (wire_policy default_policy))"
proof -
  have "policy_from_json (policy_to_json default_policy) = Some (Some (wire_policy default_policy))"
    by (rule policy_read_back)
       (simp_all add: default_policy_valid, simp_all add: default_policy_def PressurePolicy_init_def AggregateConfig_init_def small_def)
  moreover have "budget_from_json (budget_to_json sample_budget) = Some sample_budget"
    by (rule budget_read_back) (simp_all add: sample_budget_def Budget_init_def validate_budget_def reserve_bytes_def budget_small_def small_def)
  moreover have "snapshot_from_json (snapshot_to_json wire_sample) = Some (Some (wire_snapshot wire_sample))"
    by (rule snapshot_read_back [OF wire_sample_ok(1)])
  ultimately show ?thesis using readers_validate by blast
qed

end
