(* ===== verification/CommandText.thy ===== *)
theory CommandText imports RuntimeProps JsonNumbers begin

text \<open>
  Text input and output of cli/main.cpp: numbers on an output stream, sizes for humans, and the option loops.
  \<open>None\<close> is undefined behaviour: an option without its value reads the null pointer at the end of \<open>argv\<close>.
\<close>

section \<open>Output\<close>

text \<open>
  \<open>std::cout << x\<close> for a double: the general format with six significant digits and without trailing zeros. The digits are the exact
  value rounded (ties to even) at the sixth digit; \<open>leading\<close> finds the decimal exponent of the first one, counting down from
  308, the largest of a double, to below that of the smallest, -324.
\<close>

fun leading :: "nat \<Rightarrow> int \<Rightarrow> rat \<Rightarrow> int" where
  "leading 0 x r = x"
| "leading (Suc n) x r = (if pow10 x \<le> r then x else leading n (x - 1) r)"

definition strip_zeros :: "string \<Rightarrow> string" where
  "strip_zeros s = rev (dropWhile (\<lambda>c. c = CHR ''0'') (rev s))"

definition six_digits :: "rat \<Rightarrow> nat \<times> int" where
  "six_digits r =
    (let x = leading 632 308 r; m = nat (rne (r / pow10 (x - 5)))
     in if m = 1000000 then (100000, x + 1) else (m, x))"

fun ostream_double :: "double \<Rightarrow> string" where
  "ostream_double (Fin r) =
    (if r = 0 then ''0''
     else case six_digits \<bar>r\<bar> of (m, x) \<Rightarrow>
       let D = strip_zeros (dec m)
       in if - 4 \<le> x \<and> x < 6 then fixed_text (r < 0) D (x - int (length D) + 1) else scientific_text (r < 0) D x)"
| "ostream_double NaN = ''nan''"
| "ostream_double PosInf = ''inf''"
| "ostream_double NegInf = ''-inf''"

text \<open>\<open>std::endl\<close>, and a loop that writes one line per element.\<close>

definition endl :: string where
  "endl = [CHR 0x0A]"

definition lines_of :: "('a \<Rightarrow> string) \<Rightarrow> 'a list \<Rightarrow> string" where
  "lines_of f xs = concat (map (\<lambda>x. f x @ endl) xs)"

definition human_bytes :: "u64 \<Rightarrow> string" where
  "human_bytes b =
    (let u = of_u64 b in
     if dge u (Fin 1073741824) then double_to_string (ddiv u (Fin 1073741824)) @ '' GiB''
     else if dge u (Fin 1048576) then double_to_string (ddiv u (Fin 1048576)) @ '' MiB''
     else if dge u (Fin 1024) then double_to_string (ddiv u (Fin 1024)) @ '' KiB''
     else u64_to_string b @ '' B'')"

section \<open>Options\<close>

text \<open>\<open>std::strtoull(s, nullptr, 10)\<close>: white space, a sign, digits; saturating, and negated as an unsigned value.\<close>

definition parse_len :: "string \<Rightarrow> u64" where
  "parse_len s =
    (let s1 = dropWhile (\<lambda>c. c \<in> {CHR '' '', CHR 0x09, CHR 0x0A, CHR 0x0B, CHR 0x0C, CHR 0x0D}) s;
         signed = (s1 \<noteq> [] \<and> (hd s1 = CHR ''-'' \<or> hd s1 = CHR ''+''));
         ds = takeWhile (\<lambda>c. digit_value c \<noteq> None) (if signed then tl s1 else s1);
         n = foldl (\<lambda>n c. 10 * n + (case digit_value c of Some k \<Rightarrow> k | None \<Rightarrow> 0)) 0 ds
     in if 2 ^ 64 \<le> n then - 1
        else if signed \<and> hd s1 = CHR ''-'' then - of_nat n else of_nat n)"

text \<open>
  \<open>if (argv[i] == flag) { out = argv[i+1]; ++i; }\<close> at the first of the remaining arguments: the value, when the flag matches, and the
  arguments from the new position on.
\<close>

fun take_value :: "string \<Rightarrow> string list \<Rightarrow> (string option \<times> string list) option" where
  "take_value flag (a # v # as) = Some (if a = flag then (Some v, v # as) else (None, a # v # as))"
| "take_value flag [a] = (if a = flag then None else Some (None, [a]))"
| "take_value flag [] = None"

lemma take_value_length: "take_value flag as = Some (v, l) \<Longrightarrow> l \<noteq> [] \<and> length l \<le> length as"
  by (induction flag as rule: take_value.induct) (auto split: if_splits)

text \<open>A loop over the arguments with one and with two such tests; the last value of a flag counts.\<close>

definition latest :: "'a option \<Rightarrow> 'a option \<Rightarrow> 'a option" where
  "latest old new = (case new of None \<Rightarrow> old | Some x \<Rightarrow> Some x)"

function one_option :: "string \<Rightarrow> string list \<Rightarrow> string option \<Rightarrow> string option option" where
  "one_option flag as x =
    (if as = [] then Some x
     else case take_value flag as of None \<Rightarrow> None
       | Some (v, l) \<Rightarrow> one_option flag (tl l) (latest x v))"
  by pat_completeness auto
termination by (relation "measure (\<lambda>(f, as, x). length as)") (auto dest: take_value_length simp: neq_Nil_conv)

function two_options :: "string \<Rightarrow> string \<Rightarrow> string list \<Rightarrow> string option \<Rightarrow> string option \<Rightarrow> (string option \<times> string option) option" where
  "two_options f g as x y =
    (if as = [] then Some (x, y)
     else case take_value f as of None \<Rightarrow> None
       | Some (v, l) \<Rightarrow>
         (case take_value g l of None \<Rightarrow> None
          | Some (v', l') \<Rightarrow> two_options f g (tl l') (latest x v) (latest y v')))"
  by pat_completeness auto
termination by (relation "measure (\<lambda>(f, g, as, x, y). length as)") (auto dest!: take_value_length simp: neq_Nil_conv)

declare one_option.simps [simp del] two_options.simps [simp del]

text \<open>A number option with its default.\<close>

definition len_or :: "u64 \<Rightarrow> string option \<Rightarrow> u64" where
  "len_or d v = (case v of None \<Rightarrow> d | Some s \<Rightarrow> parse_len s)"

definition text_or :: "string \<Rightarrow> string option \<Rightarrow> string" where
  "text_or d v = (case v of None \<Rightarrow> d | Some s \<Rightarrow> s)"

end
