(* ===== verification/Synthetic.thy ===== *)
theory Synthetic imports Runtime begin

text \<open>
  providers/synthetic.h and synthetic.cpp: the deterministic provider behind the scenarios of the tests and of the
  command line tool. The group of a domain is its string; \<open>group_hostlike\<close> is the file's own
  \<open>is_hostlike\<close>. A cast of a double that is undefined makes the sample \<open>None\<close>.
\<close>

section \<open>Scenarios and domains\<close>

datatype SyntheticScenario =
    Sc_GradualGrowth
  | Sc_RapidSpike
  | Sc_Sawtooth
  | Sc_SlowRecovery
  | Sc_NoRecovery
  | Sc_ProviderFailure
  | Sc_StaleProvider
  | Sc_GpuOnly
  | Sc_HostOnly
  | Sc_Simultaneous
  | Sc_PersistentTier
  | Sc_PinnedExhaustion
  | Sc_MultiGpu
  | Sc_OneRecovering
  | Sc_Custom

fun SyntheticScenario_to_string :: "SyntheticScenario \<Rightarrow> string" where
  "SyntheticScenario_to_string Sc_GradualGrowth = ''gradual-growth''"
| "SyntheticScenario_to_string Sc_RapidSpike = ''rapid-spike''"
| "SyntheticScenario_to_string Sc_Sawtooth = ''sawtooth''"
| "SyntheticScenario_to_string Sc_SlowRecovery = ''slow-recovery''"
| "SyntheticScenario_to_string Sc_NoRecovery = ''no-recovery''"
| "SyntheticScenario_to_string Sc_ProviderFailure = ''provider-failure''"
| "SyntheticScenario_to_string Sc_StaleProvider = ''stale-provider''"
| "SyntheticScenario_to_string Sc_GpuOnly = ''gpu-only''"
| "SyntheticScenario_to_string Sc_HostOnly = ''host-only''"
| "SyntheticScenario_to_string Sc_Simultaneous = ''simultaneous''"
| "SyntheticScenario_to_string Sc_PersistentTier = ''persistent-tier''"
| "SyntheticScenario_to_string Sc_PinnedExhaustion = ''pinned-exhaustion''"
| "SyntheticScenario_to_string Sc_MultiGpu = ''multi-gpu''"
| "SyntheticScenario_to_string Sc_OneRecovering = ''one-recovering''"
| "SyntheticScenario_to_string Sc_Custom = ''custom''"

record SyntheticDomainSpec =
  spec_id :: PressureDomainId
  spec_type :: DomainType
  spec_group :: string
  spec_provider :: string
  spec_native_resource_id :: string
  spec_total_capacity :: u64
  spec_phase :: double
  spec_base :: double
  spec_present :: bool

definition SyntheticDomainSpec_init :: SyntheticDomainSpec where
  "SyntheticDomainSpec_init = \<lparr>spec_id = DomainId 0 0, spec_type = DT_Unknown, spec_group = [], spec_provider = [],
     spec_native_resource_id = [], spec_total_capacity = 0, spec_phase = Fin 0, spec_base = fl (15/100), spec_present = True\<rparr>"

record SyntheticProvider =
  sp_domains :: "SyntheticDomainSpec list"
  sp_scenario :: SyntheticScenario
  sp_step_ms :: u64
  sp_failure_after_steps :: u64
  sp_tick :: u64

definition SyntheticProvider_new :: "SyntheticDomainSpec list \<Rightarrow> SyntheticScenario \<Rightarrow> u64 \<Rightarrow> u64 \<Rightarrow> SyntheticProvider" where
  "SyntheticProvider_new ds sc step fail = \<lparr>sp_domains = ds, sp_scenario = sc, sp_step_ms = step, sp_failure_after_steps = fail, sp_tick = 0\<rparr>"

definition synthetic_reset :: "SyntheticProvider \<Rightarrow> SyntheticProvider" where
  "synthetic_reset sp = sp\<lparr>sp_tick := 0\<rparr>"

section \<open>The curves\<close>

text \<open>\<open>std::abs\<close> and \<open>std::fmod\<close> of doubles; the remainder is exact.\<close>

fun dabs :: "double \<Rightarrow> double" where
  "dabs (Fin r) = Fin \<bar>r\<bar>"
| "dabs NegInf = PosInf"
| "dabs x = x"

fun dfmod :: "double \<Rightarrow> double \<Rightarrow> double" where
  "dfmod (Fin a) (Fin b) = (if b = 0 then NaN else Fin (a - b * of_int (rat_trunc (a / b))))"
| "dfmod (Fin a) PosInf = Fin a"
| "dfmod (Fin a) NegInf = Fin a"
| "dfmod x y = NaN"

definition group_hostlike :: "string \<Rightarrow> bool" where
  "group_hostlike g \<longleftrightarrow> g = ''host'' \<or> g = ''commit'' \<or> g = ''pinned'' \<or> g = ''shared''"

text \<open>\<open>std::min(1.0, static_cast<double>(tick) / d)\<close>.\<close>

definition ramp :: "u64 \<Rightarrow> double \<Rightarrow> double" where
  "ramp tick d = std_min (Fin 1) (ddiv (of_u64 tick) d)"

definition growth_curve :: "double \<Rightarrow> u64 \<Rightarrow> double" where
  "growth_curve p tick = clamp01 (dadd (fl (15/100)) (dmul (dmul (fl (85/100)) (ramp tick (Fin 50)))
     (dsub (Fin 1) (dmul (fl (30/100)) p))))"

definition sawtooth_curve :: "double \<Rightarrow> u64 \<Rightarrow> double" where
  "sawtooth_curve p tick =
    (let tt = dfmod (dadd (of_u64 tick) (dmul p (Fin 24))) (Fin 24);
         x = ddiv tt (Fin 24);
         lo = fl (25/100); hi = fl (98/100)
     in if dlt x (Fin (1/2)) then dadd lo (dmul (dsub hi lo) (dmul (Fin 2) x))
        else dsub hi (dmul (dsub hi lo) (dsub (dmul (Fin 2) x) (Fin 1))))"

definition primary_curve :: "SyntheticScenario \<Rightarrow> double \<Rightarrow> u64 \<Rightarrow> double" where
  "primary_curve sc phase tick =
    (let p = dfmod (dabs phase) (Fin 1) in
     case sc of
       Sc_GradualGrowth \<Rightarrow> growth_curve p tick
     | Sc_RapidSpike \<Rightarrow>
         if 6 \<le> tick then clamp01 (dadd (fl (95/100)) (dmul (fl (4/100)) p))
         else clamp01 (dadd (fl (20/100)) (dmul (fl (25/100)) p))
     | Sc_Sawtooth \<Rightarrow> sawtooth_curve p tick
     | Sc_SlowRecovery \<Rightarrow>
         if tick < 20 then clamp01 (dadd (fl (15/100)) (dmul (fl (82/100)) (ramp tick (Fin 20))))
         else clamp01 (dsub (fl (97/100)) (dmul (fl (82/100)) (ramp (tick - 20) (Fin 100))))
     | Sc_NoRecovery \<Rightarrow>
         if 18 \<le> tick then fl (98/100) else clamp01 (dadd (fl (15/100)) (dmul (fl (83/100)) (ramp tick (Fin 18))))
     | _ \<Rightarrow> growth_curve p tick)"

definition util_for :: "SyntheticDomainSpec \<Rightarrow> SyntheticScenario \<Rightarrow> u64 \<Rightarrow> double" where
  "util_for d sc tick =
    (let g = spec_group d; base = spec_base d; growth = (\<lambda>t. primary_curve Sc_GradualGrowth (spec_phase d) t) in
     case sc of
       Sc_GpuOnly \<Rightarrow> if g = ''gpu'' then growth tick else base
     | Sc_HostOnly \<Rightarrow> if group_hostlike g then growth tick else base
     | Sc_Simultaneous \<Rightarrow> if g = ''gpu'' then growth tick else if group_hostlike g then growth (tick + 10) else base
     | Sc_PersistentTier \<Rightarrow> if g = ''persistent'' then growth tick else base
     | Sc_PinnedExhaustion \<Rightarrow>
         if g = ''pinned'' then clamp01 (dadd (fl (5/100)) (dmul (fl (95/100)) (ramp tick (Fin 30)))) else base
     | Sc_MultiGpu \<Rightarrow>
         if g = ''gpu''
         then clamp01 (dadd base (dmul (dsub (fl (97/100)) base) (ramp tick (dadd (Fin 40) (dmul (Fin 15) (spec_phase d))))))
         else base
     | Sc_OneRecovering \<Rightarrow>
         if g = ''gpu0''
         then (if 15 \<le> tick then fl (97/100) else clamp01 (dadd (fl (20/100)) (dmul (fl (77/100)) (ramp tick (Fin 15)))))
         else if g = ''gpu1''
         then (if 20 \<le> tick then clamp01 (dsub (fl (97/100)) (dmul (fl (72/100)) (ramp (tick - 20) (Fin 60)))) else fl (97/100))
         else base
     | _ \<Rightarrow>
         if g \<noteq> [] \<and> (g = ''gpu'' \<or> group_hostlike g)
         then (if g = ''gpu'' then primary_curve sc (spec_phase d) tick
               else if sc = Sc_HostOnly \<or> sc = Sc_Simultaneous then primary_curve sc (spec_phase d) tick
               else if group_hostlike g \<and> sc \<noteq> Sc_GpuOnly then primary_curve sc (spec_phase d) tick else base)
         else base)"

section \<open>Sampling\<close>

definition synthetic_observation ::
    "SyntheticScenario \<Rightarrow> bool \<Rightarrow> u64 \<Rightarrow> u64 \<Rightarrow> SyntheticDomainSpec \<Rightarrow> DomainObservation option" where
  "synthetic_observation sc stale observed_at tick d =
    map_option (\<lambda>committed. DomainObservation_init\<lparr>
        obs_id := spec_id d, obs_type := spec_type d,
        obs_provider := (if spec_provider d = [] then ''synthetic'' else spec_provider d),
        obs_native_resource_id := spec_native_resource_id d, obs_total_capacity := spec_total_capacity d,
        obs_committed := committed, obs_resident := committed,
        obs_available := (if committed < spec_total_capacity d then spec_total_capacity d - committed else 0),
        obs_confidence := Conf_High, obs_provenance := Prov_SyntheticInput,
        obs_validity := (if stale then Val_Stale else Val_Valid), obs_observed_at_ms := observed_at,
        obs_detail := ''synthetic:'' @ SyntheticScenario_to_string sc\<rparr>)
      (to_u64 (dmul (of_u64 (spec_total_capacity d)) (util_for d sc tick)))"

definition synthetic_sample :: "u64 \<Rightarrow> SyntheticProvider \<Rightarrow> (ProviderSample \<times> SyntheticProvider) option" where
  "synthetic_sample now sp =
    (let tick = sp_tick sp; sc = sp_scenario sp; sp' = sp\<lparr>sp_tick := tick + 1\<rparr> in
     if sc = Sc_ProviderFailure \<and> sp_failure_after_steps sp \<le> tick
     then Some (\<lparr>sample_status = PS_Failed, sample_observations = [],
            sample_error = ''synthetic provider failure (scenario)'', sampled_at_ms = now\<rparr>, sp')
     else
       let stale = (sc = Sc_StaleProvider \<and> 3 \<le> tick);
           observed_at = (if stale then (if 600000 < now then now - 600000 else now) else now)
       in map_option (\<lambda>obs.
            (\<lparr>sample_status = (if stale then PS_Stale else PS_Healthy), sample_observations = obs,
              sample_error = (if stale then ''synthetic provider stale (scenario)'' else []), sampled_at_ms = now\<rparr>, sp'))
          (those (map (synthetic_observation sc stale observed_at tick) (filter spec_present (sp_domains sp)))))"

section \<open>The curves stay in the unit interval\<close>

lemma unit_fl: "0 \<le> x \<Longrightarrow> x \<le> 1 \<Longrightarrow> unit_double (fl x)"
  using fl_unit [of x] by (auto simp: unit_double_def)

lemma unit_mul: "unit_double a \<Longrightarrow> unit_double b \<Longrightarrow> unit_double (dmul a b)"
  by (auto simp: unit_double_def [of a] unit_double_def [of b] intro!: unit_fl mult_le_one)

lemma unit_complement: "unit_double a \<Longrightarrow> unit_double (dsub (Fin 1) a)"
  by (auto simp: unit_double_def [of a] dsub_def intro!: unit_fl)

lemma not_NaN_ops: "x \<noteq> NaN \<Longrightarrow> dadd (Fin a) x \<noteq> NaN" "x \<noteq> NaN \<Longrightarrow> dsub (Fin a) x \<noteq> NaN" "dmul (Fin a) (Fin b) \<noteq> NaN"
  by (cases x; simp add: dsub_def)+

lemma unit_clamp_add: assumes "unit_double a" "x \<noteq> NaN" shows "unit_double (clamp01 (dadd a x))"
  using assms clamp01_range not_NaN_ops(1) by (metis unit_double_def)

lemma unit_clamp_sub: assumes "unit_double a" "x \<noteq> NaN" shows "unit_double (clamp01 (dsub a x))"
  using assms clamp01_range not_NaN_ops(2) by (metis unit_double_def)

lemma unit_not_NaN: "unit_double a \<Longrightarrow> unit_double b \<Longrightarrow> dmul a b \<noteq> NaN"
  by (auto simp: unit_double_def not_NaN_ops)

lemma unit_rise: "unit_double a \<Longrightarrow> unit_double b \<Longrightarrow> unit_double x \<Longrightarrow> unit_double (clamp01 (dadd a (dmul b x)))"
  and unit_fall: "unit_double a \<Longrightarrow> unit_double b \<Longrightarrow> unit_double x \<Longrightarrow> unit_double (clamp01 (dsub a (dmul b x)))"
  by (simp_all add: unit_clamp_add unit_clamp_sub unit_not_NaN)

lemma unit_ramp: assumes "\<And>r. k = Fin r \<Longrightarrow> 0 \<le> r" shows "unit_double (ramp tick k)"
proof -
  have t: "0 \<le> rnd64 (u64_rat tick)" by (simp add: rnd64_nonneg)
  have cap: "unit_double (std_min (Fin 1) x)" if "dle (Fin 0) x \<or> x = NaN" for x
    using that by (cases x) (auto simp: std_min_def unit_double_def)
  show ?thesis
  proof (cases k)
    case (Fin r)
    then have "0 \<le> r" by (rule assms)
    then have "dle (Fin 0) (fl (rnd64 (u64_rat tick) / r))" using fl_mono [of 0 "rnd64 (u64_rat tick) / r"] t by simp
    moreover have "sgn (rnd64 (u64_rat tick)) \<ge> 0" using t by (simp add: sgn_if)
    ultimately show ?thesis unfolding ramp_def by (intro cap) (auto simp: Fin of_u64_Fin dinf_def)
  qed (auto simp: ramp_def of_u64_Fin intro!: cap)
qed

text \<open>The phase of the curves, a fraction.\<close>

lemma fmod_range: assumes "0 \<le> a" "0 < b" shows "\<exists>r. dfmod (Fin a) (Fin b) = Fin r \<and> 0 \<le> r \<and> r < b"
proof -
  have "0 \<le> a / b" using assms by simp
  then have n: "rat_trunc (a / b) = \<lfloor>a / b\<rfloor>" by (simp add: rat_trunc_def)
  have "of_int (rat_trunc (a / b)) * b \<le> a" "a < (of_int (rat_trunc (a / b)) + 1) * b"
    unfolding n using assms(2) floor_correct [of "a / b"] by (metis pos_le_divide_eq, metis pos_divide_less_eq of_int_add of_int_1)
  then show ?thesis using assms by (intro exI [of _ "a - b * of_int (rat_trunc (a / b))"]) (simp add: algebra_simps)
qed

lemma unit_phase: "isfinite phase \<Longrightarrow> unit_double (dfmod (dabs phase) (Fin 1))"
  using fmod_range [of "\<bar>r\<bar>" 1 for r] by (fastforce simp: isfinite_iff unit_double_def)

lemma unit_growth: "unit_double p \<Longrightarrow> unit_double (growth_curve p tick)"
  unfolding growth_curve_def by (intro unit_rise unit_mul unit_complement unit_ramp unit_fl) auto

lemma sawtooth_low: "fl (25/100) = Fin (1/4)"
  by code_simp

lemma sawtooth_high: "fl (98/100) = Fin (2206763817411543/2251799813685248)"
  by code_simp

lemma sawtooth_span: "dsub (Fin (2206763817411543/2251799813685248)) (Fin (1/4)) = Fin (1643813863990231/2251799813685248)"
  by code_simp

lemmas sawtooth_literals = sawtooth_low sawtooth_high sawtooth_span

lemma unit_sawtooth: assumes "unit_double p" shows "unit_double (sawtooth_curve p tick)"
proof -
  let ?c = "1643813863990231/2251799813685248 :: rat"
  obtain q where q: "p = Fin q" "0 \<le> q" "q \<le> 1" using assms by (auto simp: unit_double_def)
  have scale: "0 \<le> rnd64 (?c * u) \<and> rnd64 (?c * u) \<le> ?c \<and> dmul (Fin ?c) (Fin u) = Fin (rnd64 (?c * u))"
    if u: "0 \<le> u" "u \<le> 1" for u
  proof -
    have "rnd64 ?c = ?c" by code_simp
    moreover have "?c * u \<le> ?c * 1" using u(2) by (intro mult_left_mono) simp_all
    ultimately have "rnd64 (?c * u) \<le> ?c" using rnd64_mono [of "?c * u" ?c] by simp
    moreover have "?c * u \<le> 1" using u by linarith
    ultimately show ?thesis using u fl_unit [of "?c * u"] by simp
  qed
  obtain w where w: "dadd (of_u64 tick) (dmul p (Fin 24)) = Fin w" "0 \<le> w"
  proof -
    let ?t = "rnd64 (u64_rat tick)"
    have t: "0 \<le> ?t" "?t \<le> pow2 64" using rnd64_mono [OF u64_rat_bound [of tick]] by (simp_all add: rnd64_nonneg rnd64_pow2)
    have m: "0 \<le> rnd64 (q * 24)" "rnd64 (q * 24) \<le> 24"
      using q rnd64_mono [of "q * 24" 24] rnd64_int [of 24] by (simp_all add: rnd64_nonneg)
    have big: "pow2 64 + 24 \<le> pow2 1023" using pow2_mono [of 65 1023] by (simp add: pow2_nat)
    have "\<bar>q * 24\<bar> \<le> pow2 1023" using q big pow2_pos [of 64] by linarith
    then have "dmul p (Fin 24) = Fin (rnd64 (q * 24))" by (simp add: q(1) fl_Fin)
    moreover have "\<bar>?t + rnd64 (q * 24)\<bar> \<le> pow2 1023" using t m big by linarith
    ultimately have "dadd (of_u64 tick) (dmul p (Fin 24)) = Fin (rnd64 (?t + rnd64 (q * 24)))"
      by (simp add: of_u64_Fin fl_Fin)
    then show ?thesis using that t m by (simp add: rnd64_nonneg)
  qed
  obtain s where s: "dfmod (Fin w) (Fin 24) = Fin s" "0 \<le> s" "s < 24" using fmod_range [OF w(2)] by force
  obtain y where y: "ddiv (Fin s) (Fin 24) = Fin y" "0 \<le> y" "y \<le> 1" using unit_fl [of "s / 24"] s by (auto simp: unit_double_def)
  show ?thesis
  proof (cases "y < 1/2")
    case True
    then obtain u where "dmul (Fin 2) (Fin y) = Fin u" "0 \<le> u" "u \<le> 1" using unit_fl [of "2 * y"] y by (auto simp: unit_double_def)
    with True scale [of u] show ?thesis unfolding sawtooth_curve_def Let_def w(1) s(1) y(1) sawtooth_literals
      by (auto intro!: unit_fl)
  next
    case False
    have "\<bar>2 * y\<bar> \<le> pow2 1023" using y pow2_mono [of 1 1023] by simp
    then have "dmul (Fin 2) (Fin y) = Fin (rnd64 (2 * y))" using fl_Fin by simp
    moreover have "1 \<le> rnd64 (2 * y)" "rnd64 (2 * y) \<le> 2"
      using False y b64.ge_1 [of "2 * y"] rnd64_mono [of "2 * y" 2] rnd64_int [of 2] by simp_all
    moreover have "unit_double (dsub (Fin (rnd64 (2 * y))) (Fin 1))"
      using calculation by (auto simp: dsub_def intro!: unit_fl)
    ultimately obtain u where "dsub (dmul (Fin 2) (Fin y)) (Fin 1) = Fin u" "0 \<le> u" "u \<le> 1" by (auto simp: unit_double_def)
    with False scale [of u] show ?thesis unfolding sawtooth_curve_def Let_def w(1) s(1) y(1) sawtooth_literals
      by (auto simp: dsub_def intro!: unit_fl)
  qed
qed

lemma unit_primary: assumes "isfinite phase" shows "unit_double (primary_curve sc phase tick)"
proof -
  note p = unit_phase [OF assms]
  show ?thesis unfolding primary_curve_def Let_def
    by (cases sc) (auto intro!: unit_growth unit_sawtooth unit_rise unit_fall unit_ramp unit_fl p)
qed

lemma unit_util:
  assumes "isfinite (spec_phase d)" "dle (Fin 0) (spec_phase d)" "unit_double (spec_base d)"
  shows "unit_double (util_for d sc tick)"
proof -
  obtain q where q: "spec_phase d = Fin q" "0 \<le> q" using assms by (cases "spec_phase d") auto
  obtain b where b: "spec_base d = Fin b" using assms(3) by (auto simp: unit_double_def)
  have "0 \<le> r" if "dadd (Fin 40) (dmul (Fin 15) (spec_phase d)) = Fin r" for r
  proof -
    have "dle (Fin 0) (fl (15 * q))" using fl_mono [of 0 "15 * q"] q by simp
    then have "dle (Fin 0) (dadd (Fin 40) (fl (15 * q)))"
      using fl_mono [of 0 "40 + v" for v] by (cases "fl (15 * q)") auto
    then show ?thesis using that by (simp add: q(1))
  qed
  then have multi: "unit_double (clamp01 (dadd (spec_base d) (dmul (dsub (fl (97/100)) (spec_base d))
      (ramp tick (dadd (Fin 40) (dmul (Fin 15) (spec_phase d)))))))"
  proof -
    assume r: "\<And>r. dadd (Fin 40) (dmul (Fin 15) (spec_phase d)) = Fin r \<Longrightarrow> 0 \<le> r"
    have "fl (97/100) = Fin (4368491638549381/4503599627370496)" by code_simp
    then have "dsub (fl (97/100)) (Fin b) = fl (4368491638549381/4503599627370496 - b)" by (simp add: dsub_def)
    moreover have "\<bar>4368491638549381/4503599627370496 - b\<bar> \<le> pow2 1023"
      using assms(3) pow2_mono [of 0 1023] by (auto simp: b unit_double_def)
    ultimately obtain c where "dsub (fl (97/100)) (spec_base d) = Fin c" by (auto simp: b fl_Fin)
    moreover obtain x where "ramp tick (dadd (Fin 40) (dmul (Fin 15) (spec_phase d))) = Fin x"
      using unit_ramp [OF r] by (auto simp: unit_double_def)
    ultimately show ?thesis using assms(3) by (auto intro!: unit_clamp_add not_NaN_ops)
  qed
  show ?thesis unfolding util_for_def Let_def
    by (cases sc) (auto intro!: unit_primary unit_rise unit_fall unit_ramp unit_fl multi assms)
qed

section \<open>What a sample says\<close>

definition spec_ok :: "SyntheticDomainSpec \<Rightarrow> bool" where
  "spec_ok d \<longleftrightarrow> unat (spec_total_capacity d) \<le> 2 ^ 53 \<and> isfinite (spec_phase d) \<and> dle (Fin 0) (spec_phase d) \<and>
     unit_double (spec_base d)"

lemma committed_within:
  fixes w :: u64
  assumes "unat w \<le> 2 ^ 53" "unit_double u"
  shows "\<exists>c. to_u64 (dmul (of_u64 w) u) = Some c \<and> unat c \<le> unat w"
proof -
  obtain n where n: "unat w = n" by simp
  obtain x where x: "u = Fin x" "0 \<le> x" "x \<le> 1" using assms(2) by (auto simp: unit_double_def)
  have exact: "rnd64 (of_int (int n)) = of_int (int n)" using assms(1) unfolding n by (intro rnd64_int) simp
  then have w: "of_u64 w = Fin (of_nat n)" by (simp add: of_u64_Fin u64_rat_def n)
  have prod: "0 \<le> of_nat n * x" "of_nat n * x \<le> of_nat n" using x mult_left_mono [of x 1 "of_nat n"] by simp_all
  define r where "r = rnd64 (of_nat n * x)"
  have r: "0 \<le> r" "r \<le> of_nat n" using prod rnd64_mono [OF prod(2)] exact by (simp_all add: r_def rnd64_nonneg)
  have "int n \<le> 2 ^ 53" using assms(1) unfolding n by simp
  then have "(of_int (int n) :: rat) \<le> of_int (2 ^ 53)" by (simp only: of_int_le_iff)
  then have "(of_nat n :: rat) \<le> of_int (2 ^ 53)" by (simp only: of_int_of_nat_eq)
  also have "\<dots> \<le> pow2 1023" using pow2_mono [of 53 1023] by (simp add: pow2_nat)
  finally have "fl (of_nat n * x) = Fin r" using prod unfolding r_def by (intro fl_Fin) linarith
  moreover have f: "0 \<le> \<lfloor>r\<rfloor>" "\<lfloor>r\<rfloor> \<le> int n" using r by (simp_all add: floor_le_iff le_floor_iff)
  moreover have "\<lfloor>r\<rfloor> < 2 ^ 64" using f(2) assms(1) unfolding n by (simp del: floor_less_iff floor_less_numeral)
  ultimately have "to_u64 (dmul (of_u64 w) u) = Some (of_int \<lfloor>r\<rfloor>)" using r(1) by (simp add: w x(1) rat_trunc_def)
  moreover have "unat (of_int \<lfloor>r\<rfloor> :: u64) \<le> unat w"
  proof -
    have "(of_int \<lfloor>r\<rfloor> :: u64) = of_nat (nat \<lfloor>r\<rfloor>)" using f(1) by simp
    moreover have "nat \<lfloor>r\<rfloor> < 2 ^ 64" "nat \<lfloor>r\<rfloor> \<le> n" using f assms(1) unfolding n by simp_all
    ultimately show ?thesis using unat_of_nat [of "nat \<lfloor>r\<rfloor>", where 'a = 64] by (simp add: n)
  qed
  ultimately show ?thesis by blast
qed

text \<open>An observation of a well-formed domain accounts for all its bytes.\<close>

definition accounts :: "DomainObservation \<Rightarrow> bool" where
  "accounts ob \<longleftrightarrow> unat (obs_committed ob) + unat (obs_available ob) = unat (obs_total_capacity ob) \<and> obs_resident ob = obs_committed ob"

lemma accounts_split:
  fixes c t :: u64
  assumes "unat c \<le> unat t"
  shows "unat c + unat (if c < t then t - c else 0) = unat t"
proof (cases "c < t")
  case True
  then show ?thesis using assms by (simp add: unat_sub word_le_nat_alt)
next
  case False
  with assms have "c = t" by (simp add: word_less_nat_alt word_unat_eq_iff)
  then show ?thesis by simp
qed

lemma synthetic_observation_accounts:
  assumes "spec_ok d"
  shows "\<exists>ob. synthetic_observation sc stale now tick d = Some ob \<and> accounts ob \<and> obs_id ob = spec_id d \<and>
    obs_total_capacity ob = spec_total_capacity d \<and> obs_validity ob = (if stale then Val_Stale else Val_Valid) \<and> obs_observed_at_ms ob = now"
proof -
  obtain c where c: "to_u64 (dmul (of_u64 (spec_total_capacity d)) (util_for d sc tick)) = Some c" "unat c \<le> unat (spec_total_capacity d)"
    using assms committed_within unit_util by (metis spec_ok_def)
  then show ?thesis using accounts_split [OF c(2)] by (simp add: synthetic_observation_def accounts_def)
qed

text \<open>When the scenario says that the provider is down, or stale.\<close>

definition synthetic_down :: "SyntheticProvider \<Rightarrow> bool" where
  "synthetic_down sp \<longleftrightarrow> sp_scenario sp = Sc_ProviderFailure \<and> sp_failure_after_steps sp \<le> sp_tick sp"

definition synthetic_stale :: "SyntheticProvider \<Rightarrow> bool" where
  "synthetic_stale sp \<longleftrightarrow> sp_scenario sp = Sc_StaleProvider \<and> 3 \<le> sp_tick sp"

lemma those_map_Some: "(\<And>x. x \<in> set xs \<Longrightarrow> f x = Some (g x)) \<Longrightarrow> those (map f xs) = Some (map g xs)"
  by (induction xs) simp_all

lemma synthetic_sample_ok:
  assumes "list_all spec_ok (sp_domains sp)"
  shows "\<exists>s. synthetic_sample now sp = Some (s, sp\<lparr>sp_tick := sp_tick sp + 1\<rparr>) \<and> sampled_at_ms s = now \<and>
    sample_status s = (if synthetic_down sp then PS_Failed else if synthetic_stale sp then PS_Stale else PS_Healthy) \<and>
    map obs_id (sample_observations s) = (if synthetic_down sp then [] else map spec_id (filter spec_present (sp_domains sp))) \<and>
    list_all (\<lambda>ob. accounts ob \<and> obs_observed_at_ms ob \<le> now \<and>
      obs_validity ob = (if synthetic_stale sp then Val_Stale else Val_Valid)) (sample_observations s)"
proof (cases "synthetic_down sp")
  case True
  then show ?thesis by (simp add: synthetic_sample_def synthetic_down_def Let_def)
next
  case False
  let ?at = "if synthetic_stale sp then (if 600000 < now then now - 600000 else now) else now"
  let ?f = "synthetic_observation (sp_scenario sp) (synthetic_stale sp) ?at (sp_tick sp)"
  let ?ds = "filter spec_present (sp_domains sp)"
  have past: "?at \<le> now" by (simp add: word_sub_le)
  have ob: "?f d = Some (the (?f d)) \<and> accounts (the (?f d)) \<and> obs_id (the (?f d)) = spec_id d \<and>
      obs_validity (the (?f d)) = (if synthetic_stale sp then Val_Stale else Val_Valid) \<and> obs_observed_at_ms (the (?f d)) = ?at"
    if "d \<in> set ?ds" for d
    using that assms synthetic_observation_accounts [of d "sp_scenario sp" "synthetic_stale sp" ?at "sp_tick sp"]
    by (fastforce simp: list_all_iff)
  have "those (map ?f ?ds) = Some (map (\<lambda>d. the (?f d)) ?ds)" by (rule those_map_Some) (use ob in blast)
  moreover have "map obs_id (map (\<lambda>d. the (?f d)) ?ds) = map spec_id ?ds" using ob by simp
  moreover have "list_all (\<lambda>ob. accounts ob \<and> obs_observed_at_ms ob \<le> now \<and>
      obs_validity ob = (if synthetic_stale sp then Val_Stale else Val_Valid)) (map (\<lambda>d. the (?f d)) ?ds)"
    using ob past by (auto simp: list_all_iff)
  ultimately show ?thesis using False
    by (simp add: synthetic_sample_def synthetic_down_def synthetic_stale_def Let_def)
qed

text \<open>
  C33. The synthetic provider, for every scenario, time and number of steps: over domains of at most \<open>2^53\<close> bytes with a base in the
  unit interval and a finite nonnegative phase, a sample has no undefined cast and advances the tick by one. When the
  scenario is down the sample is a failure without observations; otherwise it reports exactly the present domains, in order,
  every observation has committed and available bytes that sum to its capacity, and it is stale, with an
  observation time that is not in the future, exactly when the sample is.
\<close>

theorem synthetic_accounts:
  assumes "list_all spec_ok (sp_domains sp)"
  shows "\<exists>s. synthetic_sample now sp = Some (s, sp\<lparr>sp_tick := sp_tick sp + 1\<rparr>) \<and> sampled_at_ms s = now \<and>
    sample_status s = (if synthetic_down sp then PS_Failed else if synthetic_stale sp then PS_Stale else PS_Healthy) \<and>
    map obs_id (sample_observations s) = (if synthetic_down sp then [] else map spec_id (filter spec_present (sp_domains sp))) \<and>
    list_all (\<lambda>ob. accounts ob \<and> obs_observed_at_ms ob \<le> now \<and>
      obs_validity ob = (if synthetic_stale sp then Val_Stale else Val_Valid)) (sample_observations s)"
  using assms by (rule synthetic_sample_ok)

definition sample_spec :: SyntheticDomainSpec where
  "sample_spec = SyntheticDomainSpec_init\<lparr>spec_group := ''gpu'', spec_total_capacity := 1000\<rparr>"

lemma synthetic_accounts_witness:
  "\<exists>s. synthetic_sample 5 (SyntheticProvider_new [sample_spec] Sc_Sawtooth 100 4) =
    Some (s, (SyntheticProvider_new [sample_spec] Sc_Sawtooth 100 4)\<lparr>sp_tick := 1\<rparr>)"
proof -
  have "list_all spec_ok (sp_domains (SyntheticProvider_new [sample_spec] Sc_Sawtooth 100 4))"
    by (simp add: spec_ok_def sample_spec_def SyntheticProvider_new_def SyntheticDomainSpec_init_def unit_fl)
  from synthetic_accounts [OF this, of 5] show ?thesis by (auto simp: SyntheticProvider_new_def)
qed

text \<open>The bound on the capacity is needed: the largest capacity at full utilization is cast out of range.\<close>

lemma growth_base: "fl (15/100) = Fin (5404319552844595/36028797018963968)"
  by code_simp

lemma growth_slope: "fl (85/100) = Fin (7656119366529843/9007199254740992)"
  by code_simp

lemma growth_exact: "fl (7656119366529843/9007199254740992) = Fin (7656119366529843/9007199254740992)"
  by code_simp

lemma growth_top: "fl (5404319552844595/36028797018963968 + 7656119366529843/9007199254740992) = Fin 1"
  by code_simp

lemma u64_top: "rnd64 18446744073709551615 = 18446744073709551616"
  by code_simp

lemma growth_curve_full: "growth_curve (Fin 0) 50 = Fin 1"
proof -
  have "ramp 50 (Fin 50) = Fin 1"
    using rnd64_int [of 50] by (simp add: ramp_def of_u64_Fin u64_rat_def std_min_def)
  moreover have "dmul (fl (30/100)) (Fin 0) = Fin 0" using unit_fl [of "30/100"] by (auto simp: unit_double_def)
  moreover note growth_exact
  ultimately show ?thesis
    unfolding growth_curve_def growth_slope by (simp add: dsub_def growth_base [simplified] growth_top [simplified] clamp01_def)
qed

lemma synthetic_cast_overflow:
  "synthetic_observation Sc_GradualGrowth False 0 50 (sample_spec\<lparr>spec_total_capacity := - 1\<rparr>) = None"
proof -
  have "dfmod (dabs (Fin 0)) (Fin 1) = Fin 0" by (simp add: rat_trunc_def)
  then have "util_for (sample_spec\<lparr>spec_total_capacity := - 1\<rparr>) Sc_GradualGrowth 50 = Fin 1"
    by (simp add: util_for_def primary_curve_def sample_spec_def SyntheticDomainSpec_init_def growth_curve_full)
  moreover have "of_u64 (- 1) = Fin 18446744073709551616"
    by (simp add: of_u64_Fin u64_rat_def unsigned_minus_1_eq_mask mask_eq_exp_minus_1 u64_top)
  moreover have "fl 18446744073709551616 = Fin 18446744073709551616"
    using rnd64_pow2 [of 64] fl_Fin [of "pow2 64"] pow2_mono [of 64 1023] by (simp add: pow2_nat)
  ultimately show ?thesis by (simp add: synthetic_observation_def rat_trunc_def)
qed

end
