(* ===== verification/HostProviders.thy ===== *)
theory HostProviders imports Runtime begin

text \<open>
  The providers that read the machine: providers/storage.cpp, windows.cpp and cuda.cpp. What the operating system and the
  CUDA libraries answer is a parameter: a missing function pointer or a failed call is \<open>None\<close>, and a build
  for another platform than Windows has no interface at all.
\<close>

section \<open>Storage\<close>

record StorageProvider =
  stp_path :: string
  stp_type :: DomainType
  stp_resource_id :: string

text \<open>\<open>GetDiskFreeSpaceExW\<close>: the total and the free bytes of the volume of a path.\<close>

type_synonym disk_space = "string \<Rightarrow> (u64 \<times> u64) option"

definition unavailable_sample :: "u64 \<Rightarrow> string \<Rightarrow> ProviderSample" where
  "unavailable_sample now err = \<lparr>sample_status = PS_Unavailable, sample_observations = [], sample_error = err, sampled_at_ms = now\<rparr>"

definition storage_observation :: "u64 \<Rightarrow> StorageProvider \<Rightarrow> u64 \<Rightarrow> u64 \<Rightarrow> DomainObservation" where
  "storage_observation now sp totalBytes freeBytes =
    (let committed = (if freeBytes \<le> totalBytes then totalBytes - freeBytes else 0) in
     DomainObservation_init\<lparr>obs_id := DomainId 0x73746F72 (fnv1a (''storage::'' @ stp_path sp)), obs_type := stp_type sp,
       obs_provider := ''storage'', obs_native_resource_id := stp_resource_id sp, obs_total_capacity := totalBytes,
       obs_committed := committed, obs_resident := committed, obs_available := freeBytes, obs_confidence := Conf_High,
       obs_provenance := Prov_Filesystem, obs_validity := Val_Valid, obs_observed_at_ms := now,
       obs_detail := ''path='' @ stp_path sp\<rparr>)"

definition storage_sample :: "disk_space option \<Rightarrow> u64 \<Rightarrow> StorageProvider \<Rightarrow> ProviderSample" where
  "storage_sample api now sp =
    (case api of None \<Rightarrow> unavailable_sample now ''storage provider unimplemented on this platform''
     | Some space \<Rightarrow>
       (case space (stp_path sp) of None \<Rightarrow> unavailable_sample now ''GetDiskFreeSpaceExW failed''
        | Some (totalBytes, freeBytes) \<Rightarrow>
            \<lparr>sample_status = PS_Healthy, sample_observations = [storage_observation now sp totalBytes freeBytes],
             sample_error = [], sampled_at_ms = now\<rparr>))"

section \<open>Windows\<close>

text \<open>The fields that are read of the structures that the three system calls fill.\<close>

record MemoryStatus =
  dwMemoryLoad :: u32
  ullTotalPhys :: u64
  ullAvailPhys :: u64

record PerformanceInformation =
  PageSize :: u64
  CommitLimit :: u64
  CommitTotal :: u64

record ProcessMemoryCounters =
  PrivateUsage :: u64
  WorkingSetSize :: u64

record WindowsApi =
  GlobalMemoryStatusEx :: "MemoryStatus option"
  GetPerformanceInfo :: "PerformanceInformation option"
  GetProcessMemoryInfo :: "ProcessMemoryCounters option"

definition make_id :: "string \<Rightarrow> PressureDomainId" where
  "make_id tag = DomainId 0x77696E64 (fnv1a (''windows::'' @ tag))"

definition host_observation :: "u64 \<Rightarrow> MemoryStatus \<Rightarrow> DomainObservation" where
  "host_observation now msx = DomainObservation_init\<lparr>
     obs_id := make_id ''host-memory'', obs_type := DT_HostMemory, obs_provider := ''windows'',
     obs_native_resource_id := ''physical-ram'', obs_total_capacity := ullTotalPhys msx,
     obs_committed := ullTotalPhys msx - ullAvailPhys msx, obs_resident := ullTotalPhys msx - ullAvailPhys msx,
     obs_available := ullAvailPhys msx, obs_confidence := Conf_Authoritative,
     obs_provenance := Prov_WindowsGlobalMemoryStatusEx, obs_validity := Val_Valid, obs_observed_at_ms := now,
     obs_detail := ''GlobalMemoryStatusEx dwMemoryLoad='' @ dec (unat (dwMemoryLoad msx)) @ ''%''\<rparr>"

definition system_commit_observation :: "u64 \<Rightarrow> u64 \<Rightarrow> u64 \<Rightarrow> DomainObservation" where
  "system_commit_observation now commitLimit commitTotal = DomainObservation_init\<lparr>
     obs_id := make_id ''system-commit'', obs_type := DT_SystemCommit, obs_provider := ''windows'',
     obs_native_resource_id := ''system-commit'', obs_total_capacity := commitLimit,
     obs_committed := commitTotal, obs_resident := commitTotal,
     obs_available := (if commitTotal \<le> commitLimit then commitLimit - commitTotal else 0),
     obs_confidence := Conf_Authoritative, obs_provenance := Prov_WindowsPerformanceInfo, obs_validity := Val_Valid,
     obs_observed_at_ms := now, obs_detail := ''GetPerformanceInfo''\<rparr>"

definition process_commit_observation :: "u64 \<Rightarrow> u64 \<Rightarrow> u64 \<Rightarrow> ProcessMemoryCounters \<Rightarrow> DomainObservation" where
  "process_commit_observation now commitLimit commitTotal pmc = DomainObservation_init\<lparr>
     obs_id := make_id ''process-commit'', obs_type := DT_ProcessCommit, obs_provider := ''windows'',
     obs_native_resource_id := ''current-process-commit'', obs_total_capacity := commitLimit,
     obs_committed := PrivateUsage pmc, obs_resident := WorkingSetSize pmc,
     obs_available := (if commitTotal \<le> commitLimit then commitLimit - commitTotal else 0),
     obs_confidence := Conf_High, obs_provenance := Prov_WindowsProcessMemoryInfo, obs_validity := Val_Valid,
     obs_observed_at_ms := now,
     obs_detail := ''PrivateUsage='' @ u64_to_string (PrivateUsage pmc) @ '' WorkingSet='' @ u64_to_string (WorkingSetSize pmc)\<rparr>"

definition windows_sample :: "WindowsApi option \<Rightarrow> u64 \<Rightarrow> ProviderSample" where
  "windows_sample api now =
    (case api of None \<Rightarrow> unavailable_sample now ''Windows host provider unavailable on non-Windows platform''
     | Some w \<Rightarrow>
       (case GlobalMemoryStatusEx w of
          None \<Rightarrow> \<lparr>sample_status = PS_Failed, sample_observations = [], sample_error = ''GlobalMemoryStatusEx failed'', sampled_at_ms = now\<rparr>
        | Some msx \<Rightarrow>
          (case GetPerformanceInfo w of
             None \<Rightarrow> \<lparr>sample_status = PS_Partial, sample_observations = [host_observation now msx],
               sample_error = ''GetPerformanceInfo failed; only physical RAM reported'', sampled_at_ms = now\<rparr>
           | Some perf \<Rightarrow>
               let limit = CommitLimit perf * PageSize perf; used = CommitTotal perf * PageSize perf in
               \<lparr>sample_status = PS_Healthy,
                sample_observations = [host_observation now msx, system_commit_observation now limit used] @
                  (case GetProcessMemoryInfo w of None \<Rightarrow> [] | Some pmc \<Rightarrow> [process_commit_observation now limit used pmc]),
                sample_error = [], sampled_at_ms = now\<rparr>)))"

section \<open>CUDA\<close>

text \<open>
  The functions that the provider loads; \<open>None\<close> is a symbol that was not found. A count or a success is the value that the call
  leaves with return code 0, and \<open>None\<close> another code; \<open>cuDeviceGet\<close> and \<open>cuDeviceGetName\<close> are called for their output
  whatever their code: the handle variable starts as the ordinal, the name buffer as zeros.
\<close>

record CudaApi =
  ca_cudart :: bool
  cudaSetDeviceFn :: "(int \<Rightarrow> bool) option"
  cudaGetDeviceCountFn :: "int option option"
  cudaMemGetInfoFn :: "(int \<Rightarrow> (u64 \<times> u64) option) option"
  cudaMallocFn :: "(int \<Rightarrow> u64 \<Rightarrow> nat option) option"
  cudaFreeFn :: "(nat \<Rightarrow> bool) option"
  ca_nvcuda :: bool
  cuInitFn :: "bool option"
  cuDeviceGetCountFn :: "int option option"
  cuDeviceGetFn :: "(int \<Rightarrow> int) option"
  cuDeviceGetNameFn :: "(int \<Rightarrow> string) option"
  cuDeviceGetUuidFn :: "(int \<Rightarrow> 8 word list option) option"

record CudaDeviceProvider =
  cp_api :: CudaApi
  cp_loaded :: bool
  cp_cuda_available :: bool
  cp_device_count :: int
  cp_probes_enabled :: bool

definition runtime_count :: "CudaApi \<Rightarrow> int option" where
  "runtime_count a = (if ca_cudart a
     then (case cudaGetDeviceCountFn a of Some (Some n) \<Rightarrow> if 0 < n then Some n else None | _ \<Rightarrow> None) else None)"

definition driver_count :: "CudaApi \<Rightarrow> int option" where
  "driver_count a = (if ca_nvcuda a \<and> cuInitFn a = Some True
     then (case cuDeviceGetCountFn a of Some (Some n) \<Rightarrow> if 0 < n then Some n else None | _ \<Rightarrow> None) else None)"

text \<open>The constructor: the count of the driver, when there is one, replaces that of the runtime.\<close>

definition CudaDeviceProvider_new :: "CudaApi \<Rightarrow> bool \<Rightarrow> CudaDeviceProvider" where
  "CudaDeviceProvider_new a enable_probes =
    (let n = (case driver_count a of Some n \<Rightarrow> Some n | None \<Rightarrow> runtime_count a)
     in \<lparr>cp_api = a, cp_loaded = (n \<noteq> None), cp_cuda_available = (n \<noteq> None),
         cp_device_count = (case n of None \<Rightarrow> 0 | Some k \<Rightarrow> k), cp_probes_enabled = enable_probes\<rparr>)"

definition uuid_half :: "8 word list \<Rightarrow> u64" where
  "uuid_half bs = fold (\<lambda>b h. push_bit 8 h OR ucast b) bs 0"

definition device_domain_id :: "8 word list option \<Rightarrow> string \<Rightarrow> nat \<Rightarrow> PressureDomainId" where
  "device_domain_id uuid name ordinal =
    (case uuid of Some u \<Rightarrow> DomainId (uuid_half (take 8 u)) (uuid_half (take 8 (drop 8 u)))
     | None \<Rightarrow> DomainId 0x63756461 (fnv1a (name @ ''#'' @ dec ordinal)))"

definition uuid_hex :: "8 word list option \<Rightarrow> string" where
  "uuid_hex uuid = (case uuid of None \<Rightarrow> []
     | Some u \<Rightarrow> concat (map (\<lambda>b. [hex_digit (unat (take_bit 4 (drop_bit 4 b))), hex_digit (unat (take_bit 4 b))]) (take 16 u)))"

definition device_memory :: "CudaApi \<Rightarrow> int \<Rightarrow> (u64 \<times> u64) option" where
  "device_memory a i = (if ca_cudart a
     then (case cudaSetDeviceFn a of None \<Rightarrow> None
       | Some set_device \<Rightarrow> if set_device i then (case cudaMemGetInfoFn a of None \<Rightarrow> None | Some info \<Rightarrow> info i) else None)
     else None)"

definition device_observation :: "CudaApi \<Rightarrow> u64 \<Rightarrow> nat \<Rightarrow> DomainObservation" where
  "device_observation a now i =
    (let handle = (case cuDeviceGetFn a of None \<Rightarrow> int i | Some get \<Rightarrow> get (int i));
         name = (case cuDeviceGetNameFn a of None \<Rightarrow> [] | Some get \<Rightarrow> get handle);
         uuid = (case cuDeviceGetUuidFn a of None \<Rightarrow> None | Some get \<Rightarrow> get handle);
         o1 = DomainObservation_init\<lparr>obs_id := device_domain_id uuid name i, obs_type := DT_AcceleratorMemory,
           obs_provider := ''cuda.driver'', obs_native_resource_id := uuid_hex uuid @ ''|'' @ name,
           obs_provenance := Prov_CudaRuntimeApi, obs_observed_at_ms := now\<rparr>
     in case device_memory a (int i) of
       Some (freeMem, totalMem) \<Rightarrow>
         let committed = (if freeMem < totalMem then totalMem - freeMem else 0) in
         o1\<lparr>obs_total_capacity := totalMem, obs_committed := committed, obs_resident := committed,
           obs_available := freeMem, obs_confidence := Conf_High, obs_validity := Val_Valid,
           obs_detail := ''device='' @ name @ '' ordinal='' @ dec i @ '' total='' @ u64_to_string totalMem @
             '' free='' @ u64_to_string freeMem @ '' via=cudaMemGetInfo(runtime)''\<rparr>
     | None \<Rightarrow>
         o1\<lparr>obs_confidence := Conf_Unknown, obs_validity := Val_Failed,
           obs_detail := ''cudaMemGetInfo failed for device '' @ dec i\<rparr>)"

definition cuda_sample :: "u64 \<Rightarrow> CudaDeviceProvider \<Rightarrow> ProviderSample" where
  "cuda_sample now cp =
    (if \<not> cp_loaded cp then unavailable_sample now ''CUDA runtime/driver not available''
     else let devices = [0..<nat (cp_device_count cp)] in
       \<lparr>sample_status = (if list_all (\<lambda>i. device_memory (cp_api cp) (int i) \<noteq> None) devices then PS_Healthy else PS_Partial),
        sample_observations = map (device_observation (cp_api cp) now) devices, sample_error = [], sampled_at_ms = now\<rparr>)"

definition probe_device :: "CudaDeviceProvider \<Rightarrow> int \<Rightarrow> u64 \<Rightarrow> bool" where
  "probe_device cp ordinal bytes =
    (let a = cp_api cp in
     if \<not> cp_loaded cp \<or> \<not> ca_cudart a then False
     else if ordinal < 0 \<or> cp_device_count cp \<le> ordinal then False
     else if (case cudaSetDeviceFn a of None \<Rightarrow> False | Some set_device \<Rightarrow> \<not> set_device ordinal) then False
     else case cudaMallocFn a of None \<Rightarrow> False
       | Some malloc \<Rightarrow>
         (case malloc ordinal bytes of None \<Rightarrow> False
          | Some ptr \<Rightarrow> (case cudaFreeFn a of None \<Rightarrow> False | Some free \<Rightarrow> free ptr)))"

section \<open>Identities\<close>

lemma uuid_half_snoc: "uuid_half (bs @ [b]) = push_bit 8 (uuid_half bs) OR ucast b"
  by (simp add: uuid_half_def)

lemma uuid_half_bound: "length bs \<le> 8 \<Longrightarrow> take_bit (8 * length bs) (uuid_half bs) = uuid_half bs"
proof (induction bs rule: rev_induct)
  case (snoc b bs)
  then have IH: "bit (uuid_half bs) n \<Longrightarrow> n < 8 * length bs" for n by (metis bit_take_bit_iff Suc_leD length_append_singleton)
  show ?case by (rule bit_eqI) (auto simp: uuid_half_snoc bit_simps dest: IH bit_imp_le_length)
qed (simp add: uuid_half_def)

lemma hex_uuid_half: "length bs \<le> 8 \<Longrightarrow> hex_digits (2 * length bs) (uuid_half bs) = uuid_hex (Some bs)"
proof (induction bs rule: rev_induct)
  case (snoc b bs)
  have low: "bit (uuid_half bs) n \<Longrightarrow> n < 8 * length bs" for n
    using uuid_half_bound [of bs] snoc.prems by (metis bit_take_bit_iff Suc_leD length_append_singleton)
  have "drop_bit 4 (drop_bit 4 (uuid_half (bs @ [b]))) = uuid_half bs"
    using snoc.prems by (intro bit_word_eqI) (auto simp: uuid_half_snoc bit_simps dest: low bit_imp_le_length)
  moreover have "take_bit 4 (uuid_half (bs @ [b])) = ucast (take_bit 4 b)"
    by (rule bit_word_eqI) (auto simp: uuid_half_snoc bit_simps)
  moreover have "take_bit 4 (drop_bit 4 (uuid_half (bs @ [b]))) = ucast (take_bit 4 (drop_bit 4 b))"
    by (rule bit_word_eqI) (auto simp: uuid_half_snoc bit_simps)
  moreover have "unat (ucast (x :: 8 word) :: u64) = unat x" for x
    using unsigned_less [of x, where 'a = nat] by (simp add: unsigned_ucast_eq take_bit_nat_eq_self)
  ultimately show ?case using snoc by (simp add: uuid_hex_def)
qed (simp add: uuid_half_def uuid_hex_def)

text \<open>
  The identity of an accelerator is its UUID: for a device whose 16 bytes are known, the hexadecimal form of the identity is
  the text that the observation carries as native resource, and the parser of identities reads that text back to the identity. So
  two devices with different UUIDs never share an identity, whatever their names and ordinals.
\<close>

lemma device_identity:
  assumes "length u = 16"
  shows "to_hex (device_domain_id (Some u) name i) = uuid_hex (Some u) \<and>
    from_hex (uuid_hex (Some u)) = Some (device_domain_id (Some u) name i)"
proof -
  have halves: "take 16 u = take 8 u @ take 8 (drop 8 u)" using take_add [of 8 8 u] by simp
  have "hex_digits 16 (uuid_half (take 8 u)) = uuid_hex (Some (take 8 u))"
    "hex_digits 16 (uuid_half (take 8 (drop 8 u))) = uuid_hex (Some (take 8 (drop 8 u)))"
    using hex_uuid_half [of "take 8 u"] hex_uuid_half [of "take 8 (drop 8 u)"] assms by simp_all
  then have "to_hex (device_domain_id (Some u) name i) = uuid_hex (Some (take 8 u)) @ uuid_hex (Some (take 8 (drop 8 u)))"
    by (simp add: to_hex_def device_domain_id_def)
  also have "\<dots> = uuid_hex (Some u)" unfolding uuid_hex_def option.case halves by simp
  finally show ?thesis using from_to_hex by metis
qed

lemma device_identity_witness: "from_hex ''000102030405060708090a0b0c0d0e0f'' = Some (device_domain_id (Some [0,1,2,3,4,5,6,7,8,9,10,11,12,13,14,15]) ''A'' 0)"
proof -
  have "uuid_hex (Some [0,1,2,3,4,5,6,7,8,9,10,11,12,13,14,15]) = ''000102030405060708090a0b0c0d0e0f''" by code_simp
  then show ?thesis using device_identity [of "[0,1,2,3,4,5,6,7,8,9,10,11,12,13,14,15]" "''A''" 0] by simp
qed

section \<open>Accounting\<close>

text \<open>What the system calls promise: free memory within the total.\<close>

definition accounted :: "DomainObservation \<Rightarrow> bool" where
  "accounted ob \<longleftrightarrow> unat (obs_committed ob) + unat (obs_available ob) = unat (obs_total_capacity ob)"

lemma unat_split: "(b :: u64) \<le> a \<Longrightarrow> unat (a - b) + unat b = unat a"
  by (simp add: unat_sub word_le_nat_alt)

lemma storage_accounts: "free \<le> cap \<Longrightarrow> accounted (storage_observation now sp cap free)"
  by (simp add: storage_observation_def accounted_def unat_split Let_def)

lemma host_accounts: "ullAvailPhys msx \<le> ullTotalPhys msx \<Longrightarrow> accounted (host_observation now msx)"
  by (simp add: host_observation_def accounted_def unat_split)

lemma system_commit_accounts: "used \<le> limit \<Longrightarrow> accounted (system_commit_observation now limit used)"
  using unat_split [of used limit] by (simp add: system_commit_observation_def accounted_def)

lemma device_accounts:
  assumes "device_memory a (int i) = Some (free, cap)" "free \<le> cap"
  shows "accounted (device_observation a now i)"
proof (cases "free < cap")
  case True
  then show ?thesis using assms by (simp add: device_observation_def accounted_def Let_def unat_split)
next
  case False
  then have "free = cap" using assms(2) by simp
  then show ?thesis using assms(1) by (simp add: device_observation_def accounted_def Let_def)
qed

text \<open>The flag that is said to enable the probes is never read.\<close>

lemma probes_flag_ignored: "probe_device (cp\<lparr>cp_probes_enabled := b\<rparr>) ordinal bytes = probe_device cp ordinal bytes"
  by (simp add: probe_device_def)

text \<open>The status of a sample, on every path.\<close>

lemma cuda_sample_status:
  "sample_status (cuda_sample now cp) = PS_Healthy \<longleftrightarrow>
    cp_loaded cp \<and> (\<forall>i < nat (cp_device_count cp). device_memory (cp_api cp) (int i) \<noteq> None)"
  by (auto simp: cuda_sample_def unavailable_sample_def Let_def list_all_iff)

lemma windows_sample_status:
  "sample_status (windows_sample api now) = PS_Healthy \<longleftrightarrow>
    (\<exists>w. api = Some w \<and> GlobalMemoryStatusEx w \<noteq> None \<and> GetPerformanceInfo w \<noteq> None)"
  by (auto simp: windows_sample_def unavailable_sample_def Let_def split: option.split)

end
