(* ===== verification/CommandLine.thy ===== *)
theory CommandLine imports CommandText Synthetic HostProviders SnapshotJson begin

text \<open>
  cli/main.cpp, one definition per command: what it writes to the two streams and its exit code, over what the machine
  answers. \<open>None\<close> is undefined behaviour: an option without its value, or a JSON number that the serializer cannot cast.
\<close>

section \<open>The machine and the outcome\<close>

text \<open>
  What the operating system and the CUDA functions answer at a time in milliseconds, the orders of hash tables, and the measured
  microseconds: by time of the refresh, and of the loop of the benchmark.
\<close>

record Machine =
  m_windows :: "u64 \<Rightarrow> WindowsApi option"
  m_disk :: "u64 \<Rightarrow> disk_space option"
  m_cuda :: "u64 \<Rightarrow> CudaApi"
  m_order :: "PressureDomainId list"
  m_latency_us :: "u64 \<Rightarrow> u64"
  m_elapsed_us :: u64

record Outcome =
  oc_out :: string
  oc_err :: string
  oc_code :: int

definition success :: "string \<Rightarrow> Outcome" where
  "success s = \<lparr>oc_out = s, oc_err = [], oc_code = 0\<rparr>"

definition failure :: "string \<Rightarrow> Outcome" where
  "failure msg = \<lparr>oc_out = [], oc_err = msg @ endl, oc_code = 1\<rparr>"

text \<open>version.h; the string repeats the three numbers.\<close>

definition version_major :: i32 where
  "version_major = 1"

definition version_minor :: i32 where
  "version_minor = 0"

definition version_patch :: i32 where
  "version_patch = 0"

definition version_string :: string where
  "version_string = ''1.0.0''"

definition usage :: string where
  "usage = lines_of id
    [''memory-pressure - Memory Pressure '' @ version_string,
     ''usage: memory-pressure <command> [options]'',
     ''commands:'',
     ''  info                    show version and detected platform/capabilities'',
     ''  observe                 sample providers and print raw observations'',
     ''  domains                 refresh and list pressure domains'',
     ''  status [--json]         refresh and print current pressure status'',
     ''  snapshot [--json]       refresh and print the latest snapshot'',
     ''  watch [--steps N] [--interval-ms M]  bounded periodic refresh display'',
     ''  budget --domain <id> --hard B [--emergency B]  set a governed budget'',
     ''  policy                  show the active policy'',
     ''  pressure                show pressure levels'',
     ''  admit --domain <id> --bytes N  show an admission hint'',
     ''  explain --domain <id>   show a structured explanation'',
     ''  simulate --scenario <name> [--steps N]  run a synthetic scenario'',
     ''  events [--json]         collect and print events from a refresh'',
     ''  stats [--json]          show runtime telemetry'',
     ''  selftest                run built-in self-checks'',
     ''  benchmark               run micro-benchmarks'']"

definition print_domain_state :: "DomainState \<Rightarrow> string" where
  "print_domain_state d =
    to_hex (ds_id d) @ '' '' @ DomainType_to_string (ds_type d) @ '' level='' @ PressureLevel_to_string (ds_level d) @
    '' prev='' @ PressureLevel_to_string (ds_previous_level d) @ '' util='' @ ostream_double (ds_utilization d) @
    '' avail='' @ human_bytes (ds_available d) @ '' score='' @ ostream_double (ds_score d) @
    '' trend='' @ TrendDirection_to_string (ds_trend d) @ '' ts='' @ u64_to_string (ds_timestamp_ms d)"

section \<open>The providers of the machine\<close>

definition register_windows_cuda :: "PressureRuntime \<Rightarrow> PressureRuntime" where
  "register_windows_cuda rt = register_provider (Some ''cuda.driver'') (register_provider (Some ''windows'') rt)"

text \<open>The CUDA provider is constructed once, before the first sample.\<close>

definition cuda_provider :: "Machine \<Rightarrow> u64 \<Rightarrow> CudaDeviceProvider" where
  "cuda_provider m now = (CudaDeviceProvider_new (m_cuda m 0) False)\<lparr>cp_api := m_cuda m now\<rparr>"

definition current_directory :: StorageProvider where
  "current_directory = \<lparr>stp_path = ''.'', stp_type = DT_PersistentStorageCapacity, stp_resource_id = ''filesystem''\<rparr>"

definition machine_sample :: "Machine \<Rightarrow> u64 \<Rightarrow> string \<Rightarrow> ProviderSample" where
  "machine_sample m now name =
    (if name = ''windows'' then windows_sample (m_windows m now) now
     else if name = ''storage'' then storage_sample (m_disk m now) now current_directory
     else cuda_sample now (cuda_provider m now))"

definition machine_world :: "Machine \<Rightarrow> u64 \<Rightarrow> World" where
  "machine_world m now = \<lparr>w_order = m_order m, w_sample = (\<lambda>name. Inr (machine_sample m now name)), w_latency_us = m_latency_us m now\<rparr>"

text \<open>The static clock of \<open>refresh_all\<close> is threaded; it starts at 1000000.\<close>

definition refresh_all :: "Machine \<Rightarrow> u64 \<times> PressureRuntime \<Rightarrow> (Snapshot \<times> u64 \<times> PressureRuntime) option" where
  "refresh_all m = (\<lambda>(now, rt).
    (let now = now + 100 in map_option (\<lambda>(calls, snap, rt'). (snap, now, rt')) (refresh (machine_world m now) now rt)))"

definition first_refresh :: "Machine \<Rightarrow> PressureRuntime \<Rightarrow> (Snapshot \<times> PressureRuntime) option" where
  "first_refresh m rt = map_option (\<lambda>(snap, now, rt'). (snap, rt')) (refresh_all m (1000000, rt))"

definition json_flag :: "string list \<Rightarrow> bool" where
  "json_flag as = (case as of [] \<Rightarrow> False | a # _ \<Rightarrow> a = ''--json'')"

section \<open>Commands that show the machine\<close>

definition info_command :: "Machine \<Rightarrow> Outcome" where
  "info_command m =
    (let h = windows_sample (m_windows m 0) 0; cuda = cuda_provider m 0 in
     success (lines_of id [''Memory Pressure '' @ version_string, ''Platform: Windows (native)''] @
       lines_of (\<lambda>ob. ''  '' @ DomainType_to_string (obs_type ob) @ '': total='' @ human_bytes (obs_total_capacity ob) @
         '' committed='' @ human_bytes (obs_committed ob) @ '' available='' @ human_bytes (obs_available ob) @
         '' provenance='' @ Provenance_to_string (obs_provenance ob)) (sample_observations h) @
       ''CUDA: '' @ (if cp_loaded cuda then ''supported'' else ''not supported'') @
         '' devices='' @ int_to_chars (cp_device_count cuda) @ endl @
       (if cp_loaded cuda
        then lines_of (\<lambda>ob. ''  '' @ DomainType_to_string (obs_type ob) @ '' ('' @ obs_native_resource_id ob @ ''): total='' @
          human_bytes (obs_total_capacity ob) @ '' free='' @ human_bytes (obs_available ob) @
          '' provenance='' @ Provenance_to_string (obs_provenance ob)) (sample_observations (cuda_sample 0 cuda))
        else [])))"

definition observe_command :: "Machine \<Rightarrow> Outcome option" where
  "observe_command m = map_option (\<lambda>(snap, rt).
      success (lines_of (\<lambda>d. to_hex (ds_id d) @ '' '' @ DomainType_to_string (ds_type d) @ '' provider='' @ ds_provider d @
        '' total='' @ human_bytes (ds_total_capacity d) @ '' committed='' @ human_bytes (ds_committed d) @
        '' available='' @ human_bytes (ds_available d) @ '' conf='' @ Confidence_to_string (ds_confidence d) @
        '' prov='' @ Provenance_to_string (ds_provenance d)) (sn_domains snap)))
    (first_refresh m (register_provider (Some ''storage'') (register_windows_cuda PressureRuntime_new)))"

definition domains_command :: "Machine \<Rightarrow> Outcome option" where
  "domains_command m = map_option (\<lambda>(snap, rt). success (lines_of print_domain_state (sn_domains snap)))
    (first_refresh m (register_windows_cuda PressureRuntime_new))"

definition pressure_command :: "Machine \<Rightarrow> Outcome option" where
  "pressure_command m = map_option (\<lambda>(snap, rt). success (lines_of print_domain_state (sn_domains snap)))
    (first_refresh m (register_windows_cuda PressureRuntime_new))"

definition status_command :: "Machine \<Rightarrow> string list \<Rightarrow> Outcome option" where
  "status_command m as =
    (case first_refresh m (register_provider (Some ''storage'') (register_windows_cuda PressureRuntime_new)) of None \<Rightarrow> None
     | Some (snap, rt) \<Rightarrow>
       if json_flag as then map_option (\<lambda>text. success (text @ endl)) (json_dump (snapshot_to_json snap))
       else Some (success (''aggregate='' @ PressureLevel_to_string (sn_aggregate_level snap) @
         '' score='' @ ostream_double (sn_aggregate_score snap) @ '' generation='' @ u64_to_string (sn_generation snap) @
         '' policy='' @ sn_policy_name snap @ '' domains='' @ dec (length (sn_domains snap)) @ endl @
         lines_of print_domain_state (sn_domains snap))))"

text \<open>The loop of \<open>watch\<close>; the pause between two steps has no effect on what is printed.\<close>

definition watch_text :: "u64 \<Rightarrow> Snapshot \<Rightarrow> string" where
  "watch_text i snap = ''['' @ u64_to_string i @ ''] aggregate='' @ PressureLevel_to_string (sn_aggregate_level snap) @
     '' gen='' @ u64_to_string (sn_generation snap) @ endl @
     lines_of (\<lambda>d. ''  '' @ to_hex (ds_id d) @ '' '' @ DomainType_to_string (ds_type d) @ '' util='' @
       ostream_double (ds_utilization d) @ '' level='' @ PressureLevel_to_string (ds_level d)) (sn_domains snap)"

fun watch_steps :: "Machine \<Rightarrow> u64 list \<Rightarrow> u64 \<times> PressureRuntime \<Rightarrow> string option" where
  "watch_steps m [] st = Some []"
| "watch_steps m (i # is) st =
    (case refresh_all m st of None \<Rightarrow> None
     | Some (snap, st') \<Rightarrow> map_option (\<lambda>text. watch_text i snap @ text) (watch_steps m is st'))"

definition watch_command :: "Machine \<Rightarrow> string list \<Rightarrow> Outcome option" where
  "watch_command m as =
    (case two_options ''--steps'' ''--interval-ms'' as None None of None \<Rightarrow> None
     | Some (steps, interval) \<Rightarrow>
       map_option success (watch_steps m (map of_nat [0..<unat (len_or 10 steps)])
         (1000000, register_windows_cuda PressureRuntime_new)))"

section \<open>Budgets, policy and queries\<close>

definition budget_command :: "string list \<Rightarrow> Outcome option" where
  "budget_command as =
    (let missing = Some (success (''budget command requires --domain <id> --hard <bytes> [--emergency <bytes>]'' @ endl)) in
     case as of flag # domain # rest \<Rightarrow>
       if flag \<noteq> ''--domain'' then missing
       else (case from_hex domain of None \<Rightarrow> Some (failure ''invalid domain id'')
         | Some i \<Rightarrow>
           (case two_options ''--hard'' ''--emergency'' rest None None of None \<Rightarrow> None
            | Some (hard, emergency) \<Rightarrow>
              let b = Budget_init\<lparr>hard_capacity := len_or 0 hard, emergency_reserve_bytes := len_or 0 emergency\<rparr> in
              (case fst (set_budget i b PressureRuntime_new) of
                 Some err \<Rightarrow> Some (failure (''invalid budget: '' @ err))
               | None \<Rightarrow> Some (success (''budget set for '' @ to_hex i @ '' hard='' @ human_bytes (hard_capacity b) @ endl)))))
     | _ \<Rightarrow> missing)"

definition policy_command :: "Outcome option" where
  "policy_command = map_option (\<lambda>text. success (''policy version='' @ u64_to_string (policy_version default_policy) @
     '' name='' @ policy_name default_policy @ endl @ text @ endl)) (json_dump (policy_to_json default_policy))"

definition admit_command :: "Machine \<Rightarrow> string list \<Rightarrow> Outcome option" where
  "admit_command m as =
    (case two_options ''--domain'' ''--bytes'' as None None of None \<Rightarrow> None
     | Some (domain, bytes) \<Rightarrow>
       (case from_hex (text_or [] domain) of None \<Rightarrow> Some (failure ''invalid domain id'')
        | Some i \<Rightarrow>
          (case first_refresh m (register_windows_cuda PressureRuntime_new) of None \<Rightarrow> None
           | Some (snap, rt) \<Rightarrow>
             let hint = fst (admit i (len_or 0 bytes) rt) in
             Some (success (''admit('' @ to_hex i @ '', '' @ human_bytes (len_or 0 bytes) @ '') = '' @
               AdmissionDecision_to_string (ah_decision hint) @ endl @ ''  '' @ ah_explanation hint @ endl)))))"

definition explain_command :: "Machine \<Rightarrow> string list \<Rightarrow> Outcome option" where
  "explain_command m as =
    (case one_option ''--domain'' as None of None \<Rightarrow> None
     | Some domain \<Rightarrow>
       (case from_hex (text_or [] domain) of None \<Rightarrow> Some (failure ''invalid domain id'')
        | Some i \<Rightarrow>
          (case first_refresh m (register_windows_cuda PressureRuntime_new) of None \<Rightarrow> None
           | Some (snap, rt) \<Rightarrow> Some (success (explain i (rt_current_snapshot rt) @ endl)))))"

text \<open>The loop over \<open>try_pop\<close> ends when the queue is empty.\<close>

function drain :: "Subscription \<Rightarrow> PressureEvent list" where
  "drain s = (case sub_try_pop s of (None, _) \<Rightarrow> [] | (Some e, s') \<Rightarrow> e # drain s')"
  by pat_completeness auto
termination by (relation "measure (\<lambda>s. length (sub_queue s))") (auto simp: sub_try_pop_def split: list.splits)

declare drain.simps [simp del]

text \<open>The empty filter, which accepts every event.\<close>

definition SubscriptionFilter_init :: SubscriptionFilter where
  "SubscriptionFilter_init = \<lparr>filter_domains = [], filter_domain_types = [], filter_severities = [], filter_event_types = []\<rparr>"

definition event_text :: "bool \<Rightarrow> PressureEvent \<Rightarrow> string option" where
  "event_text as_json e =
    (if as_json then json_dump (event_to_json e)
     else Some (PressureEventType_to_string (ev_type e) @ '' gen='' @ u64_to_string (ev_generation e) @ '' domain='' @
       (case ev_domain e of None \<Rightarrow> [] | Some i \<Rightarrow> to_hex i) @ '' detail='' @ ev_detail e))"

definition events_command :: "Machine \<Rightarrow> string list \<Rightarrow> Outcome option" where
  "events_command m as =
    (let (k, rt) = subscribe SubscriptionFilter_init False (register_windows_cuda PressureRuntime_new) in
     case first_refresh m rt of None \<Rightarrow> None
     | Some (snap, rt') \<Rightarrow>
       let es = drain (rt_subscriptions rt' ! k) in
       map_option (\<lambda>ts. success (lines_of id ts @ ''events='' @ dec (length es) @ endl))
         (those (map (event_text (json_flag as)) es)))"

definition stats_command :: "Machine \<Rightarrow> string list \<Rightarrow> Outcome option" where
  "stats_command m as =
    (case refresh_all m (1000000, register_windows_cuda PressureRuntime_new) of None \<Rightarrow> None
     | Some (snap1, st1) \<Rightarrow>
       (case refresh_all m st1 of None \<Rightarrow> None
        | Some (snap2, st2) \<Rightarrow>
          (case refresh_all m st2 of None \<Rightarrow> None
           | Some (snap3, now, rt) \<Rightarrow>
             let stats = rt_stats (snd (admit (DomainId 1 1) 1024 rt)) in
             if json_flag as then map_option (\<lambda>text. success (text @ endl)) (json_dump (stats_to_json stats))
             else Some (success (''snapshots='' @ u64_to_string (st_snapshots stats) @ '' transitions='' @
               u64_to_string (st_pressure_transitions stats) @ '' refresh_latency_us='' @
               u64_to_string (st_refresh_latency_us stats) @ endl)))))"

section \<open>Simulation\<close>

definition parse_scenario :: "string \<Rightarrow> SyntheticScenario" where
  "parse_scenario s =
    (if s = ''rapid-spike'' then Sc_RapidSpike
     else if s = ''sawtooth'' then Sc_Sawtooth
     else if s = ''slow-recovery'' then Sc_SlowRecovery
     else if s = ''no-recovery'' then Sc_NoRecovery
     else if s = ''provider-failure'' then Sc_ProviderFailure
     else if s = ''stale-provider'' then Sc_StaleProvider
     else if s = ''gpu-only'' then Sc_GpuOnly
     else if s = ''host-only'' then Sc_HostOnly
     else if s = ''simultaneous'' then Sc_Simultaneous
     else if s = ''persistent-tier'' then Sc_PersistentTier
     else if s = ''pinned-exhaustion'' then Sc_PinnedExhaustion
     else if s = ''multi-gpu'' then Sc_MultiGpu
     else if s = ''one-recovering'' then Sc_OneRecovering
     else Sc_GradualGrowth)"

definition gpu0 :: SyntheticDomainSpec where
  "gpu0 = SyntheticDomainSpec_init\<lparr>spec_id := DomainId 1 1, spec_type := DT_AcceleratorMemory, spec_group := ''gpu'',
     spec_provider := ''synthetic'', spec_total_capacity := 32 * 1024 * 1024 * 1024\<rparr>"

definition host1 :: SyntheticDomainSpec where
  "host1 = SyntheticDomainSpec_init\<lparr>spec_id := DomainId 1 2, spec_type := DT_HostMemory, spec_group := ''host'',
     spec_provider := ''synthetic'', spec_total_capacity := 64 * 1024 * 1024 * 1024\<rparr>"

definition simulate_provider :: "SyntheticScenario \<Rightarrow> SyntheticProvider" where
  "simulate_provider sc = SyntheticProvider_new [gpu0, host1] sc 100 4"

definition simulate_runtime :: PressureRuntime where
  "simulate_runtime =
    (let rt = register_provider (Some ''synthetic'') PressureRuntime_new;
         rt = snd (set_budget (DomainId 1 1)
           (Budget_init\<lparr>hard_capacity := 8 * 1024 * 1024 * 1024, emergency_reserve_bytes := 1024 * 1024 * 1024\<rparr>) rt)
     in snd (set_budget (DomainId 1 2) (Budget_init\<lparr>hard_capacity := 16 * 1024 * 1024 * 1024\<rparr>) rt))"

text \<open>One refresh of a runtime whose only provider is the synthetic one.\<close>

definition synthetic_refresh :: "u64 \<Rightarrow> u64 \<Rightarrow> SyntheticProvider \<times> PressureRuntime \<Rightarrow> (Snapshot \<times> SyntheticProvider \<times> PressureRuntime) option" where
  "synthetic_refresh latency now = (\<lambda>(sp, rt).
    (case synthetic_sample now sp of None \<Rightarrow> None
     | Some (sample, sp') \<Rightarrow>
       map_option (\<lambda>(calls, snap, rt'). (snap, sp', rt'))
         (refresh \<lparr>w_order = [provider_key ''synthetic''], w_sample = (\<lambda>_. Inr sample), w_latency_us = latency\<rparr> now rt)))"

record SimulateLine =
  sim_step :: u64
  sim_generation :: u64
  sim_gpu :: string
  sim_util :: double
  sim_score :: double
  sim_transition :: bool

definition simulate_line :: "u64 \<Rightarrow> string \<Rightarrow> Snapshot \<Rightarrow> SimulateLine" where
  "simulate_line i last_level snap =
    (let d = find_domain (spec_id gpu0) snap;
         lvl = (case d of None \<Rightarrow> ''none'' | Some s \<Rightarrow> PressureLevel_to_string (ds_level s))
     in \<lparr>sim_step = i, sim_generation = sn_generation snap, sim_gpu = lvl,
         sim_util = (case d of None \<Rightarrow> Fin 0 | Some s \<Rightarrow> ds_utilization s),
         sim_score = (case d of None \<Rightarrow> Fin 0 | Some s \<Rightarrow> ds_score s),
         sim_transition = (last_level \<noteq> [] \<and> lvl \<noteq> last_level)\<rparr>)"

text \<open>The loop, with the latencies that the clock gives.\<close>

fun simulate_steps :: "(u64 \<Rightarrow> u64) \<Rightarrow> u64 list \<Rightarrow> string \<Rightarrow> SyntheticProvider \<times> PressureRuntime \<Rightarrow> SimulateLine list option" where
  "simulate_steps latency [] last_level st = Some []"
| "simulate_steps latency (i # is) last_level st =
    (case synthetic_refresh (latency (1000 + i * 100)) (1000 + i * 100) st of None \<Rightarrow> None
     | Some (snap, st') \<Rightarrow>
       let line = simulate_line i last_level snap in
       map_option (\<lambda>ls. line # ls) (simulate_steps latency is (sim_gpu line) st'))"

definition simulate_text :: "SimulateLine \<Rightarrow> string" where
  "simulate_text l = ''step='' @ u64_to_string (sim_step l) @ '' gen='' @ u64_to_string (sim_generation l) @ '' gpu='' @ sim_gpu l @
     '' util='' @ ostream_double (sim_util l) @ '' score='' @ ostream_double (sim_score l) @
     (if sim_transition l then ''  [transition]'' else [])"

definition simulate_lines :: "Machine \<Rightarrow> string list \<Rightarrow> SimulateLine list option" where
  "simulate_lines m as =
    (case two_options ''--scenario'' ''--steps'' as None None of None \<Rightarrow> None
     | Some (scen, steps) \<Rightarrow>
       let sc = parse_scenario (text_or ''gradual-growth'' scen) in
       simulate_steps (m_latency_us m) (map of_nat [0..<unat (len_or 60 steps)]) [] (simulate_provider sc, simulate_runtime))"

definition simulate_command :: "Machine \<Rightarrow> string list \<Rightarrow> Outcome option" where
  "simulate_command m as = map_option (\<lambda>ls. success (lines_of simulate_text ls)) (simulate_lines m as)"

text \<open>The self-test: twenty refreshes of one governed accelerator, which passes when the generation is positive.\<close>

definition selftest_provider :: SyntheticProvider where
  "selftest_provider = SyntheticProvider_new [SyntheticDomainSpec_init\<lparr>spec_id := DomainId 9 9, spec_type := DT_AcceleratorMemory,
     spec_group := ''gpu'', spec_total_capacity := 8 * 1024 * 1024 * 1024\<rparr>] Sc_GradualGrowth 100 4"

definition selftest_runtime :: PressureRuntime where
  "selftest_runtime = snd (set_budget (DomainId 9 9)
     (Budget_init\<lparr>hard_capacity := 4 * 1024 * 1024 * 1024, emergency_reserve_bytes := 512 * 1024 * 1024\<rparr>)
     (register_provider (Some ''synthetic'') PressureRuntime_new))"

fun refreshes :: "(u64 \<Rightarrow> u64) \<Rightarrow> u64 \<Rightarrow> u64 list \<Rightarrow> SyntheticProvider \<times> PressureRuntime \<Rightarrow> (SyntheticProvider \<times> PressureRuntime) option" where
  "refreshes latency start [] st = Some st"
| "refreshes latency start (i # is) st =
    (case synthetic_refresh (latency (start + i * 100)) (start + i * 100) st of None \<Rightarrow> None | Some (snap, st') \<Rightarrow> refreshes latency start is st')"

definition selftest_command :: "Machine \<Rightarrow> Outcome option" where
  "selftest_command m =
    (if validate_policy default_policy \<noteq> None then Some (failure ''selftest failed: default policy invalid'')
     else map_option (\<lambda>(sp, rt).
       let snap = rt_current_snapshot rt; ok = (0 < sn_generation snap) in
       \<lparr>oc_out = ''selftest '' @ (if ok then ''PASS'' else ''FAIL'') @ '' gen='' @ u64_to_string (sn_generation snap) @
          '' domains='' @ dec (length (sn_domains snap)) @ endl, oc_err = [], oc_code = (if ok then 0 else 1)\<rparr>)
       (refreshes (m_latency_us m) 1000 (map of_nat [0..<20]) (selftest_provider, selftest_runtime)))"

section \<open>Benchmark\<close>

definition benchmark_spec :: "nat \<Rightarrow> SyntheticDomainSpec" where
  "benchmark_spec i = SyntheticDomainSpec_init\<lparr>spec_id := DomainId (of_nat (i + 1)) 0, spec_type := DT_AcceleratorMemory,
     spec_group := ''gpu'', spec_total_capacity := 8 * 1024 * 1024 * 1024, spec_phase := ddiv (Fin (of_nat i)) (Fin 64)\<rparr>"

definition benchmark_provider :: SyntheticProvider where
  "benchmark_provider = SyntheticProvider_new (map benchmark_spec [0..<64]) Sc_GradualGrowth 100 4"

text \<open>The last query of the benchmark prints nothing.\<close>

definition benchmark_command :: "Machine \<Rightarrow> Outcome option" where
  "benchmark_command m =
    (case refreshes (m_latency_us m) 1000 (map of_nat [0..<5])
        (benchmark_provider, register_provider (Some ''synthetic'') PressureRuntime_new) of None \<Rightarrow> None
     | Some st \<Rightarrow>
       map_option (\<lambda>_. success (''refresh (64 domains): '' @
           ostream_double (ddiv (of_u64 (m_elapsed_us m)) (Fin 200)) @ '' us/snapshot'' @ endl))
         (refreshes (m_latency_us m) 10000 (map of_nat [0..<200]) st))"

section \<open>The program\<close>

text \<open>The arguments are those after the name of the program.\<close>

definition main_program :: "Machine \<Rightarrow> string list \<Rightarrow> Outcome option" where
  "main_program m argv =
    (case argv of [] \<Rightarrow> Some (success usage)
     | cmd # as \<Rightarrow>
       if cmd = ''info'' then Some (info_command m)
       else if cmd = ''observe'' then observe_command m
       else if cmd = ''domains'' then domains_command m
       else if cmd = ''status'' \<or> cmd = ''snapshot'' then status_command m as
       else if cmd = ''watch'' then watch_command m as
       else if cmd = ''budget'' then budget_command as
       else if cmd = ''policy'' then policy_command
       else if cmd = ''pressure'' then pressure_command m
       else if cmd = ''admit'' then admit_command m as
       else if cmd = ''explain'' then explain_command m as
       else if cmd = ''simulate'' then simulate_command m as
       else if cmd = ''events'' then events_command m as
       else if cmd = ''stats'' then stats_command m as
       else if cmd = ''selftest'' then selftest_command m
       else if cmd = ''benchmark'' then benchmark_command m
       else Some \<lparr>oc_out = usage, oc_err = ''unknown command: '' @ cmd @ endl, oc_code = 1\<rparr>)"

end
