(* ===== verification/CommandLineLaws.thy ===== *)
theory CommandLineLaws imports CommandLine begin

text \<open>
  The composition of the providers with the runtime in the commands: a simulation reports a known level of the accelerator at every step,
  while its provider is healthy, stale or down; the self-test passes; and a complete command line is never undefined.
\<close>

section \<open>One refresh with the synthetic provider\<close>

definition synthetic_world :: "u64 \<Rightarrow> ProviderSample \<Rightarrow> World" where
  "synthetic_world latency s = \<lparr>w_order = [provider_key ''synthetic''], w_sample = (\<lambda>_. Inr s), w_latency_us = latency\<rparr>"

lemma synthetic_polled:
  assumes "rt_providers rt (provider_key ''synthetic'') = Some ''synthetic''"
  shows "registered (synthetic_world latency s) rt = [''synthetic'']"
    "polled (synthetic_world latency s) rt = [(''synthetic'', sample_observations s)]"
    "observed_ids [(''synthetic'', sample_observations s)] = map obs_id (sample_observations s)"
  using assms by (simp_all add: polled_def registered_def synthetic_world_def outcome_samples_def List.map_filter_simps observed_ids_def)

lemma interpret_observation_providers:
  "set (map ds_provider (cy_domains (interpret_observation pol bm now prov obs cy))) = insert prov (set (map ds_provider (cy_domains cy)))"
  by (simp add: interpret_observation_def Let_def split_beta publish_domain_def)

lemma interpret_fold_providers:
  "set (map ds_provider (cy_domains (fold (interpret_observation pol bm now prov) os cy))) \<subseteq> insert prov (set (map ds_provider (cy_domains cy)))"
proof (induction os arbitrary: cy)
  case (Cons ob os)
  show ?case using Cons.IH [of "interpret_observation pol bm now prov ob cy"]
    by (simp add: interpret_observation_providers del: set_map)
qed auto

lemma synthetic_providers:
  assumes "rt_providers rt (provider_key ''synthetic'') = Some ''synthetic''"
    and "d \<in> set (cy_domains (interpreted (synthetic_world latency s) now rt))"
  shows "ds_provider d = ''synthetic''"
proof -
  let ?w = "synthetic_world latency s"
  have c: "cy_all (poll_all ?w now rt (cycle_start rt)) = [(''synthetic'', sample_observations s)]"
    "cy_domains (poll_all ?w now rt (cycle_start rt)) = []"
    using synthetic_polled(2) [OF assms(1)] by (simp_all add: poll_all_def poll_fold polled_def cycle_start_def)
  have "set (map ds_provider (cy_domains (interpreted ?w now rt))) \<subseteq> {''synthetic''}"
    using interpret_fold_providers [of "rt_policy rt" "rt_budgets rt" now "''synthetic''" "sample_observations s" "poll_all ?w now rt (cycle_start rt)"]
    unfolding interpreted_def interpret_all_def c by simp
  then show ?thesis using assms(2) by auto
qed

text \<open>The provider and the runtime belong together, and the domain is known once there was a sample.\<close>

definition sim_inv :: "PressureDomainId \<Rightarrow> SyntheticProvider \<Rightarrow> PressureRuntime \<Rightarrow> bool" where
  "sim_inv i sp rt \<longleftrightarrow> rt_reachable rt \<and> list_all spec_ok (sp_domains sp) \<and> (\<exists>d \<in> set (sp_domains sp). spec_present d \<and> spec_id d = i) \<and>
     0 < sp_failure_after_steps sp \<and> rt_providers rt (provider_key ''synthetic'') = Some ''synthetic'' \<and>
     (\<forall>d \<in> set (sn_domains (rt_current_snapshot rt)). ds_provider d = ''synthetic'') \<and>
     (0 < sp_tick sp \<longrightarrow> i \<in> ds_id ` set (sn_domains (rt_current_snapshot rt)))"

lemma synthetic_settled:
  assumes "sim_inv i sp rt" "sample_status s = (if synthetic_down sp then PS_Failed else q)"
    and "map obs_id (sample_observations s) = (if synthetic_down sp then [] else map spec_id (filter spec_present (sp_domains sp)))"
  shows "i \<in> ds_id ` set (settled (synthetic_world latency s) now rt) \<and>
    (\<forall>d \<in> set (settled (synthetic_world latency s) now rt). ds_provider d = ''synthetic'')"
proof -
  let ?w = "synthetic_world latency s"
  have reg: "rt_providers rt (provider_key ''synthetic'') = Some ''synthetic''" and inv: "rt_inv rt"
    using assms(1) rt_reachable_inv by (simp_all add: sim_inv_def)
  have ids: "map ds_id (cy_domains (interpreted ?w now rt)) = map obs_id (sample_observations s)"
    by (simp add: interpreted_fields synthetic_polled [OF reg])
  have provs: "ds_provider d = ''synthetic''" if "d \<in> set (settled ?w now rt)" for d
    using that assms(1) synthetic_providers [OF reg] by (auto simp: settled_def sim_inv_def)
  have "i \<in> ds_id ` set (settled ?w now rt)"
  proof (cases "synthetic_down sp")
    case True
    then have "0 < sp_tick sp" using assms(1) by (auto simp: synthetic_down_def sim_inv_def word_less_nat_alt word_le_nat_alt)
    then obtain pd where pd: "pd \<in> set (sn_domains (rt_current_snapshot rt))" "ds_id pd = i" "ds_provider pd = ''synthetic''"
      using assms(1) by (auto simp: sim_inv_def)
    have "not_fresh (cy_health (interpreted ?w now rt)) ''synthetic''"
      unfolding not_fresh_unavailable [OF inv] using assms(2) True by (simp add: unavailable_def outcome_status_def synthetic_world_def)
    then have "kept_by (interpreted ?w now rt) pd"
      using pd assms(3) True by (simp add: kept_by_def interpreted_fields synthetic_polled [OF reg] observed_ids_def)
    then have "keeper now pd \<in> set (settled ?w now rt)" using pd(1) by (simp add: settled_def)
    then have "ds_id (keeper now pd) \<in> ds_id ` set (settled ?w now rt)" by (rule imageI)
    then show ?thesis using pd(2) by simp
  next
    case False
    then have "i \<in> set (map ds_id (cy_domains (interpreted ?w now rt)))"
      unfolding ids assms(3) using assms(1) by (auto simp: sim_inv_def)
    then show ?thesis by (auto simp: settled_def)
  qed
  with provs show ?thesis by blast
qed

lemma synthetic_refresh_step:
  assumes "sim_inv i sp rt"
  shows "\<exists>snap rt'. synthetic_refresh latency now (sp, rt) = Some (snap, sp\<lparr>sp_tick := sp_tick sp + 1\<rparr>, rt') \<and>
    sim_inv i (sp\<lparr>sp_tick := sp_tick sp + 1\<rparr>) rt' \<and> rt_current_snapshot rt' = snap \<and> i \<in> ds_id ` set (sn_domains snap) \<and>
    rt_generation rt' = sn_generation snap \<and> (sn_generation snap = rt_generation rt \<or> sn_generation snap = rt_generation rt + 1) \<and>
    (sn_domains (rt_current_snapshot rt) = [] \<longrightarrow> sn_generation snap = rt_generation rt + 1)"
proof -
  have inv: "rt_inv rt" and specs: "list_all spec_ok (sp_domains sp)"
    using assms rt_reachable_inv by (simp_all add: sim_inv_def)
  obtain s where s: "synthetic_sample now sp = Some (s, sp\<lparr>sp_tick := sp_tick sp + 1\<rparr>)"
    "sample_status s = (if synthetic_down sp then PS_Failed else if synthetic_stale sp then PS_Stale else PS_Healthy)"
    "map obs_id (sample_observations s) = (if synthetic_down sp then [] else map spec_id (filter spec_present (sp_domains sp)))"
    using synthetic_sample_ok [OF specs, of now] by blast
  let ?w = "synthetic_world latency s" and ?sp = "sp\<lparr>sp_tick := sp_tick sp + 1\<rparr>"
  obtain calls subs where r: "refresh ?w now rt = Some (calls, refresh_snapshot ?w now rt,
      publish ?w (refresh_snapshot ?w now rt) (refresh_cycle ?w now rt) subs rt)"
    using refresh_total [OF inv] by blast
  let ?rt = "publish ?w (refresh_snapshot ?w now rt) (refresh_cycle ?w now rt) subs rt"
  have dom: "set (sn_domains (refresh_snapshot ?w now rt)) = respond (settled ?w now rt) ` set (settled ?w now rt)"
    by (simp add: observe_cycle_domains)
  note st = synthetic_settled [OF assms s(2,3), of latency now]
  have known: "i \<in> ds_id ` set (sn_domains (refresh_snapshot ?w now rt))" and
    provs: "\<forall>d \<in> set (sn_domains (refresh_snapshot ?w now rt)). ds_provider d = ''synthetic''"
    using st unfolding dom by (auto simp: image_image respond_fields)
  have "sim_inv i ?sp ?rt"
    using assms known provs rt_reachable.step [OF _ rt_step.refresh [OF r]]
    by (auto simp: sim_inv_def publish_def)
  moreover have "synthetic_refresh latency now (sp, rt) = Some (refresh_snapshot ?w now rt, ?sp, ?rt)"
    using r by (simp add: synthetic_refresh_def s(1) synthetic_world_def)
  moreover have "sn_generation (refresh_snapshot ?w now rt) = rt_generation rt \<or>
      sn_generation (refresh_snapshot ?w now rt) = rt_generation rt + 1"
    by (simp add: refresh_snapshot_def refresh_generation_def next_generation_def)
  moreover have "sn_generation (refresh_snapshot ?w now rt) = rt_generation rt + 1" if "sn_domains (rt_current_snapshot rt) = []"
  proof -
    have "sn_domains (refresh_snapshot ?w now rt) \<noteq> []" using known by auto
    then have "sn_domains (refresh_draft ?w now rt) \<noteq> []" by (simp add: refresh_snapshot_def)
    then have "diff_any (diff_snapshots (rt_current_snapshot rt) (refresh_draft ?w now rt))"
      using that by (simp add: diff_any_def diff_snapshots_def find_domain_def)
    then show ?thesis by (simp add: refresh_snapshot_def refresh_generation_def next_generation_def)
  qed
  ultimately show ?thesis using known by (intro exI conjI) (auto simp: publish_def)
qed

section \<open>Simulation and self-test\<close>

definition known_levels :: "string list" where
  "known_levels = map PressureLevel_to_string [PL_Normal, PL_Elevated, PL_High, PL_Critical, PL_Exhausted]"

lemma simulate_line_known:
  assumes "sim_inv (spec_id gpu0) sp rt" "rt_current_snapshot rt = snap" "spec_id gpu0 \<in> ds_id ` set (sn_domains snap)"
  shows "sim_gpu (simulate_line i last_level snap) \<in> set known_levels"
proof -
  obtain d where d: "find_domain (spec_id gpu0) snap = Some d"
    using assms(3) find_domain_None [of "spec_id gpu0" snap] by (cases "find_domain (spec_id gpu0) snap") auto
  then have "d \<in> set (sn_domains (rt_current_snapshot rt))" using assms(2) find_domain_Some by blast
  moreover have "rt_inv rt" using assms(1) rt_reachable_inv by (simp add: sim_inv_def)
  ultimately have "ds_level d \<noteq> PL_Unknown" by (auto simp: rt_inv_def dom_ok_def list_all_iff)
  then show ?thesis by (cases "ds_level d") (simp_all add: simulate_line_def Let_def d known_levels_def)
qed

lemma simulate_steps_total:
  assumes "sim_inv (spec_id gpu0) sp rt"
  shows "\<exists>lines. simulate_steps latency is last_level (sp, rt) = Some lines \<and> map sim_step lines = is \<and>
    list_all (\<lambda>l. sim_gpu l \<in> set known_levels) lines"
  using assms
proof (induction "is" arbitrary: last_level sp rt)
  case (Cons i "is")
  obtain snap sp' rt' where r: "synthetic_refresh (latency (1000 + i * 100)) (1000 + i * 100) (sp, rt) = Some (snap, sp', rt')"
    "sim_inv (spec_id gpu0) sp' rt'" "rt_current_snapshot rt' = snap" "spec_id gpu0 \<in> ds_id ` set (sn_domains snap)"
    using synthetic_refresh_step [OF Cons.prems] by metis
  let ?line = "simulate_line i last_level snap"
  obtain lines where "simulate_steps latency is (sim_gpu ?line) (sp', rt') = Some lines" "map sim_step lines = is"
    "list_all (\<lambda>l. sim_gpu l \<in> set known_levels) lines" using Cons.IH [OF r(2)] by blast
  moreover have "sim_step ?line = i" by (simp add: simulate_line_def Let_def)
  ultimately show ?case using r(1) simulate_line_known [OF r(2,3,4)] by (simp add: Let_def)
qed simp

lemma simulated_specs:
  "list_all spec_ok [gpu0, host1]" "list_all spec_ok (sp_domains selftest_provider)"
  by (simp_all add: spec_ok_def gpu0_def host1_def selftest_provider_def SyntheticProvider_new_def SyntheticDomainSpec_init_def unit_fl)

lemma budget_fields: "rt_providers (snd (set_budget j b rt)) = rt_providers rt"
  "rt_current_snapshot (snd (set_budget j b rt)) = rt_current_snapshot rt"
  "rt_generation (snd (set_budget j b rt)) = rt_generation rt"
  by (simp_all add: set_budget_def split: option.splits)

lemma simulation_register: "rt_providers (register_provider (Some ''synthetic'') rt) (provider_key ''synthetic'') = Some ''synthetic''"
  "rt_current_snapshot (register_provider p rt) = rt_current_snapshot rt" "rt_generation (register_provider p rt) = rt_generation rt"
  by (simp_all add: register_provider_def split: option.splits)

lemma new_snapshot: "sn_domains (rt_current_snapshot PressureRuntime_new) = []" "sn_generation (rt_current_snapshot PressureRuntime_new) = 0"
  by (simp_all add: PressureRuntime_new_def Snapshot_init_def)

lemmas simulated_fields = budget_fields simulation_register new_snapshot new_fields

lemma simulate_start: "sim_inv (spec_id gpu0) (simulate_provider sc) simulate_runtime"
proof -
  have "rt_reachable simulate_runtime"
    unfolding simulate_runtime_def Let_def
    by (intro rt_reachable.step [OF _ rt_step.budget] rt_reachable.step [OF rt_reachable.start rt_step.provider])
  moreover have "rt_providers simulate_runtime (provider_key ''synthetic'') = Some ''synthetic''"
    "sn_domains (rt_current_snapshot simulate_runtime) = []"
    by (simp_all add: simulate_runtime_def Let_def simulated_fields)
  moreover have "spec_present gpu0" by (simp add: gpu0_def SyntheticDomainSpec_init_def)
  ultimately show ?thesis using simulated_specs(1)
    by (simp add: sim_inv_def simulate_provider_def SyntheticProvider_new_def)
qed

lemma simulate_lines_total:
  assumes "two_options ''--scenario'' ''--steps'' as None None = Some (scen, steps)"
  shows "\<exists>lines. simulate_lines m as = Some lines \<and> map sim_step lines = map of_nat [0..<unat (len_or 60 steps)] \<and>
    list_all (\<lambda>l. sim_gpu l \<in> set known_levels) lines"
  using simulate_steps_total [OF simulate_start] by (simp add: simulate_lines_def assms)

lemma selftest_start: "sim_inv (DomainId 9 9) selftest_provider selftest_runtime"
proof -
  have "rt_reachable selftest_runtime"
    unfolding selftest_runtime_def by (intro rt_reachable.step [OF _ rt_step.budget] rt_reachable.step [OF rt_reachable.start rt_step.provider])
  moreover have "\<exists>d \<in> set (sp_domains selftest_provider). spec_present d \<and> spec_id d = DomainId 9 9"
    by (simp add: selftest_provider_def SyntheticProvider_new_def SyntheticDomainSpec_init_def)
  moreover have "0 < sp_failure_after_steps selftest_provider" "sp_tick selftest_provider = 0"
    by (simp_all add: selftest_provider_def SyntheticProvider_new_def)
  moreover have "sn_domains (rt_current_snapshot selftest_runtime) = []"
    "rt_providers selftest_runtime (provider_key ''synthetic'') = Some ''synthetic''"
    by (simp_all add: selftest_runtime_def simulated_fields)
  ultimately show ?thesis using simulated_specs(2) by (simp add: sim_inv_def)
qed

text \<open>While the counter has room, the generation never falls.\<close>

lemma refreshes_total:
  assumes "sim_inv i sp rt" "rt_generation rt = sn_generation (rt_current_snapshot rt)"
    and "unat (rt_generation rt) + length is < 2 ^ 64"
  shows "\<exists>sp' rt'. refreshes latency start is (sp, rt) = Some (sp', rt') \<and> sim_inv i sp' rt' \<and>
    rt_generation rt' = sn_generation (rt_current_snapshot rt') \<and> rt_generation rt \<le> rt_generation rt' \<and>
    unat (rt_generation rt') \<le> unat (rt_generation rt) + length is"
  using assms
proof (induction "is" arbitrary: sp rt)
  case (Cons k "is")
  let ?now = "start + k * 100"
  obtain snap sp' rt' where r: "synthetic_refresh (latency ?now) ?now (sp, rt) = Some (snap, sp', rt')"
    "sim_inv i sp' rt'" "rt_current_snapshot rt' = snap" "rt_generation rt' = sn_generation snap"
    "sn_generation snap = rt_generation rt \<or> sn_generation snap = rt_generation rt + 1"
    using synthetic_refresh_step [OF Cons.prems(1)] by metis
  have room: "unat (rt_generation rt + 1) = unat (rt_generation rt) + 1"
    using Cons.prems(3) by (simp add: unat_plus_simple unat_word_ariths)
  then have nx: "unat (rt_generation rt') + length is < 2 ^ 64" "rt_generation rt \<le> rt_generation rt'"
    "unat (rt_generation rt') \<le> unat (rt_generation rt) + 1"
    using r(4,5) Cons.prems(3) by (auto simp: word_le_nat_alt)
  then obtain sp'' rt'' where "refreshes latency start is (sp', rt') = Some (sp'', rt'')" "sim_inv i sp'' rt''"
    "rt_generation rt'' = sn_generation (rt_current_snapshot rt'')" "rt_generation rt' \<le> rt_generation rt''"
    "unat (rt_generation rt'') \<le> unat (rt_generation rt') + length is"
    using Cons.IH [OF r(2)] r(3,4) by auto
  then show ?case using r(1) nx by auto
qed auto

lemma selftest_refreshes:
  assumes "length is < 2 ^ 63"
  shows "\<exists>sp rt. refreshes latency start (k # is) (selftest_provider, selftest_runtime) = Some (sp, rt) \<and>
    0 < sn_generation (rt_current_snapshot rt)"
proof -
  have start: "rt_generation selftest_runtime = 0" "sn_domains (rt_current_snapshot selftest_runtime) = []"
    by (simp_all add: selftest_runtime_def simulated_fields)
  let ?now = "start + k * 100"
  obtain snap sp rt where r: "synthetic_refresh (latency ?now) ?now (selftest_provider, selftest_runtime) = Some (snap, sp, rt)"
    "sim_inv (DomainId 9 9) sp rt" "rt_current_snapshot rt = snap" "rt_generation rt = sn_generation snap" "sn_generation snap = 1"
    using synthetic_refresh_step [OF selftest_start, of "latency ?now" ?now] start by auto
  have "unat (rt_generation rt) + length is < 2 ^ 64" using r(4,5) assms by simp
  from refreshes_total [OF r(2) _ this, of latency start] r
  obtain sp' rt' where "refreshes latency start is (sp, rt) = Some (sp', rt')" "1 \<le> sn_generation (rt_current_snapshot rt')" by auto
  then show ?thesis using r(1) by (auto simp: word_le_nat_alt word_less_nat_alt)
qed

lemma selftest_run: "\<exists>out. selftest_command m = Some \<lparr>oc_out = ''selftest PASS'' @ out, oc_err = [], oc_code = 0\<rparr>"
proof -
  have twenty: "map of_nat [0..<20] = (0 :: u64) # map of_nat [1..<20]" by (simp add: upt_rec [of 0])
  have len: "length (map of_nat [1..<20] :: u64 list) < 2 ^ 63" by simp
  obtain sp rt where "refreshes (m_latency_us m) 1000 (map of_nat [0..<20]) (selftest_provider, selftest_runtime) = Some (sp, rt)"
    "0 < sn_generation (rt_current_snapshot rt)"
    using selftest_refreshes [OF len, of "m_latency_us m" 1000 0] unfolding twenty by blast
  then show ?thesis by (simp add: selftest_command_def default_policy_valid Let_def)
qed

text \<open>
  The self-test passes on every machine: whatever the clock measures, the default policy is valid, none of the twenty refreshes of the
  governed accelerator meets undefined behaviour, the generation of the last snapshot is positive, and the program exits with 0.
\<close>

lemma selftest_passes: "\<exists>out. main_program m (''selftest'' # as) = Some \<lparr>oc_out = ''selftest PASS'' @ out, oc_err = [], oc_code = 0\<rparr>"
  using selftest_run [of m] by (simp add: main_program_def)

text \<open>
  C18. The \<open>simulate\<close> command, for every scenario and number of steps that the options name: when every option has its value it
  prints one line for each step, in order, never meets undefined behaviour, and shows the accelerator at a known level in every line,
  also in the steps at which the provider is stale or has failed.
\<close>

theorem simulate_total:
  assumes "two_options ''--scenario'' ''--steps'' as None None = Some (scen, steps)"
  shows "\<exists>lines. main_program m (''simulate'' # as) = Some (success (lines_of simulate_text lines)) \<and>
    map sim_step lines = map of_nat [0..<unat (len_or 60 steps)] \<and>
    list_all (\<lambda>l. sim_gpu l \<in> set known_levels) lines"
  using simulate_lines_total [OF assms, of m] by (auto simp: main_program_def simulate_command_def)

text \<open>A machine on which nothing answers.\<close>

definition idle_machine :: Machine where
  "idle_machine = \<lparr>m_windows = (\<lambda>_. None), m_disk = (\<lambda>_. None), m_cuda = (\<lambda>_. \<lparr>ca_cudart = False, cudaSetDeviceFn = None,
     cudaGetDeviceCountFn = None, cudaMemGetInfoFn = None, cudaMallocFn = None, cudaFreeFn = None, ca_nvcuda = False, cuInitFn = None,
     cuDeviceGetCountFn = None, cuDeviceGetFn = None, cuDeviceGetNameFn = None, cuDeviceGetUuidFn = None\<rparr>), m_order = [],
     m_latency_us = (\<lambda>_. 0), m_elapsed_us = 0\<rparr>"

lemma simulate_total_witness:
  "\<exists>lines. main_program idle_machine [''simulate'', ''--scenario'', ''provider-failure'', ''--steps'', ''3''] =
    Some (success (lines_of simulate_text lines)) \<and> map sim_step lines = [0, 1, 2]"
proof -
  have o: "two_options ''--scenario'' ''--steps'' [''--scenario'', ''provider-failure'', ''--steps'', ''3''] None None =
    Some (Some ''provider-failure'', Some ''3'')"
    by (simp add: two_options.simps [of _ _ "[]"] two_options.simps [of _ _ "c # cs" for c cs] latest_def)
  have "len_or 60 (Some ''3'') = 3" by (simp add: len_or_def parse_len_def digit_value_def Let_def)
  then have steps: "map of_nat [0..<unat (len_or 60 (Some ''3''))] = [0, 1, 2 :: u64]" by (simp add: upt_rec)
  note run = simulate_total [OF o, of idle_machine, unfolded steps]
  show ?thesis by (rule ex_forward [OF run]) (elim conjE, intro conjI)
qed

end
