(* ===== verification/PolicyText.thy ===== *)
theory PolicyText imports PolicyJsonLaws WireText begin

text \<open>Policies as JSON text: which policies the serializer can write, and that they come back from the text.\<close>

definition policy_numbers :: "PressurePolicy \<Rightarrow> double list" where
  "policy_numbers p =
    (let t = thresholds p; h = hysteresis p; w = weights p; a = aggregate p in
     [normal_exit t, elevated_enter t, elevated_exit t, high_enter t, high_exit t, critical_enter t, critical_exit t,
      exhausted_enter t, exhausted_exit t, min_dwell_duration_ms h, escalation_delay_ms h, recovery_delay_ms h,
      w_utilization w, w_free_deficit w, w_reserve_deficit w, w_growth_rate w, w_allocation_failure w, w_fragmentation w,
      w_reclaimable_deficit w, w_confidence_penalty w, w_stale_penalty w,
      bottleneck_penalty a, reserve_exhaustion_penalty a, response_feasibility_penalty a] @ map snd (role_weight a))"

definition policy_small :: "PressurePolicy \<Rightarrow> bool" where
  "policy_small p \<longleftrightarrow> small (policy_version p) \<and> small (max_queued_events p) \<and> (small (max_relief_bytes p) \<or> max_relief_bytes p = - 1) \<and>
     small (default_max_age_us (freshness p)) \<and> list_all (\<lambda>kv. small (snd kv)) (per_provider_max_age_us (freshness p))"

definition policy_wire :: "PressurePolicy \<Rightarrow> bool" where
  "policy_wire p \<longleftrightarrow> text_ok (policy_name p) \<and> list_all (\<lambda>kv. text_ok (fst kv)) (per_provider_max_age_us (freshness p)) \<and>
     list_all number_ok (policy_numbers p)"

lemma text_ok_role [simp]: "text_ok (TierRole_to_string r)"
  by (cases r) (simp_all add: text_ok_def)

lemma wire_ok_relief: "small w \<or> w = - 1 \<Longrightarrow> wire_ok d (jint w)"
  using number_ok_int [of "- 1"] wire_ok_jint [of w d] by (elim disjE) (simp_all add: jint_def wire_ok_scalars)

lemma wire_ok_parts:
  assumes "policy_small p" "policy_wire p" "d < 100"
  shows "wire_ok d (thresholds_to_json (thresholds p))" "wire_ok d (hysteresis_to_json (hysteresis p))"
    "wire_ok d (weights_to_json (weights p))" "wire_ok d (aggregate_to_json (aggregate p))"
    "wire_ok d (freshness_to_json (freshness p))" "wire_ok d (rule_to_json r)"
proof -
  have n: "list_all number_ok (policy_numbers p)" using assms(2) by (simp add: policy_wire_def)
  show "wire_ok d (thresholds_to_json (thresholds p))" "wire_ok d (hysteresis_to_json (hysteresis p))"
    "wire_ok d (weights_to_json (weights p))"
    using n assms(3) unfolding thresholds_to_json_def hysteresis_to_json_def weights_to_json_def
    by (intro wire_ok_members; simp add: wire_values policy_numbers_def Let_def)+
  have "wire_ok (Suc d) (json_object (map (\<lambda>(role, v). (TierRole_to_string role, J_Number v)) (role_weight (aggregate p))))"
    using n assms(3) by (intro wire_ok_members) (auto simp: members_wire_def list_all_iff wire_values policy_numbers_def Let_def)
  then show "wire_ok d (aggregate_to_json (aggregate p))"
    using n assms(3) unfolding aggregate_to_json_def by (intro wire_ok_members) (simp_all add: wire_values policy_numbers_def Let_def)
  have "wire_ok (Suc d) (json_object (map (\<lambda>(k, v). (k, jint v)) (per_provider_max_age_us (freshness p))))"
    using assms by (intro wire_ok_members) (auto simp: members_wire_def list_all_iff wire_values policy_small_def policy_wire_def)
  then show "wire_ok d (freshness_to_json (freshness p))"
    using assms unfolding freshness_to_json_def by (intro wire_ok_members) (simp_all add: wire_values policy_small_def)
  show "wire_ok d (rule_to_json r)"
    using assms(3) unfolding rule_to_json_def by (intro wire_ok_members) (auto simp: wire_values list_all_iff)
qed

lemma wire_ok_policy:
  assumes "policy_small p" "policy_wire p"
  shows "wire_ok 0 (policy_to_json p)"
  unfolding policy_to_json_def using assms wire_ok_relief [of "max_relief_bytes p"]
  by (intro wire_ok_members) (auto simp: wire_values wire_ok_parts list_all_iff policy_small_def policy_wire_def)

section \<open>The default policy\<close>

lemma number_ok_unit: "0 \<le> x \<Longrightarrow> x \<le> 1 \<Longrightarrow> number_ok (fl x)"
proof -
  assume "0 \<le> x" "x \<le> 1"
  then obtain r where r: "fl x = Fin r" "r \<le> 1" using fl_in_unit [of x] by (auto simp: unit_double_def)
  then have "proper_double (fl x)" by (intro fl_proper) simp
  then show ?thesis using r by (simp add: number_ok_def)
qed

lemma number_ok_quarter: assumes "\<bar>m\<bar> \<le> 100" shows "number_ok (Fin (of_int m / 4))"
proof -
  have "of_int m * pow2 (- 2) = (of_int m / 4 :: rat)" by (simp add: pow2_def)
  moreover have "\<bar>m\<bar> \<le> 2 ^ 53" using assms by simp
  ultimately have "representable (of_int m / 4)" unfolding representable_def by (intro exI [of _ m] exI [of _ "- 2"]) simp
  then have "rnd64 (of_int m / 4) = of_int m / 4" by (rule rnd64_exact)
  moreover have "\<bar>of_int m / 4 :: rat\<bar> \<le> 100" using assms by simp
  moreover have "(100 :: rat) \<le> pow2 1023" using pow2_mono [of 7 1023] by (simp add: pow2_nat)
  ultimately have "fl (of_int m / 4) = Fin (of_int m / 4)" by (simp add: fl_Fin)
  moreover have "(of_int m / 4 :: rat) \<noteq> 2 ^ 63" using assms by auto
  ultimately show ?thesis by (simp add: number_ok_def proper_def)
qed

lemmas quarters = number_ok_quarter [of 0, simplified] number_ok_quarter [of 1, simplified] number_ok_quarter [of 2, simplified]
  number_ok_quarter [of 3, simplified] number_ok_quarter [of 4, simplified] number_ok_quarter [of 5, simplified]
  number_ok_quarter [of 8, simplified]

lemma default_policy_wire: "policy_small default_policy" "policy_wire default_policy" "sm_ok (role_weight (aggregate default_policy))"
  using quarters
  by (simp_all add: policy_small_def policy_wire_def policy_numbers_def Let_def default_policy_def PressurePolicy_init_def
      AggregateConfig_init_def FreshnessConfig_init_def Thresholds_init_def HysteresisConfig_init_def ScoreWeights_init_def
      number_ok_unit small_def)

lemma default_policy_dump: "json_dump (policy_to_json default_policy) \<noteq> None"
  using wire_reparse [OF wire_ok_policy [OF default_policy_wire(1,2)], of id, OF refl] by auto

end
