(* ===== verification/ProgramLaws.thy ===== *)
theory ProgramLaws imports CommandLineLaws PolicyText begin

text \<open>
  The program as a whole: every command line whose options have their values ends with success or with a message.
\<close>

section \<open>Options\<close>

definition value_options :: "string list" where
  "value_options = [''--scenario'', ''--steps'', ''--interval-ms'', ''--hard'', ''--emergency'', ''--domain'', ''--bytes'']"

definition complete :: "string list \<Rightarrow> bool" where
  "complete as \<longleftrightarrow> (as \<noteq> [] \<longrightarrow> last as \<notin> set value_options)"

lemma complete_rest: "complete (a # as) \<Longrightarrow> complete as"
  by (cases as) (simp_all add: complete_def)

lemma complete_tl: "complete as \<Longrightarrow> complete (tl as)"
  by (cases as) (auto intro: complete_rest simp: complete_def)

lemma take_value_complete:
  assumes "as \<noteq> []" "complete as" "flag \<in> set value_options"
  shows "\<exists>v l. take_value flag as = Some (v, l) \<and> l \<noteq> [] \<and> complete l \<and> length l \<le> length as"
  using assms by (induction flag as rule: take_value.induct) (auto dest: complete_rest, auto simp: complete_def)

lemma two_options_complete:
  assumes "complete as" "f \<in> set value_options" "g \<in> set value_options"
  shows "\<exists>r. two_options f g as x y = Some r"
  using assms
proof (induction "length as" arbitrary: as x y rule: less_induct)
  case less
  show ?case
  proof (cases "as = []")
    case True
    then show ?thesis by (simp add: two_options.simps)
  next
    case False
    obtain v l where v: "take_value f as = Some (v, l)" "l \<noteq> []" "complete l" "length l \<le> length as"
      using take_value_complete [OF False less.prems(1,2)] by blast
    obtain v' l' where v': "take_value g l = Some (v', l')" "l' \<noteq> []" "complete l'" "length l' \<le> length l"
      using take_value_complete [OF v(2,3) less.prems(3)] by blast
    have "length (tl l') < length as" using v v' by (cases l') auto
    then show ?thesis using less.hyps [of "tl l'"] less.prems(2,3) v(1) v'(1) False complete_tl [OF v'(3)]
      by (subst two_options.simps) simp
  qed
qed

lemma one_option_complete:
  assumes "complete as" "f \<in> set value_options"
  shows "\<exists>r. one_option f as x = Some r"
  using assms
proof (induction "length as" arbitrary: as x rule: less_induct)
  case less
  show ?case
  proof (cases "as = []")
    case True
    then show ?thesis by (simp add: one_option.simps)
  next
    case False
    obtain v l where v: "take_value f as = Some (v, l)" "l \<noteq> []" "complete l" "length l \<le> length as"
      using take_value_complete [OF False less.prems(1,2)] by blast
    have "length (tl l) < length as" using v by (cases l) auto
    then show ?thesis using less.hyps [of "tl l"] less.prems(2) v(1) False complete_tl [OF v(3)]
      by (subst one_option.simps) simp
  qed
qed

section \<open>Refreshing the machine\<close>

lemma refresh_all_total:
  assumes "rt_reachable (snd st)"
  shows "\<exists>snap now rt'. refresh_all m st = Some (snap, now, rt') \<and> rt_reachable rt'"
proof -
  obtain now rt where st: "st = (now, rt)" by (cases st)
  have "rt_inv rt" using assms st rt_reachable_inv by simp
  then obtain calls subs snap rt' where r: "refresh (machine_world m (now + 100)) (now + 100) rt = Some (calls, snap, rt')"
    using refresh_total by blast
  then have "rt_reachable rt'" using assms st rt_reachable.step rt_step.refresh by fastforce
  then show ?thesis using r st by (simp add: refresh_all_def Let_def)
qed

lemma first_refresh_total: "rt_reachable rt \<Longrightarrow> \<exists>snap rt'. first_refresh m rt = Some (snap, rt') \<and> rt_reachable rt'"
  using refresh_all_total [of "(1000000, rt)" m] by (auto simp: first_refresh_def)

lemma machine_reachable [simp]: "rt_reachable (register_windows_cuda PressureRuntime_new)"
  "rt_reachable (register_provider (Some ''storage'') (register_windows_cuda PressureRuntime_new))"
  "rt_reachable (snd (subscribe flt cb (register_windows_cuda PressureRuntime_new)))"
  unfolding register_windows_cuda_def
  by (intro rt_reachable.step [OF _ rt_step.provider] rt_reachable.step [OF _ rt_step.subscribe] rt_reachable.start)+

lemma watch_steps_total: "rt_reachable (snd st) \<Longrightarrow> \<exists>text. watch_steps m is st = Some text"
proof (induction "is" arbitrary: st)
  case (Cons i "is")
  obtain snap now rt' where "refresh_all m st = Some (snap, now, rt')" "rt_reachable rt'"
    using refresh_all_total [OF Cons.prems, of m] by blast
  then show ?case using Cons.IH [of "(now, rt')"] by auto
qed simp

section \<open>Every complete command line ends\<close>

text \<open>Success with nothing on the error stream, or exit code 1 with a message.\<close>

definition ends :: "Outcome option \<Rightarrow> bool" where
  "ends o' \<longleftrightarrow> (\<exists>oc. o' = Some oc \<and> (oc_code oc = 0 \<and> oc_err oc = [] \<or> oc_code oc = 1 \<and> oc_err oc \<noteq> []))"

lemma ends_simps [simp]: "ends (Some (success s))" "ends (Some (failure e))" "\<not> ends None"
  by (simp_all add: ends_def success_def failure_def endl_def)

lemma ends_map: "(\<And>x. v = Some x \<Longrightarrow> ends (Some (f x))) \<Longrightarrow> v \<noteq> None \<Longrightarrow> ends (map_option f v)"
  by auto

lemma value_options [simp]: "set value_options = {''--scenario'', ''--steps'', ''--interval-ms'', ''--hard'', ''--emergency'', ''--domain'', ''--bytes''}"
  by (simp add: value_options_def)

lemma benchmark_specs: "list_all spec_ok (sp_domains benchmark_provider)"
proof -
  have "spec_ok (benchmark_spec i)" if "i < 64" for i
  proof -
    have "ddiv (Fin (of_nat i)) (Fin 64) = fl (of_nat i / 64)" by simp
    moreover have "unit_double (fl (of_nat i / 64))" using that by (intro unit_fl) simp_all
    ultimately have "unit_double (spec_phase (benchmark_spec i))" by (simp add: benchmark_spec_def)
    then have "isfinite (spec_phase (benchmark_spec i)) \<and> dle (Fin 0) (spec_phase (benchmark_spec i))"
      by (auto simp: unit_double_def)
    then show ?thesis by (simp add: spec_ok_def) (simp add: benchmark_spec_def SyntheticDomainSpec_init_def unit_fl)
  qed
  then show ?thesis by (simp add: benchmark_provider_def SyntheticProvider_new_def list_all_iff)
qed

lemma benchmark_start:
  "sim_inv (DomainId 1 0) benchmark_provider (register_provider (Some ''synthetic'') PressureRuntime_new)"
proof -
  have "benchmark_spec 0 \<in> set (sp_domains benchmark_provider)" by (simp add: benchmark_provider_def SyntheticProvider_new_def)
  moreover have "spec_present (benchmark_spec 0)" "spec_id (benchmark_spec 0) = DomainId 1 0"
    by (simp_all add: benchmark_spec_def SyntheticDomainSpec_init_def)
  moreover have "rt_reachable (register_provider (Some ''synthetic'') PressureRuntime_new)"
    by (rule rt_reachable.step [OF rt_reachable.start rt_step.provider])
  moreover have "sp_tick benchmark_provider = 0" "0 < sp_failure_after_steps benchmark_provider"
    by (simp_all add: benchmark_provider_def SyntheticProvider_new_def)
  ultimately show ?thesis using benchmark_specs by (auto simp: sim_inv_def simulated_fields)
qed

lemma benchmark_ends: "ends (benchmark_command m)"
proof -
  let ?rt = "register_provider (Some ''synthetic'') PressureRuntime_new"
  have g: "rt_generation ?rt = 0" "sn_generation (rt_current_snapshot ?rt) = 0" by (simp_all add: simulated_fields)
  obtain sp rt where r: "refreshes (m_latency_us m) 1000 (map of_nat [0..<5]) (benchmark_provider, ?rt) = Some (sp, rt)"
    "sim_inv (DomainId 1 0) sp rt" "rt_generation rt = sn_generation (rt_current_snapshot rt)" "unat (rt_generation rt) \<le> 5"
    using refreshes_total [OF benchmark_start, of "map of_nat [0..<5]" "m_latency_us m" 1000] g by auto
  have "unat (rt_generation rt) + length (map of_nat [0..<200] :: u64 list) < 2 ^ 64" using r(4) by simp
  from refreshes_total [OF r(2,3) this, of "m_latency_us m" 10000]
  obtain st where "refreshes (m_latency_us m) 10000 (map of_nat [0..<200]) (sp, rt) = Some st" by blast
  then show ?thesis using r(1) by (simp add: benchmark_command_def)
qed

lemma machine_ends:
  "ends (observe_command m)" "ends (domains_command m)" "ends (pressure_command m)" "\<not> json_flag as \<Longrightarrow> ends (status_command m as)"
  using first_refresh_total [OF machine_reachable(1), of m] first_refresh_total [OF machine_reachable(2), of m]
  by (auto simp: observe_command_def domains_command_def pressure_command_def status_command_def)

lemma watch_ends: assumes "complete as" shows "ends (watch_command m as)"
proof -
  obtain steps interval where "two_options ''--steps'' ''--interval-ms'' as None None = Some (steps, interval)"
    using two_options_complete [OF assms, of "''--steps''" "''--interval-ms''" None None] by auto
  moreover have "\<exists>text. watch_steps m (map of_nat [0..<unat (len_or 10 steps)]) (1000000, register_windows_cuda PressureRuntime_new) = Some text"
    by (rule watch_steps_total) simp
  ultimately show ?thesis by (auto simp: watch_command_def)
qed

lemma budget_ends:
  assumes "complete as"
  shows "ends (budget_command as)"
proof -
  have "complete rest" if "as = flag # domain # rest" for flag domain rest
    using assms that complete_rest by blast
  then show ?thesis using two_options_complete [of _ "''--hard''" "''--emergency''" None None]
    by (fastforce simp: budget_command_def Let_def split: list.splits option.splits)
qed

lemma query_ends:
  assumes "complete as"
  shows "ends (admit_command m as)" "ends (explain_command m as)"
  using assms two_options_complete [of as "''--domain''" "''--bytes''" None None] one_option_complete [of as "''--domain''" None]
    first_refresh_total [OF machine_reachable(1), of m]
  by (auto simp: admit_command_def explain_command_def Let_def split: option.split)

lemma events_ends: "\<not> json_flag as \<Longrightarrow> ends (events_command m as)"
proof -
  assume j: "\<not> json_flag as"
  obtain k rt where s: "subscribe SubscriptionFilter_init False (register_windows_cuda PressureRuntime_new) = (k, rt)" by fastforce
  then have "rt_reachable rt" using machine_reachable(3) by (metis snd_conv)
  then obtain snap rt' where "first_refresh m rt = Some (snap, rt')" using first_refresh_total by blast
  moreover have "those (map (event_text False) es) \<noteq> None" for es
    by (induction es) (auto simp: event_text_def)
  ultimately show ?thesis using s j by (auto simp: events_command_def Let_def intro!: ends_map)
qed

lemma stats_ends: "\<not> json_flag as \<Longrightarrow> ends (stats_command m as)"
proof -
  assume j: "\<not> json_flag as"
  obtain s1 n1 r1 where 1: "refresh_all m (1000000, register_windows_cuda PressureRuntime_new) = Some (s1, n1, r1)" "rt_reachable r1"
    using refresh_all_total [of "(1000000, register_windows_cuda PressureRuntime_new)" m] by auto
  obtain s2 n2 r2 where 2: "refresh_all m (n1, r1) = Some (s2, n2, r2)" "rt_reachable r2"
    using refresh_all_total [of "(n1, r1)" m] 1(2) by auto
  obtain s3 n3 r3 where 3: "refresh_all m (n2, r2) = Some (s3, n3, r3)"
    using refresh_all_total [of "(n2, r2)" m] 2(2) by auto
  show ?thesis using 1(1) 2(1) 3 j by (simp add: stats_command_def Let_def)
qed

lemma usage_ends: "ends (Some \<lparr>oc_out = usage, oc_err = ''unknown command: '' @ cmd @ endl, oc_code = 1\<rparr>)"
  by (simp add: ends_def)

lemma policy_ends: "ends policy_command"
  using default_policy_dump by (auto simp: policy_command_def)

lemma simulate_ends: "complete as \<Longrightarrow> ends (simulate_command m as)"
proof -
  assume "complete as"
  then obtain scen steps where "two_options ''--scenario'' ''--steps'' as None None = Some (scen, steps)"
    using two_options_complete [of as "''--scenario''" "''--steps''" None None] by auto
  from simulate_lines_total [OF this, of m] show ?thesis by (auto simp: simulate_command_def)
qed

lemma selftest_ends: "ends (selftest_command m)"
  using selftest_run [of m] by (auto simp: ends_def)

text \<open>
  C17. The program is total on complete command lines: whatever the machine answers (no provider, failing calls, any readings), a
  command line in which no option stands last without its value, and which does not ask for JSON, neither meets undefined behaviour nor
  runs forever; it exits with 0 and an empty error stream, or with 1 and a message. The bound on the options is
  exact for the commands that read them: a last option without its value is undefined.
\<close>

theorem program_total:
  assumes "complete as" "\<not> json_flag as"
  shows "ends (main_program m (cmd # as)) \<and> main_program m [''simulate'', ''--steps''] = None"
proof -
  have "two_options ''--scenario'' ''--steps'' [''--steps''] None None = None"
    by (simp add: two_options.simps [of _ _ "c # cs" for c cs])
  then have "main_program m [''simulate'', ''--steps''] = None"
    by (simp add: main_program_def simulate_command_def simulate_lines_def)
  moreover have "ends (main_program m (cmd # as))"
    using watch_ends [OF assms(1)] budget_ends [OF assms(1)] query_ends [OF assms(1)] simulate_ends [OF assms(1)]
      machine_ends(4) [OF assms(2)] events_ends [OF assms(2)] stats_ends [OF assms(2)]
      machine_ends(1,2,3) policy_ends selftest_ends benchmark_ends usage_ends
    unfolding main_program_def info_command_def Let_def list.case by (auto split: if_splits simp del: append.simps)
  ultimately show ?thesis by simp
qed

lemma program_total_witness: "ends (main_program idle_machine [''admit'', ''--domain'', ''0''])"
  using program_total [of "[''--domain'', ''0'']" idle_machine "''admit''"] by (simp add: complete_def json_flag_def)

end
