(* ===== verification/CudaLibrary.thy ===== *)
theory CudaLibrary imports Decimal "HOL-Library.Sublist" begin

text \<open>
  providers/cuda.cpp, \<open>find_cudart\<close>: which CUDA runtime library the provider loads. The loader and the file system are parameters.
  A wide string is a string here: the names that the code looks for are ASCII.
\<close>

section \<open>Search in strings\<close>

text \<open>\<open>s.find(t, from)\<close>: the first position from \<open>from\<close> on at which \<open>t\<close> starts.\<close>

definition find_from :: "nat \<Rightarrow> string \<Rightarrow> string \<Rightarrow> nat option" where
  "find_from k t s = find (\<lambda>i. prefix t (drop i s)) [k..<Suc (length s)]"

text \<open>\<open>std::stoi\<close>: white space, a sign and digits; it throws when there is no digit and when the value does not fit an \<open>int\<close>.\<close>

definition stoi :: "string \<Rightarrow> int option" where
  "stoi s =
    (let s1 = dropWhile (\<lambda>c. c \<in> {CHR '' '', CHR 0x09, CHR 0x0A, CHR 0x0B, CHR 0x0C, CHR 0x0D}) s;
         signed = (s1 \<noteq> [] \<and> (hd s1 = CHR ''-'' \<or> hd s1 = CHR ''+''));
         ds = takeWhile (\<lambda>c. digit_value c \<noteq> None) (if signed then tl s1 else s1)
     in case undec ds of None \<Rightarrow> None
       | Some n \<Rightarrow> let v = (if signed \<and> hd s1 = CHR ''-'' then - int n else int n)
           in if - (2 ^ 31) \<le> v \<and> v < 2 ^ 31 then Some v else None)"

section \<open>Candidates\<close>

record FileSystem =
  fs_exists :: "string \<Rightarrow> bool"
  fs_is_directory :: "string \<Rightarrow> bool"
  fs_entries :: "string \<Rightarrow> string list"

text \<open>
  \<open>p / name\<close>; and the directories that are searched. The second name is spelled with the escape \<open>x64\<close>, the letter d.
\<close>

definition path_join :: "string \<Rightarrow> string \<Rightarrow> string" where
  "path_join p name = p @ [CHR 0x5C] @ name"

definition toolkit_base :: string where
  "toolkit_base = path_join (path_join (path_join ''C:'' ''Program Files'') ''NVIDIA GPU Computing Toolkit'') ''CUDA''"

definition bin_names :: "string list" where
  "bin_names = [''bin'', ''bind'']"

definition cudart_name :: "string \<Rightarrow> bool" where
  "cudart_name name \<longleftrightarrow> find_from 0 ''cudart64_'' name = Some 0 \<and> find_from 0 ''.dll'' name \<noteq> None"

definition toolkit_candidates :: "FileSystem \<Rightarrow> string list" where
  "toolkit_candidates fs =
    concat (map (\<lambda>it. if \<not> fs_is_directory fs (path_join toolkit_base it) then []
        else concat (map (\<lambda>sub. let bin = path_join (path_join toolkit_base it) sub in
          map (path_join bin) (filter cudart_name (fs_entries fs bin))) bin_names))
      (fs_entries fs toolkit_base))"

definition version_of :: "string \<Rightarrow> int" where
  "version_of p =
    (case find_from 0 ''cudart64_'' p of None \<Rightarrow> 0
     | Some s \<Rightarrow>
       let e = (case find_from s ''.dll'' p of None \<Rightarrow> length p | Some e \<Rightarrow> e);
           num = take (e - (s + 9)) (drop (s + 9) p)
       in case stoi num of None \<Rightarrow> 0 | Some v \<Rightarrow> v)"

text \<open>A loop that returns the first handle.\<close>

fun first_loaded :: "(string \<Rightarrow> 'h option) \<Rightarrow> string list \<Rightarrow> 'h option" where
  "first_loaded load [] = None"
| "first_loaded load (n # ns) = (case load n of Some h \<Rightarrow> Some h | None \<Rightarrow> first_loaded load ns)"

definition plain_names :: "string list" where
  "plain_names = [''cudart64_13.dll'', ''cudart64_12.dll'', ''cudart64_11.dll'']"

definition find_cudart :: "(string \<Rightarrow> 'h option) \<Rightarrow> FileSystem \<Rightarrow> 'h option" where
  "find_cudart load fs =
    (case first_loaded load plain_names of
       Some h \<Rightarrow> Some h
     | None \<Rightarrow> if fs_exists fs toolkit_base
         then first_loaded load (sort_key (\<lambda>p. - version_of p) (toolkit_candidates fs)) else None)"

section \<open>Which library is found\<close>

lemma first_loaded_None: "first_loaded load ns = None \<longleftrightarrow> (\<forall>n \<in> set ns. load n = None)"
  by (induction ns) (auto split: option.split)

lemma first_loaded_filter: "first_loaded load ns = (case filter (\<lambda>n. load n \<noteq> None) ns of [] \<Rightarrow> None | n # _ \<Rightarrow> load n)"
  by (induction ns) (auto split: option.split)

text \<open>The version starts behind the name: the difference of the positions does not wrap.\<close>

lemma find_from_SomeD: "find_from k t s = Some i \<Longrightarrow> k \<le> i \<and> prefix t (drop i s)"
  unfolding find_from_def by (auto simp: find_Some_iff simp del: upt_Suc)

lemma version_position:
  assumes "find_from 0 ''cudart64_'' p = Some s" "find_from s ''.dll'' p = Some e"
  shows "s + 9 \<le> e"
proof (rule ccontr)
  assume "\<not> s + 9 \<le> e"
  then obtain k where k: "e = s + k" "k < 9" using find_from_SomeD [OF assms(2)] by (auto simp: le_iff_add)
  obtain r where r: "drop s p = ''cudart64_'' @ r" using find_from_SomeD [OF assms(1)] by (auto simp: prefix_def)
  have "drop e p = drop k (''cudart64_'' @ r)" unfolding k(1) r [symmetric] by (simp add: add.commute)
  then have "prefix ''.dll'' (drop k (''cudart64_'' @ r))" using find_from_SomeD [OF assms(2)] by simp
  moreover have "k \<in> {0, 1, 2, 3, 4, 5, 6, 7, 8}" using k(2) by auto
  ultimately show False by auto
qed

text \<open>The head of a list that is sorted by falling keys: the first of the largest.\<close>

lemma sorted_head:
  fixes f :: "'a \<Rightarrow> int"
  assumes "filter P (sort_key (\<lambda>p. - f p) xs) = p # ps"
  shows "P p" "\<And>q. q \<in> set xs \<Longrightarrow> P q \<Longrightarrow> f q \<le> f p" "\<exists>qs. [q \<leftarrow> xs. P q \<and> f q = f p] = p # qs"
proof -
  let ?ys = "sort_key (\<lambda>p. - f p) xs"
  have set: "set (p # ps) = {q \<in> set xs. P q}" unfolding assms [symmetric] by auto
  have sorted: "sorted (map (\<lambda>p. - f p) (p # ps))" unfolding assms [symmetric] by (rule sorted_filter) simp
  show "P p" using set by auto
  show "f q \<le> f p" if "q \<in> set xs" "P q" for q
  proof -
    have "q \<in> set (p # ps)" unfolding set using that by simp
    then show ?thesis using sorted by auto
  qed
  have "[q \<leftarrow> xs. P q \<and> f q = f p] = filter P [q \<leftarrow> xs. - f q = - f p]" by (simp add: conj_commute)
  also have "[q \<leftarrow> xs. - f q = - f p] = [q \<leftarrow> ?ys. - f q = - f p]" by (rule sort_key_stable [symmetric])
  also have "filter P [q \<leftarrow> ?ys. - f q = - f p] = [q \<leftarrow> filter P ?ys. f q = f p]" by (simp add: conj_commute)
  finally show "\<exists>qs. [q \<leftarrow> xs. P q \<and> f q = f p] = p # qs" unfolding assms by simp
qed

lemma cudart_none: "find_cudart load fs = None \<longleftrightarrow> (\<forall>n \<in> set plain_names. load n = None) \<and>
    (fs_exists fs toolkit_base \<longrightarrow> (\<forall>p \<in> set (toolkit_candidates fs). load p = None))"
proof (cases "first_loaded load plain_names")
  case None
  then have "find_cudart load fs = (if fs_exists fs toolkit_base
      then first_loaded load (sort_key (\<lambda>p. - version_of p) (toolkit_candidates fs)) else None)" by (simp only: find_cudart_def option.case)
  moreover have "\<forall>n \<in> set plain_names. load n = None" using None unfolding first_loaded_None .
  ultimately show ?thesis by (simp add: first_loaded_None)
next
  case (Some h)
  then show ?thesis using first_loaded_None [of load plain_names] by (auto simp: find_cudart_def)
qed

text \<open>
  C40. The search for the CUDA runtime beyond the plain names: the library that is taken from the toolkit directory loads, no other
  candidate that loads has a larger version number, and among those with its number it is the first in the order
  of the directories. The number is that of the file name, so 101 (toolkit 10.1) goes before 12.
\<close>

theorem cudart_selection:
  assumes "\<forall>n \<in> set plain_names. load n = None" "find_cudart load fs = Some h"
  shows "\<exists>p ps. load p = Some h \<and> [q \<leftarrow> toolkit_candidates fs. load q \<noteq> None \<and> version_of q = version_of p] = p # ps \<and>
    (\<forall>q \<in> set (toolkit_candidates fs). load q \<noteq> None \<longrightarrow> version_of q \<le> version_of p)"
proof -
  let ?ys = "sort_key (\<lambda>p. - version_of p) (toolkit_candidates fs)"
  have "first_loaded load plain_names = None" using assms(1) by (simp add: first_loaded_None)
  then have "first_loaded load ?ys = Some h" using assms(2) by (auto simp: find_cudart_def split: if_splits)
  then obtain p ps where p: "filter (\<lambda>q. load q \<noteq> None) ?ys = p # ps" "load p = Some h"
    by (auto simp: first_loaded_filter split: list.splits)
  then show ?thesis using sorted_head(2,3) [OF p(1)] by blast
qed

definition two_toolkits :: FileSystem where
  "two_toolkits = \<lparr>fs_exists = (\<lambda>_. True), fs_is_directory = (\<lambda>_. True),
     fs_entries = (\<lambda>p. if p = toolkit_base then [''v12'', ''v10''] else if p = path_join (path_join toolkit_base ''v12'') ''bin''
       then [''cudart64_12.dll''] else if p = path_join (path_join toolkit_base ''v10'') ''bin'' then [''cudart64_101.dll'', ''readme''] else [])\<rparr>"

definition toolkit_loader :: "string \<Rightarrow> nat option" where
  "toolkit_loader p = (if length p < 20 then None else Some (length p))"

lemma cudart_selection_witness:
  "\<exists>p. toolkit_loader p = find_cudart toolkit_loader two_toolkits \<and> version_of p = 101"
proof -
  have plain: "\<forall>n \<in> set plain_names. toolkit_loader n = None" by (simp add: plain_names_def toolkit_loader_def)
  have c: "toolkit_candidates two_toolkits = [path_join (path_join (path_join toolkit_base ''v12'') ''bin'') ''cudart64_12.dll'',
      path_join (path_join (path_join toolkit_base ''v10'') ''bin'') ''cudart64_101.dll'']" by code_simp
  have v: "map version_of (toolkit_candidates two_toolkits) = [12, 101]" by code_simp
  obtain h where h: "find_cudart toolkit_loader two_toolkits = Some h"
    using cudart_none [of toolkit_loader two_toolkits] unfolding c
    by (cases "find_cudart toolkit_loader two_toolkits") (auto simp: two_toolkits_def toolkit_loader_def path_join_def toolkit_base_def)
  from cudart_selection [OF plain h] obtain p ps where p: "toolkit_loader p = Some h"
    "[q \<leftarrow> toolkit_candidates two_toolkits. toolkit_loader q \<noteq> None \<and> version_of q = version_of p] = p # ps"
    "\<forall>q \<in> set (toolkit_candidates two_toolkits). toolkit_loader q \<noteq> None \<longrightarrow> version_of q \<le> version_of p" by blast
  let ?old = "path_join (path_join (path_join toolkit_base ''v10'') ''bin'') ''cudart64_101.dll''"
  have "toolkit_loader ?old \<noteq> None" by (simp add: toolkit_loader_def path_join_def toolkit_base_def)
  then have "101 \<le> version_of p" using p(3) v unfolding c by simp
  moreover have "p \<in> set (toolkit_candidates two_toolkits)" using arg_cong [OF p(2), of set] by auto
  then have "version_of p \<in> {12, 101}" using v unfolding c by auto
  ultimately show ?thesis using p(1) h by auto
qed

end
