(* ===== verification/PolicyRace.thy ===== *)
theory PolicyRace imports CommandLineLaws begin

text \<open>
  \<open>set_policy\<close> in its two critical steps. The model of \<open>Runtime\<close> has it as one step; the source gives the mutex of the refresh back
  after the reset of the debouncers and before the exchange of the policy pointer, and an operation can run in between.
\<close>

section \<open>The two steps\<close>

definition policy_reset :: "PressurePolicy \<Rightarrow> PressureRuntime \<Rightarrow> PressureRuntime" where
  "policy_reset p rt = rt\<lparr>rt_domain_states := (\<lambda>i. map_option (\<lambda>st. st\<lparr>drs_hysteresis := HysteresisState_new (hysteresis p)\<rparr>)
     (rt_domain_states rt i))\<rparr>"

definition policy_commit :: "PressurePolicy \<Rightarrow> PressureRuntime \<Rightarrow> PressureRuntime" where
  "policy_commit p rt = rt\<lparr>rt_policy := p,
     rt_stats := (rt_stats rt)\<lparr>st_policy_changes := st_policy_changes (rt_stats rt) + 1\<rparr>\<rparr>"

lemma set_policy_steps: "validate_policy p = None \<Longrightarrow> snd (set_policy p rt) = policy_commit p (policy_reset p rt)"
  by (simp add: set_policy_def policy_commit_def policy_reset_def)

lemma policy_reset_empty: "rt_domain_states rt = Map.empty \<Longrightarrow> policy_reset p rt = rt"
  by (simp add: policy_reset_def)

text \<open>A state with a debouncer of another configuration is beyond the reach of the atomic operations.\<close>

lemma unreachable_config:
  assumes "rt_domain_states rt i = Some st" "hs_cfg (drs_hysteresis st) \<noteq> hysteresis (rt_policy rt)"
  shows "\<not> rt_reachable rt"
  using assms rt_reachable_inv by (auto simp: rt_inv_def states_ok_def drs_ok_def)

section \<open>The states of observed domains\<close>

lemma interpret_states: "dom (cy_states (fold (interpret_observation p b now prov) os cy)) = obs_id ` set os \<union> dom (cy_states cy)"
  by (induction os arbitrary: cy) (auto simp: interpret_observation_def Let_def split_beta)

lemma interpret_batches_states:
  "dom (cy_states (fold (\<lambda>(prov, obs). fold (interpret_observation p b now prov) obs) xs cy)) =
    \<Union> ((\<lambda>x. obs_id ` set (snd x)) ` set xs) \<union> dom (cy_states cy)"
proof (induction xs arbitrary: cy)
  case (Cons x xs)
  show ?case by (simp only: fold_simps(2) split_beta Cons.IH [unfolded split_beta] interpret_states) auto
qed simp

lemma interpreted_states: "set (observed_ids (polled w rt)) \<subseteq> dom (cy_states (interpreted w now rt))"
  unfolding interpreted_def interpret_all_def interpret_batches_states
  by (auto simp: poll_all_def poll_fold polled_def cycle_start_def observed_ids_def)

lemma first_states:
  assumes "rt_reachable rt" "refresh w now rt = Some (calls, snap, rt')" "sn_domains (rt_current_snapshot rt) = []"
    and "i \<in> set (observed_ids (polled w rt))"
  shows "\<exists>st. rt_domain_states rt' i = Some st \<and> hs_cfg (drs_hysteresis st) = hysteresis (rt_policy rt)"
proof -
  have inv: "rt_inv rt" using assms(1) by (rule rt_reachable_inv)
  from refreshE [OF inv assms(2)] obtain subs where rt': "rt' = publish w snap (refresh_cycle w now rt) subs rt" by metis
  have pol: "rt_policy rt' = rt_policy rt" unfolding rt' by (simp add: publish_def)
  have "rt_inv rt'" using assms(1,2) rt_reachable_inv rt_reachable.step rt_step.refresh by blast
  moreover have "i \<in> dom (cy_states (interpreted w now rt))" using assms(4) interpreted_states by blast
  then have "i \<in> dom (rt_domain_states rt')"
    unfolding rt' using assms(3) by (auto simp: publish_def refresh_cycle_def observe_cycle_states)
  ultimately show ?thesis using pol by (auto simp: rt_inv_def states_ok_def drs_ok_def)
qed

section \<open>Not atomic\<close>

text \<open>
  C16. Changing the policy is not atomic: let the first refresh of a runtime run between the two steps of \<open>set_policy\<close>, as the mutexes
  allow, with a policy of another hysteresis configuration. Then the runtime has the new policy, but every domain of that refresh runs
  under the old configuration; and no sequence of whole operations, in any order, leads to this state, while both orders of the two
  operations lead to reachable ones.
\<close>

theorem set_policy_not_atomic:
  assumes "rt_reachable rt" "rt_domain_states rt = Map.empty" "sn_domains (rt_current_snapshot rt) = []"
    and "validate_policy p = None" "hysteresis p \<noteq> hysteresis (rt_policy rt)"
    and "refresh w now (policy_reset p rt) = Some (calls, snap, rt')" "i \<in> set (observed_ids (polled w rt))"
  shows "rt_policy (policy_commit p rt') = p \<and>
    (\<exists>st. rt_domain_states (policy_commit p rt') i = Some st \<and> hs_cfg (drs_hysteresis st) = hysteresis (rt_policy rt)) \<and>
    \<not> rt_reachable (policy_commit p rt') \<and> rt_reachable (snd (set_policy p rt')) \<and> rt_reachable (snd (set_policy p rt))"
proof -
  have r: "refresh w now rt = Some (calls, snap, rt')" using assms(2,6) by (simp add: policy_reset_empty)
  obtain st where st: "rt_domain_states rt' i = Some st" "hs_cfg (drs_hysteresis st) = hysteresis (rt_policy rt)"
    using first_states [OF assms(1) r assms(3,7)] by blast
  then have s: "rt_domain_states (policy_commit p rt') i = Some st" "rt_policy (policy_commit p rt') = p" by (simp_all add: policy_commit_def)
  have "\<not> rt_reachable (policy_commit p rt')" using unreachable_config [OF s(1)] s(2) st(2) assms(5) by simp
  moreover have "rt_reachable rt'" using assms(1) r rt_reachable.step rt_step.refresh by blast
  ultimately show ?thesis using s st(2) assms(1) rt_reachable.step rt_step.policy by blast
qed

text \<open>Two policy changes at once leave the policy of one with the debouncers of the other.\<close>

lemma set_policy_twice:
  assumes "rt_domain_states rt i = Some st" "hysteresis p \<noteq> hysteresis q"
  shows "\<not> rt_reachable (policy_commit p (policy_commit q (policy_reset q (policy_reset p rt))))"
  by (rule unreachable_config [of _ i "st\<lparr>drs_hysteresis := HysteresisState_new (hysteresis q)\<rparr>"])
     (use assms in \<open>simp_all add: policy_commit_def policy_reset_def HysteresisState_new_def\<close>)

definition slow_policy :: PressurePolicy where
  "slow_policy = default_policy\<lparr>hysteresis := HysteresisConfig_init\<lparr>min_dwell_observations := 7\<rparr>\<rparr>"

definition one_sample :: ProviderSample where
  "one_sample = \<lparr>sample_status = PS_Healthy, sample_observations = [DomainObservation_init\<lparr>obs_id := DomainId 1 1\<rparr>],
     sample_error = [], sampled_at_ms = 5\<rparr>"

lemma set_policy_not_atomic_witness: "\<exists>rt. \<not> rt_reachable (policy_commit slow_policy rt) \<and> rt_reachable (snd (set_policy slow_policy rt))"
proof -
  let ?rt = "register_provider (Some ''synthetic'') PressureRuntime_new" and ?w = "synthetic_world 0 one_sample"
  have r: "rt_reachable ?rt" by (rule rt_reachable.step [OF rt_reachable.start rt_step.provider])
  have e: "rt_domain_states ?rt = Map.empty" "sn_domains (rt_current_snapshot ?rt) = []" "rt_policy ?rt = default_policy"
    by (simp_all add: register_provider_def PressureRuntime_new_def Snapshot_init_def)
  have p: "validate_policy slow_policy = None" "hysteresis slow_policy \<noteq> hysteresis (rt_policy ?rt)"
    using default_policy_valid unfolding e(3)
    by (simp_all add: validate_policy_None slow_policy_def default_policy_def PressurePolicy_init_def HysteresisConfig_init_def)
  obtain calls snap rt' where f: "refresh ?w 5 (policy_reset slow_policy ?rt) = Some (calls, snap, rt')"
    using refresh_total [OF rt_reachable_inv [OF r], of ?w 5] e(1) by (auto simp: policy_reset_empty)
  have "DomainId 1 1 \<in> set (observed_ids (polled ?w ?rt))"
    by (simp add: synthetic_polled simulated_fields one_sample_def observed_ids_def)
  from set_policy_not_atomic [OF r e(1,2) p f this] show ?thesis by blast
qed

end
