(* ===== verification/Locks.thy ===== *)
theory Locks imports Main begin

text \<open>
  Threads, mutexes and shared members: what a piece of code does to them as a small command language, its runs, the interleavings
  of several threads, and a static check that excludes data races and deadlocks.
\<close>

section \<open>Mutexes, members and events\<close>

text \<open>The mutexes of runtime.h and that of each subscription (events.h).\<close>

datatype Mutex = RefreshMutex | RegistryMutex | ConfigMutex | CurrentMutex | StatsMutex | SubMutex nat

text \<open>The members that operations share; the members of a subscription carry its handle.\<close>

datatype Field = PolicyPtr | CurrentSnapshot | History | HistoryLimit | Budgets | Providers | DomainStates | ProviderHealth
  | Subscriptions | Generation | SnapshotId | EventId | Stats
  | SubQueue nat | SubClosed nat | SubCallback nat | SubCounters nat

datatype Event = Lock Mutex | Unlock Mutex | Read Field | Write Field

section \<open>Code and its runs\<close>

text \<open>
  \<open>Guard m c\<close> is a scope with a \<open>lock_guard\<close>; \<open>Opt c\<close> may be skipped (a branch, or what follows an early return) and \<open>Loop c\<close> runs
  any number of times.
\<close>

datatype Code = Skip | Rd Field | Wr Field | Guard Mutex Code | Seq Code Code | Opt Code | Loop Code

inductive runs :: "Code \<Rightarrow> Event list \<Rightarrow> bool" where
  skip: "runs Skip []"
| rd: "runs (Rd f) [Read f]"
| wr: "runs (Wr f) [Write f]"
| guard: "runs c es \<Longrightarrow> runs (Guard m c) (Lock m # es @ [Unlock m])"
| seq: "runs c es \<Longrightarrow> runs d fs \<Longrightarrow> runs (Seq c d) (es @ fs)"
| opt_no: "runs (Opt c) []"
| opt_yes: "runs c es \<Longrightarrow> runs (Opt c) es"
| loop_end: "runs (Loop c) []"
| loop_more: "runs c es \<Longrightarrow> runs (Loop c) fs \<Longrightarrow> runs (Loop c) (es @ fs)"

definition block :: "Code list \<Rightarrow> Code" where
  "block cs = foldr Seq cs Skip"

lemma block_simps [simp]: "block [] = Skip" "block (c # cs) = Seq c (block cs)"
  by (simp_all add: block_def)

section \<open>Threads\<close>

text \<open>What every thread has left to do, and the owner of each mutex, which is not recursive.\<close>

type_synonym Config = "Event list list \<times> (Mutex \<Rightarrow> nat option)"

inductive step :: "Config \<Rightarrow> Config \<Rightarrow> bool" where
  lock: "i < length ts \<Longrightarrow> ts ! i = Lock m # es \<Longrightarrow> own m = None \<Longrightarrow> step (ts, own) (ts[i := es], own(m := Some i))"
| unlock: "i < length ts \<Longrightarrow> ts ! i = Unlock m # es \<Longrightarrow> own m = Some i \<Longrightarrow> step (ts, own) (ts[i := es], own(m := None))"
| read: "i < length ts \<Longrightarrow> ts ! i = Read f # es \<Longrightarrow> step (ts, own) (ts[i := es], own)"
| store: "i < length ts \<Longrightarrow> ts ! i = Write f # es \<Longrightarrow> step (ts, own) (ts[i := es], own)"

inductive steps :: "nat \<Rightarrow> Config \<Rightarrow> Config \<Rightarrow> bool" where
  refl: "steps 0 c c"
| more: "step c c' \<Longrightarrow> steps n c' c'' \<Longrightarrow> steps (Suc n) c c''"

definition start :: "Event list list \<Rightarrow> Config" where
  "start ts = (ts, \<lambda>_. None)"

text \<open>Two threads are about to access a member, and one of them writes.\<close>

definition accesses :: "Field \<Rightarrow> Event list \<Rightarrow> bool" where
  "accesses f es \<longleftrightarrow> (\<exists>r. es = Read f # r \<or> es = Write f # r)"

definition race :: "Field \<Rightarrow> Config \<Rightarrow> bool" where
  "race f c \<longleftrightarrow> (\<exists>i j r. i < length (fst c) \<and> j < length (fst c) \<and> i \<noteq> j \<and> fst c ! i = Write f # r \<and> accesses f (fst c ! j))"

definition finished :: "Config \<Rightarrow> bool" where
  "finished c \<longleftrightarrow> (\<forall>es \<in> set (fst c). es = [])"

section \<open>The static check\<close>

text \<open>The order in which mutexes may be taken, and the mutexes that a member needs: all to write, one of them to read.\<close>

fun rank :: "Mutex \<Rightarrow> nat" where
  "rank RefreshMutex = 0"
| "rank RegistryMutex = 1"
| "rank ConfigMutex = 1"
| "rank CurrentMutex = 1"
| "rank StatsMutex = 1"
| "rank (SubMutex k) = 2"

fun guards :: "Field \<Rightarrow> Mutex list" where
  "guards CurrentSnapshot = [RefreshMutex, CurrentMutex]"
| "guards History = [RefreshMutex, CurrentMutex]"
| "guards HistoryLimit = [CurrentMutex]"
| "guards Budgets = [ConfigMutex]"
| "guards Providers = [RegistryMutex]"
| "guards Subscriptions = [RegistryMutex]"
| "guards Stats = [StatsMutex]"
| "guards (SubQueue k) = [SubMutex k]"
| "guards (SubClosed k) = [SubMutex k]"
| "guards (SubCallback k) = [SubMutex k]"
| "guards (SubCounters k) = [SubMutex k]"
| "guards f = [RefreshMutex]"

lemma guards_not_Nil [simp]: "guards f \<noteq> []"
  by (cases f) simp_all

text \<open>Code under the mutexes \<open>H\<close>, apart from the members \<open>X\<close>.\<close>

fun safe :: "Field set \<Rightarrow> Mutex list \<Rightarrow> Code \<Rightarrow> bool" where
  "safe X H Skip = True"
| "safe X H (Rd f) = (f \<in> X \<or> (\<exists>m \<in> set (guards f). m \<in> set H))"
| "safe X H (Wr f) = (f \<in> X \<or> set (guards f) \<subseteq> set H)"
| "safe X H (Guard m c) = ((\<forall>h \<in> set H. rank h < rank m) \<and> safe X (m # H) c)"
| "safe X H (Seq c d) = (safe X H c \<and> safe X H d)"
| "safe X H (Opt c) = safe X H c"
| "safe X H (Loop c) = safe X H c"

lemma safe_block [simp]: "safe X H (block cs) \<longleftrightarrow> (\<forall>c \<in> set cs. safe X H c)"
  by (induction cs) auto

lemma safe_mono: "safe X H c \<Longrightarrow> X \<subseteq> Y \<Longrightarrow> safe Y H c"
  by (induction c arbitrary: H) auto

text \<open>The same of the events that a thread has left, which end without a mutex.\<close>

fun ordered :: "Field set \<Rightarrow> Mutex set \<Rightarrow> Event list \<Rightarrow> bool" where
  "ordered X H [] = (H = {})"
| "ordered X H (Lock m # es) = ((\<forall>h \<in> H. rank h < rank m) \<and> ordered X (insert m H) es)"
| "ordered X H (Unlock m # es) = (m \<in> H \<and> ordered X (H - {m}) es)"
| "ordered X H (Read f # es) = ((f \<in> X \<or> set (guards f) \<inter> H \<noteq> {}) \<and> ordered X H es)"
| "ordered X H (Write f # es) = ((f \<in> X \<or> set (guards f) \<subseteq> H) \<and> ordered X H es)"

lemma safe_ordered: "runs c es \<Longrightarrow> safe X H c \<Longrightarrow> ordered X (set H) rest \<Longrightarrow> ordered X (set H) (es @ rest)"
proof (induction arbitrary: H rest rule: runs.induct)
  case (guard c es m)
  have "m \<notin> set H" using guard.prems(1) by auto
  then show ?case using guard.IH [of "m # H" "Unlock m # rest"] guard.prems by auto
qed auto

section \<open>Races and deadlocks\<close>

definition held :: "(Mutex \<Rightarrow> nat option) \<Rightarrow> nat \<Rightarrow> Mutex set" where
  "held own i = {m. own m = Some i}"

definition good :: "Field set \<Rightarrow> Config \<Rightarrow> bool" where
  "good X c \<longleftrightarrow> (\<forall>i < length (fst c). ordered X (held (snd c) i) (fst c ! i)) \<and> (\<forall>m i. snd c m = Some i \<longrightarrow> i < length (fst c))"

inductive_cases stepE: "step (ts, own) c'"

lemma held_lock: "own m = None \<Longrightarrow> held (own(m := Some i)) j = (if j = i then insert m (held own j) else held own j)"
  by (auto simp: held_def)

lemma held_unlock: "own m = Some i \<Longrightarrow> held (own(m := None)) j = (if j = i then held own j - {m} else held own j)"
  by (auto simp: held_def)

lemma good_start: "(\<And>es. es \<in> set ts \<Longrightarrow> ordered X {} es) \<Longrightarrow> good X (start ts)"
  by (simp add: good_def start_def held_def)

lemma good_at: "good X (ts, own) \<Longrightarrow> i < length ts \<Longrightarrow> ts ! i = es \<Longrightarrow> ordered X (held own i) es"
  by (auto simp: good_def)

lemma good_step: assumes "step c c'" "good X c" shows "good X c'"
  using assms
proof (induction rule: step.induct)
  case (lock i ts m es own)
  then show ?case using good_at [OF lock.prems lock.hyps(1,2)] by (auto simp: good_def held_lock nth_list_update)
next
  case (unlock i ts m es own)
  then show ?case using good_at [OF unlock.prems unlock.hyps(1,2)] by (auto simp: good_def held_unlock nth_list_update)
next
  case (read i ts f es own)
  then show ?case using good_at [OF read.prems read.hyps] by (auto simp: good_def nth_list_update)
next
  case (store i ts f es own)
  then show ?case using good_at [OF store.prems store.hyps] by (auto simp: good_def nth_list_update)
qed

lemma good_steps: "steps n c c' \<Longrightarrow> good X c \<Longrightarrow> good X c'"
  by (induction rule: steps.induct) (auto dest: good_step)

lemma good_race: assumes "good X c" "race f c" shows "f \<in> X"
proof (rule ccontr)
  assume f: "f \<notin> X"
  obtain i j r where r: "i < length (fst c)" "j < length (fst c)" "i \<noteq> j" "fst c ! i = Write f # r" "accesses f (fst c ! j)"
    using assms(2) by (auto simp: race_def)
  have "ordered X (held (snd c) i) (Write f # r)" using assms(1) r(1,4) by (metis good_def)
  then have i: "set (guards f) \<subseteq> held (snd c) i" using f by simp
  have "ordered X (held (snd c) j) (fst c ! j)" using assms(1) r(2) by (simp add: good_def)
  then have "set (guards f) \<inter> held (snd c) j \<noteq> {} \<or> set (guards f) \<subseteq> held (snd c) j" using r(5) f by (auto simp: accesses_def)
  moreover have "hd (guards f) \<in> set (guards f)" by simp
  ultimately obtain m where "m \<in> set (guards f)" "m \<in> held (snd c) j" by blast
  then show False using i r(3) by (auto simp: held_def)
qed

text \<open>A thread that cannot step waits for a mutex of another thread, which waits for one of higher rank.\<close>

lemma blocked:
  assumes "good X (ts, own)" "i < length ts" "ts ! i \<noteq> []" "\<nexists>c'. step (ts, own) c'"
  obtains m es j where "ts ! i = Lock m # es" "own m = Some j"
proof -
  obtain e es where e: "ts ! i = e # es" using assms(3) by (cases "ts ! i") auto
  have o: "ordered X (held own i) (e # es)" using good_at [OF assms(1,2) e] .
  show ?thesis
  proof (cases e)
    case (Lock m)
    then have "own m \<noteq> None" using assms(2,4) e step.lock by blast
    then show ?thesis using that e Lock by blast
  next
    case (Unlock m)
    then have "own m = Some i" using o by (simp add: held_def)
    then show ?thesis using assms(2,4) e Unlock step.unlock by blast
  qed (use assms(2,4) e step.read step.store in blast)+
qed

lemma good_progress:
  assumes "good X c" "\<not> finished c"
  shows "\<exists>c'. step c c'"
proof (rule ccontr)
  assume stuck: "\<nexists>c'. step c c'"
  obtain ts own where c: "c = (ts, own)" by (cases c)
  let ?waits = "\<lambda>m. \<exists>i es. i < length ts \<and> ts ! i = Lock m # es"
  have up: "\<exists>m'. ?waits m' \<and> rank m < rank m'" if w: "?waits m" for m
  proof -
    obtain i es where i: "i < length ts" "ts ! i = Lock m # es" using w by blast
    then obtain k where k: "own m = Some k" using blocked [of X ts own i] assms(1) stuck c by (metis list.distinct(1) list.inject Event.inject(1))
    then have kl: "k < length ts" using assms(1) c by (auto simp: good_def)
    have ok: "ordered X (held own k) (ts ! k)" "m \<in> held own k" using assms(1) c kl k by (auto simp: good_def held_def)
    then have "ts ! k \<noteq> []" by auto
    then obtain m' es' j where "ts ! k = Lock m' # es'" using blocked [of X ts own k] assms(1) stuck c kl by metis
    then show ?thesis using ok kl by auto
  qed
  have far: "\<exists>m. ?waits m \<and> n \<le> rank m" for n
  proof (induction n)
    case 0
    obtain i where "i < length ts" "ts ! i \<noteq> []" using assms(2) c by (auto simp: finished_def in_set_conv_nth)
    then show ?case using blocked [of X ts own i] assms(1) stuck c by (metis zero_le)
  next
    case (Suc n)
    then show ?case using up by (meson Suc_le_eq le_less_trans)
  qed
  have "rank m \<le> 2" for m by (cases m) simp_all
  then show False using far [of 3] by (metis Suc_n_not_le_n le_trans numeral_3_eq_3 numeral_2_eq_2)
qed

text \<open>Every step does one event: a run ends after as many steps as there are events.\<close>

lemma length_update: "i < length ts \<Longrightarrow> ts ! i = e # es \<Longrightarrow> sum_list (map length ts) = Suc (sum_list (map length (ts[i := es])))"
  by (induction ts arbitrary: i) (auto simp: nth_Cons split: nat.splits)

lemma step_length: "step c c' \<Longrightarrow> sum_list (map length (fst c)) = Suc (sum_list (map length (fst c')))"
  by (induction rule: step.induct) (simp_all only: fst_conv length_update)

lemma steps_length: "steps n c c' \<Longrightarrow> sum_list (map length (fst c)) = n + sum_list (map length (fst c'))"
  by (induction rule: steps.induct) (auto dest: step_length)

end
