(* ===== verification/Schedules.thy ===== *)
theory Schedules imports Locks begin

text \<open>Executable forms of the runs and the interleavings of \<open>Locks\<close>: a recognizer of runs, and the effect of a schedule.\<close>

section \<open>Recognizing a run\<close>

text \<open>The remainders of a list of events after the runs of a piece of code at its front; a loop has to make progress.\<close>

function accepts :: "Code \<Rightarrow> Event list \<Rightarrow> Event list list" where
  "accepts Skip es = [es]"
| "accepts (Rd f) es = (case es of Read g # r \<Rightarrow> if g = f then [r] else [] | _ \<Rightarrow> [])"
| "accepts (Wr f) es = (case es of Write g # r \<Rightarrow> if g = f then [r] else [] | _ \<Rightarrow> [])"
| "accepts (Guard m c) es = (case es of Lock n # r \<Rightarrow>
      if n = m then concat (map (\<lambda>r. case r of Unlock n # r' \<Rightarrow> if n = m then [r'] else [] | _ \<Rightarrow> []) (accepts c r)) else []
    | _ \<Rightarrow> [])"
| "accepts (Seq c d) es = concat (map (accepts d) (accepts c es))"
| "accepts (Opt c) es = es # accepts c es"
| "accepts (Loop c) es = es # concat (map (\<lambda>r. if length r < length es then accepts (Loop c) r else []) (accepts c es))"
  by pat_completeness auto
termination by (relation "measures [\<lambda>(c, es). size c, \<lambda>(c, es). length es]") auto

declare accepts.simps(7) [simp del]

lemma accepts_runs: "r \<in> set (accepts c es) \<Longrightarrow> \<exists>pre. es = pre @ r \<and> runs c pre"
proof (induction c es arbitrary: r rule: accepts.induct)
  case (4 m c es)
  then obtain r1 where r1: "es = Lock m # r1" "Unlock m # r \<in> set (accepts c r1)"
    by (auto split: list.splits Event.splits if_splits)
  with 4 obtain pre where "r1 = pre @ Unlock m # r" "runs c pre" by fastforce
  then show ?case using r1(1) runs.guard by (intro exI [of _ "Lock m # pre @ [Unlock m]"]) auto
next
  case (5 c d es)
  then obtain r1 where "r1 \<in> set (accepts c es)" "r \<in> set (accepts d r1)" by auto
  then obtain pre pre' where "es = pre @ r1" "runs c pre" "r1 = pre' @ r" "runs d pre'"
    using "5.IH"(1) [of r1] "5.IH"(2) [of r1 r] by auto
  then show ?case using runs.seq by (intro exI [of _ "pre @ pre'"]) auto
next
  case (7 c es)
  show ?case
  proof (cases "r = es")
    case True
    then show ?thesis using runs.loop_end by auto
  next
    case False
    then obtain r1 where "r1 \<in> set (accepts c es)" "length r1 < length es" "r \<in> set (accepts (Loop c) r1)"
      using "7.prems" by (auto simp: accepts.simps(7) [of c es] split: if_splits)
    then obtain pre pre' where "es = pre @ r1" "runs c pre" "r1 = pre' @ r" "runs (Loop c) pre'"
      using "7.IH"(1) [of r1] "7.IH"(2) [of r1 r] by auto
    then show ?thesis using runs.loop_more by (intro exI [of _ "pre @ pre'"]) auto
  qed
next
  case (6 c es)
  then show ?case using runs.opt_no runs.opt_yes by fastforce
next
  case (2 f es)
  then have "es = [Read f] @ r" by (auto split: list.splits Event.splits if_splits)
  then show ?case using runs.rd by blast
next
  case (3 f es)
  then have "es = [Write f] @ r" by (auto split: list.splits Event.splits if_splits)
  then show ?case using runs.wr by blast
next
  case (1 es)
  then show ?case using runs.skip by simp
qed

lemma runs_accepts: "[] \<in> set (accepts c es) \<Longrightarrow> runs c es"
  using accepts_runs by fastforce

section \<open>Running a schedule\<close>

fun step_thread :: "nat \<Rightarrow> Config \<Rightarrow> Config option" where
  "step_thread i (ts, own) =
    (if length ts \<le> i then None
     else case ts ! i of
       Lock m # es \<Rightarrow> if own m = None then Some (ts[i := es], own(m := Some i)) else None
     | Unlock m # es \<Rightarrow> if own m = Some i then Some (ts[i := es], own(m := None)) else None
     | Read f # es \<Rightarrow> Some (ts[i := es], own)
     | Write f # es \<Rightarrow> Some (ts[i := es], own)
     | [] \<Rightarrow> None)"

fun run_schedule :: "nat list \<Rightarrow> Config \<Rightarrow> Config option" where
  "run_schedule [] c = Some c"
| "run_schedule (i # is) c = (case step_thread i c of None \<Rightarrow> None | Some c' \<Rightarrow> run_schedule is c')"

lemma step_thread_step: "step_thread i c = Some c' \<Longrightarrow> step c c'"
  by (cases c) (auto split: if_splits list.splits Event.splits intro: step.intros)

lemma run_schedule_steps: "run_schedule is c = Some c' \<Longrightarrow> steps (length is) c c'"
  by (induction "is" arbitrary: c) (auto split: option.splits intro: steps.intros dest: step_thread_step)

lemma stuck_one: "own m = Some 0 \<Longrightarrow> \<nexists>c'. step ([Lock m # es], own) c'"
  by (auto elim!: stepE)

end
