(* ===== verification/RuntimeLocks.thy ===== *)
theory RuntimeLocks imports Schedules begin

text \<open>
  What the operations of runtime.cpp and of the subscriptions in core.cpp lock, read and write, in the order of the source. Reads
  and writes of locals and of immutable members (the filter of a subscription, a published snapshot) are left out; so is what a
  provider does when it is sampled, which touches no member of the runtime.
\<close>

section \<open>Subscriptions\<close>

definition sub_try_pop_code :: "nat \<Rightarrow> Code" where
  "sub_try_pop_code k = Guard (SubMutex k) (block [Rd (SubQueue k), Opt (Wr (SubQueue k))])"

definition sub_pending_code :: "nat \<Rightarrow> Code" where
  "sub_pending_code k = Guard (SubMutex k) (Rd (SubQueue k))"

definition sub_set_callback_code :: "nat \<Rightarrow> Code" where
  "sub_set_callback_code k = Guard (SubMutex k) (Wr (SubCallback k))"

definition sub_close_code :: "nat \<Rightarrow> Code" where
  "sub_close_code k = Guard (SubMutex k) (block [Wr (SubClosed k), Wr (SubCallback k)])"

definition sub_closed_code :: "nat \<Rightarrow> Code" where
  "sub_closed_code k = Guard (SubMutex k) (Rd (SubClosed k))"

definition sub_clear_code :: "nat \<Rightarrow> Code" where
  "sub_clear_code k = Guard (SubMutex k) (Wr (SubQueue k))"

text \<open>
  \<open>push\<close> returns early when the filter does not match, and inside the lock when the subscription is closed or
  rejects; otherwise it copies the callback, unlocks, and calls it: \<open>cb\<close> is the code of the callback.
\<close>

definition sub_push_code :: "Code \<Rightarrow> nat \<Rightarrow> Code" where
  "sub_push_code cb k =
    Opt (block
     [Guard (SubMutex k) (block
        [Rd (SubClosed k),
         Opt (block
          [Rd (SubQueue k),
           Opt (block [Opt (Wr (SubQueue k)), Rd (SubCounters k), Wr (SubCounters k)]),
           Opt (block [Wr (SubQueue k), Rd (SubCounters k), Wr (SubCounters k), Rd (SubCallback k)])])]),
      Opt cb])"

section \<open>The runtime\<close>

text \<open>A counter of the statistics under its mutex, and an event with the next identifier.\<close>

definition bump_code :: Code where
  "bump_code = Guard StatsMutex (block [Rd Stats, Wr Stats])"

definition event_code :: Code where
  "event_code = block [Rd EventId, Wr EventId]"

definition current_snapshot_code :: Code where
  "current_snapshot_code = Guard CurrentMutex (Rd CurrentSnapshot)"

definition set_policy_code :: Code where
  "set_policy_code = Opt (block
     [Guard RefreshMutex (block [Rd DomainStates, Loop (Wr DomainStates)]),
      Wr PolicyPtr,
      bump_code])"

definition admit_code :: Code where
  "admit_code = block [current_snapshot_code, Opt bump_code]"

text \<open>The stages of \<open>refresh\<close>, all inside the scope of \<open>refresh_mutex_\<close>, which ends with the function.\<close>

definition poll_code :: Code where
  "poll_code = Loop (block [Opt bump_code, Opt event_code])"

definition interpret_code :: Code where
  "interpret_code = Loop (block [Rd DomainStates, Opt (Wr DomainStates), Wr DomainStates, Opt bump_code])"

definition retain_code :: Code where
  "retain_code = block
     [current_snapshot_code, Loop (Opt (block [event_code, Opt (Wr DomainStates)])), Loop (Opt event_code)]"

definition generation_code :: Code where
  "generation_code = block
     [Opt (block [Rd Generation, Wr Generation, bump_code, Rd Generation, event_code]), Rd Generation]"

definition announce_code :: Code where
  "announce_code = block
     [Loop (Opt (block [Rd Generation, event_code])), Loop (Opt (block [bump_code, Rd Generation, event_code]))]"

definition publish_code :: Code where
  "publish_code = block
     [Guard CurrentMutex (block
        [Wr CurrentSnapshot, Rd History, Wr History, Rd History, Rd HistoryLimit,
         Loop (block [Wr History, Rd History, Rd HistoryLimit])]),
      bump_code]"

text \<open>Delivery: for each event the list of subscriptions is copied, and then each one that is open gets the event.\<close>

definition deliver_code :: "(nat \<Rightarrow> Code) \<Rightarrow> nat list \<Rightarrow> Code" where
  "deliver_code cb ks = Loop (block
     [Guard RegistryMutex (Rd Subscriptions),
      block (map (\<lambda>k. block [sub_closed_code k, Opt (sub_push_code (cb k) k)]) ks)])"

definition refresh_code :: "(nat \<Rightarrow> Code) \<Rightarrow> nat list \<Rightarrow> Code" where
  "refresh_code cb ks = Guard RefreshMutex (block
     [Rd PolicyPtr, Guard ConfigMutex (Rd Budgets), Rd SnapshotId, Wr SnapshotId, Rd ProviderHealth,
      Guard RegistryMutex (Rd Providers),
      poll_code, interpret_code, retain_code, generation_code, announce_code, publish_code,
      deliver_code cb ks])"

section \<open>The public operations\<close>

datatype Op = SetPolicy | CurrentPolicy | RegisterProvider | SetBudget | ClearBudget | Subscribe | CloseSubscription nat
  | Refresh "nat list" | CurrentSnapshotOp | SnapshotById | Admit | Query | StatsOp | SetHistoryLimit
  | SubPush nat | SubTryPop nat | SubPending nat | SubSetCallback nat | SubClose nat | SubClosedOp nat | SubClear nat | SubCount nat

fun op_code :: "(nat \<Rightarrow> Code) \<Rightarrow> Op \<Rightarrow> Code" where
  "op_code cb SetPolicy = set_policy_code"
| "op_code cb CurrentPolicy = Rd PolicyPtr"
| "op_code cb RegisterProvider = Opt (Guard RegistryMutex (Wr Providers))"
| "op_code cb SetBudget = Opt (Guard ConfigMutex (Wr Budgets))"
| "op_code cb ClearBudget = Guard ConfigMutex (Wr Budgets)"
| "op_code cb Subscribe = Guard RegistryMutex (Wr Subscriptions)"
| "op_code cb (CloseSubscription k) = Opt (sub_close_code k)"
| "op_code cb (Refresh ks) = refresh_code cb ks"
| "op_code cb CurrentSnapshotOp = current_snapshot_code"
| "op_code cb SnapshotById = Guard CurrentMutex (Rd History)"
| "op_code cb Admit = admit_code"
| "op_code cb Query = current_snapshot_code"
| "op_code cb StatsOp = Rd Stats"
| "op_code cb SetHistoryLimit = Wr HistoryLimit"
| "op_code cb (SubPush k) = sub_push_code (cb k) k"
| "op_code cb (SubTryPop k) = sub_try_pop_code k"
| "op_code cb (SubPending k) = sub_pending_code k"
| "op_code cb (SubSetCallback k) = sub_set_callback_code k"
| "op_code cb (SubClose k) = sub_close_code k"
| "op_code cb (SubClosedOp k) = sub_closed_code k"
| "op_code cb (SubClear k) = sub_clear_code k"
| "op_code cb (SubCount k) = Rd (SubCounters k)"

text \<open>
  A callback calls operations of the runtime and of its subscriptions; one that refreshes or pushes runs callbacks again, up to
  a depth of nesting that every run which returns has.
\<close>

fun callback_code :: "nat \<Rightarrow> (nat \<Rightarrow> Op list) \<Rightarrow> nat \<Rightarrow> Code" where
  "callback_code 0 calls k = Skip"
| "callback_code (Suc d) calls k = block (map (op_code (callback_code d calls)) (calls k))"

definition thread_code :: "nat \<Rightarrow> (nat \<Rightarrow> Op list) \<Rightarrow> Op list \<Rightarrow> Code" where
  "thread_code d calls ops = block (map (op_code (callback_code d calls)) ops)"

text \<open>The threads run their operations, one run for each; a configuration after \<open>n\<close> events.\<close>

definition executes :: "(nat \<Rightarrow> Op list) \<Rightarrow> Op list list \<Rightarrow> nat \<Rightarrow> Config \<Rightarrow> bool" where
  "executes calls threads n c \<longleftrightarrow> (\<exists>d ts. list_all2 (\<lambda>ops es. runs (thread_code d calls ops) es) threads ts \<and> steps n (start ts) c)"

section \<open>Races and deadlocks\<close>

text \<open>The members that an operation accesses without the mutexes that guard them.\<close>

fun unguarded :: "Op \<Rightarrow> Field set" where
  "unguarded SetPolicy = {PolicyPtr}"
| "unguarded CurrentPolicy = {PolicyPtr}"
| "unguarded SetHistoryLimit = {HistoryLimit}"
| "unguarded StatsOp = {Stats}"
| "unguarded (SubCount k) = {SubCounters k}"
| "unguarded _ = {}"

text \<open>Operations that a callback may call: those that do not take the mutex of the refresh that calls it.\<close>

fun reentrant :: "Op \<Rightarrow> bool" where
  "reentrant SetPolicy = False"
| "reentrant (Refresh ks) = False"
| "reentrant _ = True"

lemmas op_codes = sub_try_pop_code_def sub_pending_code_def sub_set_callback_code_def sub_close_code_def sub_closed_code_def
  sub_clear_code_def sub_push_code_def bump_code_def event_code_def current_snapshot_code_def set_policy_code_def
  admit_code_def

lemmas refresh_codes = poll_code_def interpret_code_def retain_code_def generation_code_def announce_code_def
  publish_code_def deliver_code_def refresh_code_def

lemma reentrant_safe:
  assumes "reentrant op" "unguarded op \<subseteq> X" "set H \<subseteq> {RefreshMutex}" "\<And>k. safe X H (cb k)"
  shows "safe X H (op_code cb op)"
  using assms by (cases op) (auto simp: op_codes subset_iff)

lemma op_safe:
  assumes "unguarded op \<subseteq> X" "\<And>k. safe X [] (cb k)" "\<And>k. safe X [RefreshMutex] (cb k)"
  shows "safe X [] (op_code cb op)"
  using assms by (cases op) (auto simp: op_codes refresh_codes)

lemma callback_safe:
  assumes "\<And>k. list_all reentrant (calls k)" "\<And>k op. op \<in> set (calls k) \<Longrightarrow> unguarded op \<subseteq> X" "set H \<subseteq> {RefreshMutex}"
  shows "safe X H (callback_code d calls k)"
proof (induction d arbitrary: k)
  case (Suc d)
  have "safe X H (op_code (callback_code d calls) op)" if "op \<in> set (calls k)" for op
    using that assms(1) [of k] assms(2) [of op k] assms(3) Suc.IH by (intro reentrant_safe) (auto simp: list_all_iff)
  then show ?case by simp
qed simp

definition operations :: "(nat \<Rightarrow> Op list) \<Rightarrow> Op list list \<Rightarrow> Op set" where
  "operations calls threads = \<Union> (set ` set threads) \<union> (\<Union>k. set (calls k))"

definition callbacks_reentrant :: "(nat \<Rightarrow> Op list) \<Rightarrow> bool" where
  "callbacks_reentrant calls \<longleftrightarrow> (\<forall>k. list_all reentrant (calls k))"

lemma thread_safe:
  assumes "callbacks_reentrant calls" "ops \<in> set threads"
  shows "safe (\<Union> (unguarded ` operations calls threads)) [] (thread_code d calls ops)"
proof -
  let ?X = "\<Union> (unguarded ` operations calls threads)"
  have cb: "safe ?X H (callback_code d calls k)" if "set H \<subseteq> {RefreshMutex}" for k H
    using assms(1) that by (intro callback_safe) (auto simp: callbacks_reentrant_def operations_def)
  have "safe ?X [] (op_code (callback_code d calls) op)" if "op \<in> set ops" for op
  proof -
    have "unguarded op \<subseteq> ?X" using that assms(2) by (auto simp: operations_def)
    then show ?thesis by (rule op_safe) (simp_all add: cb)
  qed
  then show ?thesis by (simp add: thread_code_def)
qed

lemma executes_good:
  assumes "executes calls threads n c" "callbacks_reentrant calls"
  shows "good (\<Union> (unguarded ` operations calls threads)) c"
proof -
  obtain d ts where ts: "list_all2 (\<lambda>ops es. runs (thread_code d calls ops) es) threads ts" "steps n (start ts) c"
    using assms(1) by (auto simp: executes_def)
  have "ordered (\<Union> (unguarded ` operations calls threads)) {} es" if es: "es \<in> set ts" for es
  proof -
    obtain i where i: "i < length ts" "ts ! i = es" using es by (auto simp: in_set_conv_nth)
    then have "runs (thread_code d calls (threads ! i)) es" "threads ! i \<in> set threads"
      using list_all2_nthD2 [OF ts(1) i(1)] list_all2_lengthD [OF ts(1)] by simp_all
    then show ?thesis using safe_ordered [of _ es _ "[]" "[]"] thread_safe [OF assms(2)] by fastforce
  qed
  then show ?thesis using good_steps [OF ts(2)] good_start by blast
qed

text \<open>
  C12. Data races are confined: whatever operations any number of threads run concurrently, direct pushes to subscriptions
  included, and whatever their callbacks call back apart from \<open>set_policy\<close> and \<open>refresh\<close>, a race can only be on a member that
  one of these operations accesses without its mutex. These are the policy pointer, for \<open>set_policy\<close> and \<open>current_policy\<close>; the
  history limit, for \<open>set_history_limit\<close>; the statistics, for the reference that \<open>stats\<close> returns; and the counters of a
  subscription, for their getters. All other members are free of races, in particular when only refreshes, queries,
  budgets, providers and subscriptions run.
\<close>

theorem race_confined:
  assumes "executes calls threads n c" "callbacks_reentrant calls" "race f c"
  shows "\<exists>op \<in> operations calls threads. f \<in> unguarded op"
  using good_race [OF executes_good [OF assms(1,2)] assms(3)] by blast

lemma finished_length: "finished c \<Longrightarrow> sum_list (map length (fst c)) = 0"
  by (auto simp: finished_def sum_list_eq_0_iff)

text \<open>
  C13. Freedom from deadlock: when no callback calls \<open>set_policy\<close> or \<open>refresh\<close>, no interleaving of any operations on any number
  of threads gets stuck, at whatever point: there is a way to finish all operations, and every way from there on ends, because
  it has a bounded number of steps. (The operations are runs that return; a callback that pushes to its own subscription without end
  is not one.)
\<close>

theorem deadlock_free:
  assumes "executes calls threads n c" "callbacks_reentrant calls"
  shows "\<exists>k. (\<exists>c'. steps k c c' \<and> finished c') \<and> (\<forall>k' c'. steps k' c c' \<longrightarrow> k' \<le> k)"
proof -
  let ?len = "\<lambda>c. sum_list (map length (fst c))"
  have "\<exists>c'. steps (?len c) c c' \<and> finished c'" if "good X c" for X c
    using that
  proof (induction "?len c" arbitrary: c)
    case 0
    then have "finished c" by (auto simp: finished_def)
    then show ?case using 0 steps.refl by metis
  next
    case (Suc l)
    then have "\<not> finished c" using finished_length [of c] by (metis nat.distinct(1))
    then obtain c1 where c1: "step c c1" using good_progress [OF Suc.prems] by blast
    then have "l = ?len c1" using step_length [OF c1] Suc.hyps(2) by simp
    then obtain c' where "steps (?len c1) c1 c'" "finished c'" using Suc.hyps(1) good_step [OF c1 Suc.prems] by blast
    then show ?case using steps.more [OF c1] step_length [OF c1] by metis
  qed
  moreover have "k' \<le> ?len c" if "steps k' c c'" for k' c' using steps_length [OF that] by simp
  ultimately show ?thesis using executes_good [OF assms] by blast
qed

end
