(* ===== verification/RaceExamples.thy ===== *)
theory RaceExamples imports RuntimeLocks begin

text \<open>
  Concrete interleavings: the races that the confinement theorem leaves open do happen, and a callback that calls \<open>set_policy\<close>, which
  docs/EVENTS.md allows, blocks its own thread for ever.
\<close>

section \<open>Traces\<close>

lemma executesI:
  assumes "list_all2 (\<lambda>ops es. [] \<in> set (accepts (thread_code d calls ops) es)) threads ts" "run_schedule is (start ts) = Some c"
  shows "executes calls threads (length is) c"
  using list_all2_mono [OF assms(1), of "\<lambda>ops es. runs (thread_code d calls ops) es"] runs_accepts run_schedule_steps [OF assms(2)]
  unfolding executes_def by blast

definition counted :: "Event list" where
  "counted = [Lock StatsMutex, Read Stats, Write Stats, Unlock StatsMutex]"

definition policy_trace :: "Event list" where
  "policy_trace = [Lock RefreshMutex, Read DomainStates, Unlock RefreshMutex, Write PolicyPtr] @ counted"

text \<open>A refresh with one provider that reports a new domain, up to the delivery of its events.\<close>

definition observe_trace :: "Event list" where
  "observe_trace = [Lock RefreshMutex, Read PolicyPtr, Lock ConfigMutex, Read Budgets, Unlock ConfigMutex, Read SnapshotId,
     Write SnapshotId, Read ProviderHealth, Lock RegistryMutex, Read Providers, Unlock RegistryMutex,
     Read DomainStates, Write DomainStates, Write DomainStates,
     Lock CurrentMutex, Read CurrentSnapshot, Unlock CurrentMutex, Read EventId, Write EventId,
     Read Generation, Write Generation] @ counted @ [Read Generation, Read EventId, Write EventId, Read Generation]"

definition publish_trace :: "Event list" where
  "publish_trace = [Lock CurrentMutex, Write CurrentSnapshot, Read History, Write History, Read History, Read HistoryLimit,
     Unlock CurrentMutex] @ counted"

definition push_trace :: "Event list" where
  "push_trace = [Lock RegistryMutex, Read Subscriptions, Unlock RegistryMutex, Lock (SubMutex 0), Read (SubClosed 0), Unlock (SubMutex 0),
     Lock (SubMutex 0), Read (SubClosed 0), Read (SubQueue 0), Write (SubQueue 0), Read (SubCounters 0), Write (SubCounters 0),
     Read (SubCallback 0), Unlock (SubMutex 0)]"

definition refresh_trace :: "Event list \<Rightarrow> Event list" where
  "refresh_trace called = observe_trace @ publish_trace @ push_trace @ called @ [Unlock RefreshMutex]"

lemmas traces = counted_def policy_trace_def observe_trace_def publish_trace_def push_trace_def refresh_trace_def

lemma accepted:
  "[] \<in> set (accepts (thread_code (Suc 0) (\<lambda>_. []) [SetPolicy]) policy_trace)"
  "[] \<in> set (accepts (thread_code (Suc 0) (\<lambda>_. []) [Refresh [0]]) (refresh_trace []))"
  "[] \<in> set (accepts (thread_code (Suc 0) (\<lambda>_. []) [SetHistoryLimit]) [Write HistoryLimit])"
  "[] \<in> set (accepts (thread_code (Suc 0) (\<lambda>_. []) [StatsOp]) [Read Stats])"
  "[] \<in> set (accepts (thread_code (Suc 0) (\<lambda>_. []) [SubCount 0]) [Read (SubCounters 0)])"
  "[] \<in> set (accepts (thread_code (Suc 0) (\<lambda>_. [SetPolicy]) [Refresh [0]]) (refresh_trace policy_trace))"
  by code_simp+

section \<open>Races\<close>

text \<open>What the threads have left after a schedule.\<close>

definition left_after :: "nat list \<Rightarrow> Event list list \<Rightarrow> Event list list option" where
  "left_after is ts = map_option fst (run_schedule is (start ts))"

lemma raceI:
  assumes "map_option (map (take 1)) (left_after is ts) = Some [[a], [b]]"
    and "a = Write f \<and> b = Read f \<or> b = Write f \<and> a = Read f"
    and "list_all2 (\<lambda>ops es. [] \<in> set (accepts (thread_code d calls ops) es)) threads ts"
  shows "\<exists>n c. executes calls threads n c \<and> race f c"
proof -
  obtain c where c: "run_schedule is (start ts) = Some c" "map (take 1) (fst c) = [[a], [b]]"
    using assms(1) by (auto simp: left_after_def)
  then obtain es fs where es: "fst c = [es, fs]" "take 1 es = [a]" "take 1 fs = [b]" by (auto simp: map_eq_Cons_conv)
  then obtain r r' where "es = a # r" "fs = b # r'" by (cases es; cases fs) auto
  then have at: "fst c ! 0 = a # r" "fst c ! 1 = b # r'" "length (fst c) = 2" using es(1) by simp_all
  have "race f c" using assms(2)
  proof
    assume "a = Write f \<and> b = Read f"
    then show ?thesis unfolding race_def accesses_def using at by (intro exI [of _ 0] exI [of _ 1] exI [of _ r]) auto
  next
    assume "b = Write f \<and> a = Read f"
    then show ?thesis unfolding race_def accesses_def using at by (intro exI [of _ 1] exI [of _ 0] exI [of _ r']) auto
  qed
  then show ?thesis using executesI [OF assms(3) c(1)] by blast
qed

lemma lefts:
  "map_option (map (take 1)) (left_after [0, 0, 0, 1] [policy_trace, refresh_trace []]) = Some [[Write PolicyPtr], [Read PolicyPtr]]"
  "map_option (map (take 1)) (left_after (replicate 34 1) [[Write HistoryLimit], refresh_trace []]) = Some [[Write HistoryLimit], [Read HistoryLimit]]"
  "map_option (map (take 1)) (left_after (replicate 23 1) [[Read Stats], refresh_trace []]) = Some [[Read Stats], [Write Stats]]"
  "map_option (map (take 1)) (left_after (replicate 51 1) [[Read (SubCounters 0)], refresh_trace []]) = Some [[Read (SubCounters 0)], [Write (SubCounters 0)]]"
  by code_simp+

lemma policy_race_run: "\<exists>n c. executes (\<lambda>_. []) [[SetPolicy], [Refresh [0]]] n c \<and> race PolicyPtr c"
  by (rule raceI [where d = "Suc 0", OF lefts(1)]) (simp_all add: accepted)

lemma limit_race_run: "\<exists>n c. executes (\<lambda>_. []) [[SetHistoryLimit], [Refresh [0]]] n c \<and> race HistoryLimit c"
  by (rule raceI [where d = "Suc 0", OF lefts(2)]) (simp_all add: accepted)

lemma stats_race_run: "\<exists>n c. executes (\<lambda>_. []) [[StatsOp], [Refresh [0]]] n c \<and> race Stats c"
  by (rule raceI [where d = "Suc 0", OF lefts(3)]) (simp_all add: accepted)

lemma counters_race_run: "\<exists>n c. executes (\<lambda>_. []) [[SubCount 0], [Refresh [0]]] n c \<and> race (SubCounters 0) c"
  by (rule raceI [where d = "Suc 0", OF lefts(4)]) (simp_all add: accepted)

text \<open>
  The races that the confinement theorem leaves open do happen next to an ordinary refresh of one provider, one new domain and one
  subscription: \<open>set_policy\<close> writes the policy pointer while the refresh reads it, \<open>set_history_limit\<close> writes the limit that it
  compares with, the reader of the reference from \<open>stats\<close> meets its increments, and the getter of a counter of the
  subscription meets its push.
\<close>

lemma races_happen:
  "(\<exists>n c. executes (\<lambda>_. []) [[SetPolicy], [Refresh [0]]] n c \<and> race PolicyPtr c) \<and>
   (\<exists>n c. executes (\<lambda>_. []) [[SetHistoryLimit], [Refresh [0]]] n c \<and> race HistoryLimit c) \<and>
   (\<exists>n c. executes (\<lambda>_. []) [[StatsOp], [Refresh [0]]] n c \<and> race Stats c) \<and>
   (\<exists>n c. executes (\<lambda>_. []) [[SubCount 0], [Refresh [0]]] n c \<and> race (SubCounters 0) c)"
  by (intro conjI policy_race_run limit_race_run stats_race_run counters_race_run)

lemma race_confined_witness: "\<exists>op \<in> operations (\<lambda>_. []) [[SetPolicy], [Refresh [0]]]. PolicyPtr \<in> unguarded op"
proof -
  obtain n c where "executes (\<lambda>_. []) [[SetPolicy], [Refresh [0]]] n c" "race PolicyPtr c" using policy_race_run by blast
  then show ?thesis by (intro race_confined) (simp_all add: callbacks_reentrant_def)
qed

lemma deadlock_free_witness: "\<exists>n c k c'. executes (\<lambda>_. []) [[SetPolicy], [Refresh [0]]] n c \<and> race PolicyPtr c \<and> steps k c c' \<and> finished c'"
proof -
  obtain n c where c: "executes (\<lambda>_. []) [[SetPolicy], [Refresh [0]]] n c" "race PolicyPtr c" using policy_race_run by blast
  have "callbacks_reentrant (\<lambda>_. [])" by (simp add: callbacks_reentrant_def)
  from deadlock_free [OF c(1) this] c show ?thesis by blast
qed

section \<open>A callback that blocks\<close>

definition callback_schedule :: "nat list" where
  "callback_schedule = replicate (length (observe_trace @ publish_trace @ push_trace)) 0"

lemma callback_waits:
  "map_option (\<lambda>(ts, own). (ts, own RefreshMutex)) (run_schedule callback_schedule (start [refresh_trace policy_trace])) =
    Some ([policy_trace @ [Unlock RefreshMutex]], Some 0)"
  by code_simp

text \<open>
  C14. A callback must not call \<open>set_policy\<close>: there is a run of a single thread, an ordinary refresh of one new domain with one subscription
  whose callback calls \<open>set_policy\<close>, that never ends. It waits for the mutex of the refresh, which the thread holds
  itself, because \<open>refresh\<close> keeps it until it returns; nothing is left that could step.
\<close>

theorem callback_deadlock:
  "\<exists>n c. executes (\<lambda>_. [SetPolicy]) [[Refresh [0]]] n c \<and> \<not> finished c \<and> (\<nexists>c'. step c c')"
proof -
  obtain c where c: "run_schedule callback_schedule (start [refresh_trace policy_trace]) = Some c"
    "fst c = [policy_trace @ [Unlock RefreshMutex]]" "snd c RefreshMutex = Some 0"
    using callback_waits by (auto split: prod.splits)
  obtain es where "policy_trace @ [Unlock RefreshMutex] = Lock RefreshMutex # es" by (simp add: policy_trace_def)
  then have "c = ([Lock RefreshMutex # es], snd c)" using c(2) by (metis prod.collapse)
  then have "\<nexists>c'. step c c'" using stuck_one [of "snd c" RefreshMutex es] c(3) by metis
  moreover have "\<not> finished c" using c(2) by (simp add: finished_def)
  moreover have "executes (\<lambda>_. [SetPolicy]) [[Refresh [0]]] (length callback_schedule) c"
    using accepted(6) by (intro executesI [OF _ c(1)]) simp
  ultimately show ?thesis by blast
qed

end
