(* ===== verification/Anonymous.thy ===== *)
theory Anonymous imports RuntimeProps begin

text \<open>
  What a refresh does, without the names of the providers. Forgetting who observed a domain, the health map
  and the measured latency commutes with every stage of the cycle, so when all providers are healthy the
  result is, up to these, a function of the sequence of observations. The replay of a trace rests on this.
\<close>

section \<open>Forgetting the providers\<close>

definition anonymous :: "DomainState \<Rightarrow> DomainState" where
  "anonymous d = d\<lparr>ds_provider := []\<rparr>"

definition nameless_snapshot :: "Snapshot \<Rightarrow> Snapshot" where
  "nameless_snapshot s = s\<lparr>sn_domains := map anonymous (sn_domains s), sn_provider_health := []\<rparr>"

definition unmeasured :: "RuntimeStats \<Rightarrow> RuntimeStats" where
  "unmeasured st = st\<lparr>st_refresh_latency_us := 0\<rparr>"

definition nameless :: "Cycle \<Rightarrow> Cycle" where
  "nameless cy = cy\<lparr>cy_health := [], cy_all := [], cy_domains := map anonymous (cy_domains cy),
     cy_stats := unmeasured (cy_stats cy)\<rparr>"

lemma anonymous_fields [simp]:
  "ds_id (anonymous d) = ds_id d" "ds_type (anonymous d) = ds_type d" "ds_level (anonymous d) = ds_level d"
  "ds_budget (anonymous d) = ds_budget d" "ds_score (anonymous d) = ds_score d" "ds_responses (anonymous d) = ds_responses d"
  by (simp_all add: anonymous_def)

lemma nameless_snapshot_fields [simp]:
  "sn_domains (nameless_snapshot s) = map anonymous (sn_domains s)" "sn_provider_health (nameless_snapshot s) = []"
  "sn_aggregate_level (nameless_snapshot s) = sn_aggregate_level s" "sn_aggregate_score (nameless_snapshot s) = sn_aggregate_score s"
  "sn_policy_version (nameless_snapshot s) = sn_policy_version s" "sn_id (nameless_snapshot s) = sn_id s"
  by (simp_all add: nameless_snapshot_def)

lemma nameless_fields [simp]:
  "cy_events (nameless cy) = cy_events cy" "cy_event_id (nameless cy) = cy_event_id cy" "cy_stats (nameless cy) = unmeasured (cy_stats cy)"
  "cy_states (nameless cy) = cy_states cy" "cy_observed (nameless cy) = cy_observed cy"
  "cy_obs_count (nameless cy) = cy_obs_count cy" "cy_domains (nameless cy) = map anonymous (cy_domains cy)"
  "cy_warnings (nameless cy) = cy_warnings cy" "cy_partial (nameless cy) = cy_partial cy" "cy_stale (nameless cy) = cy_stale cy"
  "cy_health (nameless cy) = []"
  by (simp_all add: nameless_def)

text \<open>The steps of a cycle that only emit or count commute with forgetting.\<close>

lemma nameless_emit [simp]: "nameless (emit ty g now dm det r cy) = emit ty g now dm det r (nameless cy)"
  by (simp add: nameless_def emit_def make_pressure_event_def Let_def)

lemma nameless_bump [simp]:
  "(\<And>st. unmeasured (f st) = f (unmeasured st)) \<Longrightarrow> nameless (bump f cy) = bump f (nameless cy)"
  by (simp add: nameless_def bump_def)

lemma nameless_fold:
  assumes "\<And>x c. nameless (f x c) = g (h x) (nameless c)"
  shows "nameless (fold f xs cy) = fold g (map h xs) (nameless cy)"
  by (induction xs arbitrary: cy) (simp_all add: assms)

section \<open>The stages of a cycle\<close>

lemma nameless_interpret:
  "nameless (interpret_observation pol bm now prov obs cy) = interpret_observation pol bm now [] obs (nameless cy)"
  by (simp add: interpret_observation_def publish_domain_def anonymous_def nameless_def bump_def unmeasured_def Let_def split_beta)

lemma nameless_interpret_all:
  "nameless (interpret_all pol bm now cy) = fold (interpret_observation pol bm now []) (concat (map snd (cy_all cy))) (nameless cy)"
proof -
  have "nameless (fold (\<lambda>a. fold (interpret_observation pol bm now (fst a)) (snd a)) all cy) =
      fold (interpret_observation pol bm now []) (concat (map snd all)) (nameless cy)" for all cy
  proof (induction all arbitrary: cy)
    case (Cons a all)
    have "nameless (fold (interpret_observation pol bm now (fst a)) (snd a) cy) =
        fold (interpret_observation pol bm now []) (snd a) (nameless cy)"
      by (subst nameless_fold [where g = "interpret_observation pol bm now []" and h = "\<lambda>x. x"])
        (simp_all add: nameless_interpret)
    then show ?case by (simp add: Cons.IH)
  qed simp
  then show ?thesis by (simp add: interpret_all_def split_beta')
qed

text \<open>The removal branch of \<open>keep_or_remove\<close>, the only one when the provider is fresh.\<close>

definition remove_unseen :: "u64 \<Rightarrow> DomainState \<Rightarrow> Cycle \<Rightarrow> Cycle" where
  "remove_unseen now pd cy = (if ds_id pd \<in> set (cy_observed cy) then cy
     else let cy = emit Ev_DomainRemoved 0 now (Some (ds_id pd)) ''domain removed'' 0 cy
       in cy\<lparr>cy_states := (cy_states cy)(ds_id pd := None)\<rparr>)"

lemma nameless_remove: "nameless (remove_unseen now pd cy) = remove_unseen now (anonymous pd) (nameless cy)"
  by (simp add: remove_unseen_def nameless_def emit_def make_pressure_event_def Let_def)

lemma keep_fold_fresh:
  assumes "\<forall>pd \<in> set pds. \<not> not_fresh (cy_health cy) (ds_provider pd)"
  shows "fold (keep_or_remove now) pds cy = fold (remove_unseen now) pds cy"
  using assms
proof (induction pds arbitrary: cy)
  case (Cons pd pds)
  have "keep_or_remove now pd cy = remove_unseen now pd cy"
    using Cons.prems by (simp add: keep_or_remove_cases remove_unseen_def)
  moreover have "cy_health (remove_unseen now pd cy) = cy_health cy" by (simp add: remove_unseen_def Let_def)
  ultimately show ?case using Cons by simp
qed simp

lemma find_anonymous: "find_domain i (nameless_snapshot s) = map_option anonymous (find_domain i s)"
proof -
  have "find (\<lambda>d. ds_id d = i) (map anonymous ds) = map_option anonymous (find (\<lambda>d. ds_id d = i) ds)" for ds
    by (induction ds) auto
  then show ?thesis by (simp add: find_domain_def)
qed

lemma nameless_announce:
  "nameless (announce now prev d cy) = announce now (nameless_snapshot prev) (anonymous d) (nameless cy)"
  by (simp add: announce_def find_anonymous)

lemma explanation_anonymous [simp]:
  "build_explanation (anonymous d) = build_explanation d" "build_explanation (d\<lparr>ds_responses := r\<rparr>) = build_explanation d"
  by (simp_all add: anonymous_def build_explanation_def)

lemma anonymous_update [simp]:
  "anonymous (d\<lparr>ds_responses := r\<rparr>) = (anonymous d)\<lparr>ds_responses := r\<rparr>"
  "anonymous (d\<lparr>ds_explanation := x\<rparr>) = (anonymous d)\<lparr>ds_explanation := x\<rparr>"
  by (simp_all add: anonymous_def)

lemma anonymous_respond: "anonymous (respond ds d) = respond (map anonymous ds) (anonymous d)"
proof -
  have p: "host_present (map anonymous ds) = host_present ds" by (simp add: host_present_def list_ex_iff)
  have s: "host_sev (map anonymous ds) = host_sev ds" by (simp add: host_sev_def fold_map comp_def cong: if_cong)
  show ?thesis by (auto simp: respond_def p s Let_def)
qed

lemma nameless_settle:
  assumes "\<forall>pd \<in> set (sn_domains prev). \<not> not_fresh (cy_health cy) (ds_provider pd)"
  shows "nameless (settle_domains now prev cy) =
    (let cy = fold (remove_unseen now) (map anonymous (sn_domains prev)) (nameless cy);
         cy = fold (announce now (nameless_snapshot prev)) (cy_domains cy) cy
     in cy\<lparr>cy_domains := map (respond (cy_domains cy)) (cy_domains cy)\<rparr>)"
proof -
  let ?a = "fold (remove_unseen now) (sn_domains prev) cy"
  let ?b = "fold (announce now prev) (cy_domains ?a) ?a"
  have a: "nameless ?a = fold (remove_unseen now) (map anonymous (sn_domains prev)) (nameless cy)"
    by (rule nameless_fold) (rule nameless_remove)
  have b: "nameless ?b = fold (announce now (nameless_snapshot prev)) (map anonymous (cy_domains ?a)) (nameless ?a)"
    by (rule nameless_fold) (rule nameless_announce)
  have "nameless (?b\<lparr>cy_domains := map (respond (cy_domains ?b)) (cy_domains ?b)\<rparr>) =
      (nameless ?b)\<lparr>cy_domains := map (respond (cy_domains (nameless ?b))) (cy_domains (nameless ?b))\<rparr>"
    by (simp add: nameless_def anonymous_respond comp_def)
  then show ?thesis unfolding settle_domains_def Let_def keep_fold_fresh [OF assms] b a [symmetric] by simp
qed

section \<open>The snapshot and its events\<close>

lemma nameless_draft: "nameless_snapshot (draft_snapshot pol i now cy) = draft_snapshot pol i now (nameless cy)"
proof -
  have s: "aggregate_sev (map anonymous ds) = aggregate_sev ds" for ds by (simp add: aggregate_sev_def fold_map comp_def)
  have w: "aggregate_sums pol (map anonymous ds) = aggregate_sums pol ds" for ds
    by (simp add: aggregate_sums_def fold_map comp_def)
  show ?thesis
    by (simp add: draft_snapshot_def nameless_snapshot_def aggregate_level_def aggregate_score_def s w)
qed

lemma diff_nameless: "diff_any (diff_snapshots a b) \<longleftrightarrow>
    diff_any (diff_snapshots (nameless_snapshot a) (nameless_snapshot b)) \<or> sn_provider_health a \<noteq> sn_provider_health b"
proof -
  have c: "common_where P (nameless_snapshot a) (nameless_snapshot b) = map anonymous (common_where P a b)"
    if "\<And>x y. P (anonymous x) (anonymous y) = P x y" for P
    by (auto simp: common_where_def filter_map comp_def find_anonymous that option.case_eq_if intro!: arg_cong [where f = "map anonymous"] filter_cong)
  show ?thesis
    by (simp add: diff_any_def diff_snapshots_def c find_anonymous filter_map comp_def) blast
qed

text \<open>The events of a cycle, given whether the snapshot has changed materially.\<close>

definition event_half :: "bool \<Rightarrow> Snapshot \<Rightarrow> Snapshot \<Rightarrow> u64 \<Rightarrow> u64 \<Rightarrow> Cycle \<Rightarrow> Cycle" where
  "event_half changed prev draft g now cy =
    response_events g now (sn_domains draft) (fold (transition_event g now prev) (sn_domains draft)
      (if changed then emit Ev_GenerationChanged g now None (''generation '' @ u64_to_string g) 0
         (bump (\<lambda>st. st\<lparr>st_generation_changes := st_generation_changes st + 1\<rparr>) cy) else cy))"

lemma event_cycle_half: "event_cycle prev draft g now cy = event_half (diff_any (diff_snapshots prev draft)) prev draft g now cy"
  by (simp add: event_cycle_def event_half_def generation_event_def Let_def)

lemma nameless_event_half: "nameless (event_half b prev draft g now cy) =
    event_half b (nameless_snapshot prev) (nameless_snapshot draft) g now (nameless cy)"
proof -
  have t: "nameless (transition_event g now prev ds c) = transition_event g now (nameless_snapshot prev) (anonymous ds) (nameless c)" for ds c
    by (simp add: transition_event_def find_anonymous split: option.split)
  have r: "nameless (response_event g now ds a c) = response_event g now (anonymous ds) a (nameless c)" for ds a c
    by (simp add: response_event_def unmeasured_def)
  have rs: "nameless (response_events g now dss c) = response_events g now (map anonymous dss) (nameless c)" for dss c
    unfolding response_events_def
    by (rule nameless_fold)
      (simp add: nameless_fold [where h = "\<lambda>x. x" and g = "response_event g now (anonymous _)"] r)
  have "nameless (fold (transition_event g now prev) dss c) =
      fold (transition_event g now (nameless_snapshot prev)) (map anonymous dss) (nameless c)" for dss c
    by (rule nameless_fold) (rule t)
  then show ?thesis by (simp add: event_half_def rs unmeasured_def)
qed

section \<open>A refresh with fresh providers\<close>

text \<open>Every registered provider is polled, and is healthy.\<close>

definition healthy_sources :: "(PressureDomainId \<rightharpoonup> string) \<Rightarrow> World \<Rightarrow> bool" where
  "healthy_sources ps w \<longleftrightarrow> set (w_order w) = dom ps \<and>
     (\<forall>p \<in> ran ps. case w_sample w p of Inl _ \<Rightarrow> False | Inr s \<Rightarrow> sample_status s = PS_Healthy)"

lemma registered_all: "healthy_sources (rt_providers rt) w \<Longrightarrow> set (registered w rt) = ran (rt_providers rt)"
  by (force simp: registered_def healthy_sources_def List.map_filter_def ran_def dom_def image_iff)

lemma healthy_outcome:
  "healthy_sources ps w \<Longrightarrow> p \<in> ran ps \<Longrightarrow> \<exists>s. w_sample w p = Inr s \<and> sample_status s = PS_Healthy"
  by (cases "w_sample w p") (auto simp: healthy_sources_def)

lemma poll_healthy:
  assumes "healthy_sources (rt_providers rt) w" shows "nameless (poll_all w now rt cy) = nameless cy"
proof -
  have "nameless (fold (\<lambda>name. poll_provider now name (w_sample w name)) names cy) = nameless cy"
    if "set names \<subseteq> ran (rt_providers rt)" for names cy
    using that
  proof (induction names arbitrary: cy)
    case (Cons p names)
    then obtain s where "w_sample w p = Inr s" "sample_status s = PS_Healthy"
      using healthy_outcome [OF assms, of p] by auto
    then have "nameless (poll_provider now p (w_sample w p) cy) = nameless cy"
      by (simp add: poll_provider_def nameless_def)
    with Cons show ?case by simp
  qed simp
  then show ?thesis by (simp add: poll_all_def registered_all [OF assms])
qed

text \<open>The health map when all are healthy: it depends on the registry only.\<close>

definition all_healthy :: "(PressureDomainId \<rightharpoonup> string) \<Rightarrow> (string \<times> ProviderStatus) list \<Rightarrow> bool" where
  "all_healthy ps h \<longleftrightarrow> sm_ok h \<and> (\<forall>p. sm_find h p = (if p \<in> ran ps then Some PS_Healthy else None))"

lemma all_healthy_unique: "all_healthy ps h \<Longrightarrow> all_healthy ps h' \<Longrightarrow> h = h'"
  by (intro sm_ext) (auto simp: all_healthy_def)

lemma all_healthy_nonempty: "all_healthy ps h \<Longrightarrow> ps \<noteq> Map.empty \<Longrightarrow> h \<noteq> []"
  by (auto simp: all_healthy_def ran_def fun_eq_iff split: if_splits)

lemma healthy_map:
  assumes "healthy_sources (rt_providers rt) w" "rt_inv rt"
  shows "all_healthy (rt_providers rt) (cy_health (interpreted w now rt))"
proof -
  have "sm_ok (cy_health (interpreted w now rt))"
    using interpret_all_ok [OF poll_all_ok [OF cycle_start_ok [OF assms(2)]]] by (simp add: interpreted_def cycle_ok_def)
  moreover have "sm_find (cy_health (interpreted w now rt)) p = (if p \<in> ran (rt_providers rt) then Some PS_Healthy else None)" for p
    using healthy_outcome [OF assms(1), of p] assms(2)
    by (auto simp: interpreted_fields(3) registered_all [OF assms(1)] outcome_status_def rt_inv_def)
  ultimately show ?thesis by (simp add: all_healthy_def)
qed

text \<open>The observation half as a function of the observations, without the names of the providers.\<close>

definition observed_cycle ::
  "PressurePolicy \<Rightarrow> (PressureDomainId \<rightharpoonup> Budget) \<Rightarrow> u64 \<Rightarrow> Snapshot \<Rightarrow> DomainObservation list \<Rightarrow> Cycle \<Rightarrow> Cycle" where
  "observed_cycle pol bm now prev os cy =
    (let cy = fold (interpret_observation pol bm now []) os cy;
         cy = fold (remove_unseen now) (sn_domains prev) cy;
         cy = fold (announce now prev) (cy_domains cy) cy
     in cy\<lparr>cy_domains := map (respond (cy_domains cy)) (cy_domains cy)\<rparr>)"

definition sampled :: "World \<Rightarrow> PressureRuntime \<Rightarrow> DomainObservation list" where
  "sampled w rt = concat (map snd (polled w rt))"

text \<open>The published domains come from registered providers, so an unseen one has been withdrawn.\<close>

definition sourced :: "PressureRuntime \<Rightarrow> bool" where
  "sourced rt \<longleftrightarrow> (\<forall>d \<in> set (sn_domains (rt_current_snapshot rt)). ds_provider d \<in> ran (rt_providers rt))"

lemma nameless_observe:
  assumes "healthy_sources (rt_providers rt) w" "sourced rt" "rt_provider_health rt = []"
  shows "nameless (observe_cycle w now rt) = observed_cycle (rt_policy rt) (rt_budgets rt) now
     (nameless_snapshot (rt_current_snapshot rt)) (sampled w rt) (nameless (cycle_start rt))"
proof -
  have fresh: "\<forall>pd \<in> set (sn_domains (rt_current_snapshot rt)). \<not> not_fresh (cy_health (interpreted w now rt)) (ds_provider pd)"
  proof
    fix pd assume "pd \<in> set (sn_domains (rt_current_snapshot rt))"
    then have p: "ds_provider pd \<in> ran (rt_providers rt)" using assms(2) by (simp add: sourced_def)
    then show "\<not> not_fresh (cy_health (interpreted w now rt)) (ds_provider pd)"
      using healthy_outcome [OF assms(1) p]
      by (auto simp: not_fresh_def interpreted_fields(3) registered_all [OF assms(1)] outcome_status_def)
  qed
  have "cy_all (poll_all w now rt (cycle_start rt)) = polled w rt"
    by (simp add: poll_all_def poll_fold polled_def cycle_start_def)
  then have "nameless (interpreted w now rt) =
      fold (interpret_observation (rt_policy rt) (rt_budgets rt) now []) (sampled w rt) (nameless (cycle_start rt))"
    by (simp add: interpreted_def nameless_interpret_all poll_healthy [OF assms(1)] sampled_def)
  then show ?thesis
    using nameless_settle [OF fresh, of now]
    by (simp add: observe_cycle_def observed_cycle_def interpreted_def Let_def)
qed

text \<open>The same for the runtime itself.\<close>

definition nameless_runtime :: "PressureRuntime \<Rightarrow> PressureRuntime" where
  "nameless_runtime rt = rt\<lparr>rt_current_snapshot := nameless_snapshot (rt_current_snapshot rt),
     rt_history := map nameless_snapshot (rt_history rt), rt_providers := Map.empty, rt_stats := unmeasured (rt_stats rt)\<rparr>"

lemma nameless_runtimeD:
  assumes "nameless_runtime rt = nameless_runtime rt'"
  shows "rt_policy rt = rt_policy rt'" "rt_budgets rt = rt_budgets rt'" "rt_domain_states rt = rt_domain_states rt'"
    "rt_subscriptions rt = rt_subscriptions rt'" "rt_generation rt = rt_generation rt'" "rt_event_id rt = rt_event_id rt'"
    "rt_snapshot_id rt = rt_snapshot_id rt'" "rt_provider_health rt = rt_provider_health rt'"
    "nameless_snapshot (rt_current_snapshot rt) = nameless_snapshot (rt_current_snapshot rt')"
    "unmeasured (rt_stats rt) = unmeasured (rt_stats rt')"
  using arg_cong [OF assms, of rt_policy] arg_cong [OF assms, of rt_budgets] arg_cong [OF assms, of rt_domain_states]
    arg_cong [OF assms, of rt_subscriptions] arg_cong [OF assms, of rt_generation] arg_cong [OF assms, of rt_event_id]
    arg_cong [OF assms, of rt_snapshot_id] arg_cong [OF assms, of rt_provider_health]
    arg_cong [OF assms, of rt_current_snapshot] arg_cong [OF assms, of rt_stats]
  by (simp_all add: nameless_runtime_def)

lemma nameless_start:
  assumes "nameless_runtime rt = nameless_runtime rt'" shows "nameless (cycle_start rt) = nameless (cycle_start rt')"
  by (simp add: nameless_def cycle_start_def nameless_runtimeD [OF assms])

lemma nameless_publish:
  assumes "nameless_runtime rt = nameless_runtime rt'" "nameless_snapshot s = nameless_snapshot s'" "nameless cy = nameless cy'"
  shows "nameless_runtime (publish w s cy subs rt) = nameless_runtime (publish w' s' cy' subs rt')"
proof -
  have h: "map nameless_snapshot (rt_history rt) = map nameless_snapshot (rt_history rt')"
    "rt_history_limit rt = rt_history_limit rt'"
    using arg_cong [OF assms(1), of rt_history] arg_cong [OF assms(1), of rt_history_limit] by (simp_all add: nameless_runtime_def)
  have c: "cy_event_id cy = cy_event_id cy'" "cy_states cy = cy_states cy'" "cy_obs_count cy = cy_obs_count cy'"
    "unmeasured (cy_stats cy) = unmeasured (cy_stats cy')"
    using arg_cong [OF assms(3), of cy_event_id] arg_cong [OF assms(3), of cy_states] arg_cong [OF assms(3), of cy_obs_count]
      arg_cong [OF assms(3), of cy_stats] by simp_all
  have s: "sn_generation s = sn_generation s'" "sn_id s = sn_id s'"
    using arg_cong [OF assms(2), of sn_generation] arg_cong [OF assms(2), of sn_id] by (simp_all add: nameless_snapshot_def)
  have st: "st_snapshots (cy_stats cy) = st_snapshots (cy_stats cy')" "st_observations (cy_stats cy) = st_observations (cy_stats cy')"
    using arg_cong [OF c(4), of st_snapshots] arg_cong [OF c(4), of st_observations] by (simp_all add: unmeasured_def)
  have u: "unmeasured (x\<lparr>st_refresh_latency_us := l, st_snapshots := a, st_observations := b\<rparr>) =
      (unmeasured x)\<lparr>st_snapshots := a, st_observations := b\<rparr>" for x l a b by (simp add: unmeasured_def)
  have t: "take_last n (map nameless_snapshot xs @ [nameless_snapshot x]) = map nameless_snapshot (take_last n (xs @ [x]))" for n xs x
    by (simp add: map_take_last)
  have hist: "map nameless_snapshot (take_last n (rt_history rt @ [s])) = map nameless_snapshot (take_last n (rt_history rt' @ [s']))" for n
    using t [of n "rt_history rt" s] t [of n "rt_history rt'" s'] by (simp add: h(1) assms(2))
  note eqs = u st c s h(2) hist assms(2) nameless_runtimeD [OF assms(1)]
  show ?thesis
    by (rule PressureRuntime.equality) (simp_all add: nameless_runtime_def publish_def eqs)
qed

section \<open>Refreshes that agree\<close>

lemma observe_cycle_health: "cy_health (observe_cycle w now rt) = cy_health (interpreted w now rt)"
proof -
  have "cy_health (fold (announce now prev) ds cy) = cy_health cy" for prev ds cy
    by (induction ds arbitrary: cy) (simp_all add: announce_def)
  then show ?thesis by (simp add: observe_cycle_def settle_domains_def interpreted_def Let_def)
qed

text \<open>Two runtimes that only differ in what is forgotten, and see the same observations, do the same.\<close>

lemma refresh_agrees:
  assumes rt: "nameless_runtime rt = nameless_runtime rt'" "rt_provider_health rt = []"
    and healthy: "healthy_sources (rt_providers rt) w" "healthy_sources (rt_providers rt') w'"
    and src: "sourced rt" "sourced rt'"
    and obs: "sampled w rt = sampled w' rt'"
    and hc: "sn_provider_health (rt_current_snapshot rt) = cy_health (interpreted w now rt) \<longleftrightarrow>
      sn_provider_health (rt_current_snapshot rt') = cy_health (interpreted w' now rt')"
  shows "nameless_snapshot (refresh_snapshot w now rt) = nameless_snapshot (refresh_snapshot w' now rt')"
    and "nameless (refresh_cycle w now rt) = nameless (refresh_cycle w' now rt')"
    and "refresh_events w now rt = refresh_events w' now rt'"
proof -
  note same = nameless_runtimeD [OF rt(1)]
  let ?prev = "rt_current_snapshot rt" and ?prev' = "rt_current_snapshot rt'"
  have cy: "nameless (observe_cycle w now rt) = nameless (observe_cycle w' now rt')"
    using same(8) rt(2) by (simp add: nameless_observe healthy src same obs nameless_start [OF rt(1)])
  have draft: "nameless_snapshot (refresh_draft w now rt) = nameless_snapshot (refresh_draft w' now rt')"
    by (simp add: refresh_draft_def nameless_draft cy same)
  have "sn_provider_health (refresh_draft w now rt) = cy_health (interpreted w now rt)" for w rt
    by (simp add: refresh_draft_def draft_snapshot_def observe_cycle_health)
  then have diff: "diff_any (diff_snapshots ?prev (refresh_draft w now rt)) = diff_any (diff_snapshots ?prev' (refresh_draft w' now rt'))"
    using hc by (simp add: diff_nameless [of ?prev] diff_nameless [of ?prev'] draft same)
  have gen: "refresh_generation w now rt = refresh_generation w' now rt'"
    by (simp add: refresh_generation_def next_generation_def diff same)
  show fin: "nameless (refresh_cycle w now rt) = nameless (refresh_cycle w' now rt')"
    by (simp add: refresh_cycle_def event_cycle_half diff gen nameless_event_half draft cy same)
  show ev: "refresh_events w now rt = refresh_events w' now rt'"
    using arg_cong [OF fin, of cy_events] by (simp add: refresh_events_def)
  have upd: "nameless_snapshot (s\<lparr>sn_generation := g, sn_events := e\<rparr>) = (nameless_snapshot s)\<lparr>sn_generation := g, sn_events := e\<rparr>" for s g e
    by (simp add: nameless_snapshot_def)
  show "nameless_snapshot (refresh_snapshot w now rt) = nameless_snapshot (refresh_snapshot w' now rt')"
    by (simp add: refresh_snapshot_def upd gen ev draft)
qed

text \<open>What healthy sources publish is sourced again.\<close>

lemma interpret_providers:
  "ds_provider ` set (cy_domains (fold (\<lambda>(prov, obs). fold (interpret_observation pol bm now prov) obs) all cy)) \<subseteq>
     fst ` set all \<union> ds_provider ` set (cy_domains cy)"
proof -
  have one: "cy_domains (interpret_observation pol bm now prov ob c) = cy_domains c @ [d] \<Longrightarrow> ds_provider d = prov" for prov ob c d
    by (auto simp: interpret_observation_def publish_domain_def Let_def split_beta bump_def split: if_splits)
  have "\<exists>d. cy_domains (interpret_observation pol bm now prov ob c) = cy_domains c @ [d]" for prov ob c
    by (auto simp: interpret_observation_def Let_def split_beta bump_def)
  with one have step: "ds_provider ` set (cy_domains (interpret_observation pol bm now prov ob c)) =
      insert prov (ds_provider ` set (cy_domains c))" for prov ob c
    by (metis (no_types, lifting) Un_insert_right image_insert list.simps(15) set_append sup_bot_right list.set(1))
  have inner: "ds_provider ` set (cy_domains (fold (interpret_observation pol bm now prov) os c)) \<subseteq>
      insert prov (ds_provider ` set (cy_domains c))" for prov os c
  proof (induction os arbitrary: c)
    case (Cons a os)
    from Cons.IH [of "interpret_observation pol bm now prov a c"] show ?case by (simp only: step fold_Cons comp_def insert_absorb2)
  qed auto
  show ?thesis
  proof (induction all arbitrary: cy)
    case (Cons x all)
    obtain p os where x: "x = (p, os)" by (cases x)
    let ?c = "fold (interpret_observation pol bm now p) os cy"
    from Cons.IH [of ?c] have "ds_provider ` set (cy_domains (fold (\<lambda>(prov, obs). fold (interpret_observation pol bm now prov) obs) all ?c))
        \<subseteq> fst ` set all \<union> insert p (ds_provider ` set (cy_domains cy))"
      using inner [of p os cy] by (rule order_trans [OF _ Un_mono [OF order_refl]])
    then show ?case by (simp only: x fold_Cons comp_def prod.case) auto
  qed simp
qed

lemma sourced_refresh:
  assumes "healthy_sources (rt_providers rt) w" "sourced rt" "rt_provider_health rt = []" "rt_providers rt1 = rt_providers rt"
    "rt_current_snapshot rt1 = refresh_snapshot w now rt"
  shows "sourced rt1"
proof -
  have fresh: "kept_by (interpreted w now rt) pd = False" if "pd \<in> set (sn_domains (rt_current_snapshot rt))" for pd
    using that assms(2) healthy_outcome [OF assms(1), of "ds_provider pd"]
    by (auto simp: kept_by_def not_fresh_def interpreted_fields(3) registered_all [OF assms(1)] outcome_status_def sourced_def)
  then have "settled w now rt = cy_domains (interpreted w now rt)" by (simp add: settled_def filter_empty_conv)
  moreover have "fst ` set (polled w rt) \<subseteq> ran (rt_providers rt)"
    using registered_all [OF assms(1)]
    by (auto simp: polled_def List.map_filter_def outcome_samples_def split: sum.splits)
  moreover have "ds_provider ` set (cy_domains (interpreted w now rt)) \<subseteq> fst ` set (polled w rt)"
    using interpret_providers [of "rt_policy rt" "rt_budgets rt" now "polled w rt" "poll_all w now rt (cycle_start rt)"]
    by (simp add: interpreted_def interpret_all_def poll_all_def poll_fold polled_def cycle_start_def)
  ultimately have "ds_provider ` set (settled w now rt) \<subseteq> ran (rt_providers rt)" by (metis subset_trans)
  then show ?thesis by (auto simp: sourced_def assms(4,5) observe_cycle_domains)
qed

end
