(* ===== verification/Runs.thy ===== *)
theory Runs imports RuntimeProps begin

text \<open>
  Sequences of refreshes, as runs of a step function with an output, and simulations in lockstep between two
  such systems.
\<close>

section \<open>Runs\<close>

fun run_steps :: "('i \<Rightarrow> 's \<Rightarrow> ('o \<times> 's) option) \<Rightarrow> 'i list \<Rightarrow> 's \<Rightarrow> ('o list \<times> 's) option" where
  "run_steps step [] s = Some ([], s)"
| "run_steps step (i # is) s =
    (case step i s of None \<Rightarrow> None
     | Some (out, s') \<Rightarrow> (case run_steps step is s' of None \<Rightarrow> None | Some (outs, s'') \<Rightarrow> Some (out # outs, s'')))"

text \<open>One refresh as a step: the callbacks that run and the snapshot.\<close>

definition live_step :: "World \<times> u64 \<Rightarrow> PressureRuntime \<Rightarrow> (((nat \<times> PressureEvent) list \<times> Snapshot) \<times> PressureRuntime) option" where
  "live_step c rt = (case refresh (fst c) (snd c) rt of None \<Rightarrow> None | Some (calls, snap, rt') \<Rightarrow> Some ((calls, snap), rt'))"

text \<open>A configured runtime for the examples; its provider is that of \<open>seen_world\<close>.\<close>

definition demo_runtime :: PressureRuntime where
  "demo_runtime = register_provider (Some ''p'') PressureRuntime_new"

lemma demo_runtime_facts: "rt_reachable demo_runtime" "rt_current_snapshot demo_runtime = Snapshot_init"
  "rt_providers demo_runtime = [provider_key ''p'' \<mapsto> ''p'']" "rt_domain_states demo_runtime = Map.empty"
  unfolding demo_runtime_def
  by (intro rt_reachable.step [OF rt_reachable.start rt_step.provider]) (simp_all add: register_provider_def PressureRuntime_new_def)

section \<open>Simulation in lockstep\<close>

text \<open>The relation knows the inputs to come, since the second system has recorded them.\<close>

locale lockstep =
  fixes step :: "'i \<Rightarrow> 's \<Rightarrow> ('o \<times> 's) option" and step' :: "'j \<Rightarrow> 't \<Rightarrow> ('p \<times> 't) option"
    and input :: "'i \<Rightarrow> 'j" and related :: "'i list \<Rightarrow> 's \<Rightarrow> 't \<Rightarrow> bool" and same :: "'o \<Rightarrow> 'p \<Rightarrow> bool"
  assumes simulation: "related (i # is) s t \<Longrightarrow> \<exists>out s1 out' t1. step i s = Some (out, s1) \<and>
    step' (input i) t = Some (out', t1) \<and> same out out' \<and> related is s1 t1"
begin

lemma runs_agree: "related is s t \<Longrightarrow> \<exists>outs s1 outs' t1. run_steps step is s = Some (outs, s1) \<and>
    run_steps step' (map input is) t = Some (outs', t1) \<and> list_all2 same outs outs' \<and> related [] s1 t1"
proof (induction "is" arbitrary: s t)
  case (Cons i "is")
  from simulation [OF Cons.prems] obtain out s1 out' t1 where
    one: "step i s = Some (out, s1)" "step' (input i) t = Some (out', t1)" "same out out'" "related is s1 t1" by blast
  from Cons.IH [OF one(4)] one(1-3) show ?case by force
qed simp

end

end
