(* ===== verification/DomainMachine.thy ===== *)
theory DomainMachine imports Anonymous Runs begin

text \<open>
  The runtime as a product of state machines, one per domain: a refresh runs, for every identity, the machine
  of that domain on its own observations, whatever other domains and providers do. Over a sequence of
  refreshes the machine is the closed loop of classifier and debouncer, so the guarantees of the debouncer hold
  of the levels that the snapshots publish.
\<close>

section \<open>The machine of a domain\<close>

definition domain_step :: "PressurePolicy \<Rightarrow> (PressureDomainId \<rightharpoonup> Budget) \<Rightarrow> u64 \<Rightarrow> DomainObservation \<Rightarrow>
    DomainRuntimeState option \<Rightarrow> DomainRuntimeState option" where
  "domain_step pol bm now ob st = (case governing_budget bm (obs_id ob) of (bud, governed) \<Rightarrow>
     Some (advance_domain pol bud governed now ob (touch_domain pol ob (\<lambda>_. st))))"

text \<open>The levels after each observation of a cycle.\<close>

fun domain_levels :: "PressurePolicy \<Rightarrow> (PressureDomainId \<rightharpoonup> Budget) \<Rightarrow> u64 \<Rightarrow> DomainObservation list \<Rightarrow>
    DomainRuntimeState option \<Rightarrow> PressureLevel list" where
  "domain_levels pol bm now [] st = []"
| "domain_levels pol bm now (ob # obs) st =
    (let st' = domain_step pol bm now ob st in hs_level (drs_hysteresis (the st')) # domain_levels pol bm now obs st')"

lemma publish_domain_fields:
  "ds_id (publish_domain pol bud g now prov ob prev st) = obs_id ob"
  "ds_level (publish_domain pol bud g now prov ob prev st) = hs_level (drs_hysteresis st)"
  by (simp_all add: publish_domain_def Let_def)

lemma touch_local: "touch_domain pol ob states = touch_domain pol ob (\<lambda>_. states (obs_id ob))"
  by (simp add: touch_domain_def)

text \<open>What an observation does to the state of a domain, and to its published levels.\<close>

definition levels_of :: "PressureDomainId \<Rightarrow> DomainState list \<Rightarrow> PressureLevel list" where
  "levels_of i ds = map ds_level (filter (\<lambda>d. ds_id d = i) ds)"

lemma levels_of_simps [simp]: "levels_of i [] = []" "levels_of i (ds @ ds') = levels_of i ds @ levels_of i ds'"
  by (simp_all add: levels_of_def)

lemma interpret_step:
  "cy_states (interpret_observation pol bm now prov ob cy) i =
     (if obs_id ob = i then domain_step pol bm now ob (cy_states cy i) else cy_states cy i)"
  "levels_of i (cy_domains (interpret_observation pol bm now prov ob cy)) = levels_of i (cy_domains cy) @
     (if obs_id ob = i then [hs_level (drs_hysteresis (the (domain_step pol bm now ob (cy_states cy i))))] else [])"
proof -
  obtain bud g where b: "governing_budget bm (obs_id ob) = (bud, g)" by fastforce
  note t = touch_local [of pol ob "cy_states cy"]
  have s: "domain_step pol bm now ob (cy_states cy (obs_id ob)) = Some (advance_domain pol bud g now ob (touch_domain pol ob (cy_states cy)))"
    by (simp add: domain_step_def b flip: t)
  have states: "cy_states (interpret_observation pol bm now prov ob cy) =
      (cy_states cy)(obs_id ob := domain_step pol bm now ob (cy_states cy (obs_id ob)))"
    unfolding s by (simp add: interpret_observation_def b Let_def)
  show "cy_states (interpret_observation pol bm now prov ob cy) i =
      (if obs_id ob = i then domain_step pol bm now ob (cy_states cy i) else cy_states cy i)"
    unfolding states by auto
  have "levels_of i (cy_domains (interpret_observation pol bm now prov ob cy)) = levels_of i (cy_domains cy) @
      (if obs_id ob = i then [hs_level (drs_hysteresis (the (domain_step pol bm now ob (cy_states cy (obs_id ob)))))] else [])"
    unfolding s by (simp add: interpret_observation_def b Let_def levels_of_def publish_domain_fields)
  then show "levels_of i (cy_domains (interpret_observation pol bm now prov ob cy)) = levels_of i (cy_domains cy) @
      (if obs_id ob = i then [hs_level (drs_hysteresis (the (domain_step pol bm now ob (cy_states cy i))))] else [])"
    by auto
qed

lemma levels_of_respond: "levels_of i (map (respond ds') ds) = levels_of i ds"
  by (simp add: levels_of_def filter_map comp_def)

definition concerning :: "PressureDomainId \<Rightarrow> DomainObservation list \<Rightarrow> DomainObservation list" where
  "concerning i obs = filter (\<lambda>ob. obs_id ob = i) obs"

lemma concerning_simps [simp]: "concerning i [] = []"
  "concerning i (ob # obs) = (if obs_id ob = i then ob # concerning i obs else concerning i obs)"
  "concerning i (xs @ ys) = concerning i xs @ concerning i ys"
  by (simp_all add: concerning_def)

lemma concerning_empty: "concerning i obs = [] \<longleftrightarrow> i \<notin> obs_id ` set obs"
  by (auto simp: concerning_def filter_empty_conv)

lemma domain_levels_append: "domain_levels pol bm now (xs @ ys) st =
    domain_levels pol bm now xs st @ domain_levels pol bm now ys (fold (domain_step pol bm now) xs st)"
  by (induction xs arbitrary: st) (simp_all add: Let_def)

lemma interpret_machine:
  "cy_states (fold (interpret_observation pol bm now prov) obs cy) i =
     fold (domain_step pol bm now) (concerning i obs) (cy_states cy i)"
  "levels_of i (cy_domains (fold (interpret_observation pol bm now prov) obs cy)) =
     levels_of i (cy_domains cy) @ domain_levels pol bm now (concerning i obs) (cy_states cy i)"
  by (induction obs arbitrary: cy) (simp_all add: interpret_step Let_def)

lemma interpret_batches_machine:
  "cy_states (fold (\<lambda>(prov, obs). fold (interpret_observation pol bm now prov) obs) all cy) i =
     fold (domain_step pol bm now) (concerning i (concat (map snd all))) (cy_states cy i)"
  "levels_of i (cy_domains (fold (\<lambda>(prov, obs). fold (interpret_observation pol bm now prov) obs) all cy)) =
     levels_of i (cy_domains cy) @
       domain_levels pol bm now (concerning i (concat (map snd all))) (cy_states cy i)"
  by (induction all arbitrary: cy) (simp_all add: interpret_machine domain_levels_append split_beta)

lemma interpreted_machine:
  "cy_states (interpreted w now rt) i =
     fold (domain_step (rt_policy rt) (rt_budgets rt) now) (concerning i (sampled w rt)) (rt_domain_states rt i)"
  "levels_of i (cy_domains (interpreted w now rt)) =
     domain_levels (rt_policy rt) (rt_budgets rt) now (concerning i (sampled w rt)) (rt_domain_states rt i)"
proof -
  have p: "cy_all (poll_all w now rt (cycle_start rt)) = polled w rt" "cy_states (poll_all w now rt (cycle_start rt)) = rt_domain_states rt"
    "cy_domains (poll_all w now rt (cycle_start rt)) = []"
    by (simp_all add: poll_all_def poll_fold polled_def cycle_start_def)
  show "cy_states (interpreted w now rt) i =
      fold (domain_step (rt_policy rt) (rt_budgets rt) now) (concerning i (sampled w rt)) (rt_domain_states rt i)"
    "levels_of i (cy_domains (interpreted w now rt)) =
      domain_levels (rt_policy rt) (rt_budgets rt) now (concerning i (sampled w rt)) (rt_domain_states rt i)"
    by (simp_all add: interpreted_def interpret_all_def interpret_batches_machine p sampled_def)
qed

lemma sampled_ids: "obs_id ` set (sampled w rt) = set (observed_ids (polled w rt))"
  by (force simp: observed_ids_def sampled_def)

text \<open>A refresh, one domain at a time.\<close>

lemma refresh_machine:
  assumes "rt_inv rt" "refresh w now rt = Some (calls, snap, rt')"
  shows "rt_domain_states rt' i =
      (if concerning i (sampled w rt) = [] \<and>
          (\<exists>pd \<in> set (sn_domains (rt_current_snapshot rt)). ds_id pd = i \<and> \<not> unavailable w rt (ds_provider pd))
       then None
       else fold (domain_step (rt_policy rt) (rt_budgets rt) now) (concerning i (sampled w rt)) (rt_domain_states rt i))"
    and "concerning i (sampled w rt) \<noteq> [] \<Longrightarrow> levels_of i (sn_domains snap) =
      domain_levels (rt_policy rt) (rt_budgets rt) now (concerning i (sampled w rt)) (rt_domain_states rt i)"
proof -
  from refreshE [OF assms] obtain subs where
    s: "snap = refresh_snapshot w now rt" "rt' = publish w snap (refresh_cycle w now rt) subs rt" by metis
  let ?cy = "interpreted w now rt"
  have obs: "set (cy_observed ?cy) = obs_id ` set (sampled w rt)" by (simp add: interpreted_fields(1) sampled_ids)
  have "rt_domain_states rt' i = cy_states (observe_cycle w now rt) i" by (simp add: s(2) publish_def refresh_cycle_def)
  then show "rt_domain_states rt' i =
      (if concerning i (sampled w rt) = [] \<and>
          (\<exists>pd \<in> set (sn_domains (rt_current_snapshot rt)). ds_id pd = i \<and> \<not> unavailable w rt (ds_provider pd))
       then None
       else fold (domain_step (rt_policy rt) (rt_budgets rt) now) (concerning i (sampled w rt)) (rt_domain_states rt i))"
    by (auto simp: observe_cycle_states interpreted_machine removed_by_def obs concerning_empty not_fresh_unavailable [OF assms(1)])
  assume "concerning i (sampled w rt) \<noteq> []"
  then have "i \<in> set (cy_observed ?cy)" by (simp add: obs concerning_empty)
  then have none: "filter (\<lambda>d. ds_id d = i) (map (keeper now) (filter (kept_by ?cy) pds)) = []" for pds
    by (auto simp: filter_empty_conv kept_by_def)
  have "levels_of i (sn_domains snap) = levels_of i (settled w now rt)"
    by (simp add: s(1) observe_cycle_domains levels_of_respond)
  also have "\<dots> = levels_of i (cy_domains ?cy)"
    by (simp add: settled_def) (simp add: levels_of_def none)
  finally show "levels_of i (sn_domains snap) =
      domain_levels (rt_policy rt) (rt_budgets rt) now (concerning i (sampled w rt)) (rt_domain_states rt i)"
    by (simp only: interpreted_machine(2))
qed

section \<open>The closed loop over a sequence of readings\<close>

definition driven :: "Thresholds \<Rightarrow> HysteresisConfig \<Rightarrow> (double \<times> u64) list \<Rightarrow> HysteresisState" where
  "driven t cfg rs = fold (hyst_drive t) rs (HysteresisState_new cfg)"

text \<open>The inputs that the classifier gives to the debouncer.\<close>

definition proposals :: "Thresholds \<Rightarrow> HysteresisConfig \<Rightarrow> (double \<times> u64) list \<Rightarrow> nat \<Rightarrow> (PressureLevel \<times> u64) list" where
  "proposals t cfg rs k = map (\<lambda>j. (evaluate_level (fst (rs ! j)) (hs_level (driven t cfg (take j rs))) t, snd (rs ! j))) [0..<k]"

lemma length_proposals [simp]: "length (proposals t cfg rs k) = k"
  by (simp add: proposals_def)

lemma proposals_Suc: "proposals t cfg rs (Suc k) = proposals t cfg rs k @
    [(evaluate_level (fst (rs ! k)) (hs_level (driven t cfg (take k rs))) t, snd (rs ! k))]"
  by (simp add: proposals_def)

lemma nth_proposals: "j < k \<Longrightarrow> proposals t cfg rs k ! j =
    (evaluate_level (fst (rs ! j)) (hs_level (driven t cfg (take j rs))) t, snd (rs ! j))"
  by (simp add: proposals_def)

lemma proposals_known: "\<forall>p \<in> set (proposals t cfg rs k). fst p \<noteq> PL_Unknown"
  by (auto simp: proposals_def evaluate_known)

lemma driven_Suc: "k < length rs \<Longrightarrow> driven t cfg (take (Suc k) rs) = hyst_drive t (rs ! k) (driven t cfg (take k rs))"
  by (simp add: driven_def take_Suc_conv_app_nth)

lemma driven_run: "k \<le> length rs \<Longrightarrow> hyst_run cfg (proposals t cfg rs k) = driven t cfg (take k rs)"
proof (induction k)
  case 0
  then show ?case by (simp add: proposals_def hyst_run_def driven_def)
next
  case (Suc k)
  then have "hyst_run cfg (proposals t cfg rs k) = driven t cfg (take k rs)" by simp
  then show ?case using Suc.prems by (simp add: proposals_Suc hyst_run_snoc driven_Suc hyst_drive_def split_beta)
qed

lemma driven_debounced:
  assumes k: "k < length rs" and changed: "hs_level (driven t cfg (take (Suc k) rs)) \<noteq> hs_level (driven t cfg (take k rs))"
    and ne: "\<not> (hs_level (driven t cfg (take (Suc k) rs)) = PL_Exhausted \<and> immediate_emergency_escalation cfg)"
  shows "\<exists>n. 0 < n \<and> n \<le> Suc k \<and> unat (min_dwell_observations cfg) \<le> n \<and>
    (\<forall>j. Suc k - n \<le> j \<and> j \<le> k \<longrightarrow> evaluate_level (fst (rs ! j)) (hs_level (driven t cfg (take j rs))) t =
       hs_level (driven t cfg (take (Suc k) rs))) \<and>
    dge (of_u64 (snd (rs ! k) - snd (rs ! (Suc k - n)))) (min_dwell_duration_ms cfg)"
proof -
  define raw where "raw = evaluate_level (fst (rs ! k)) (hs_level (driven t cfg (take k rs))) t"
  let ?new = "hs_level (driven t cfg (take (Suc k) rs))"
  have ps: "proposals t cfg rs (Suc k) = proposals t cfg rs k @ [(raw, snd (rs ! k))]" by (simp add: proposals_Suc raw_def)
  have runs: "hyst_run cfg (proposals t cfg rs k) = driven t cfg (take k rs)"
    "hyst_run cfg (proposals t cfg rs k @ [(raw, snd (rs ! k))]) = driven t cfg (take (Suc k) rs)"
    using driven_run [of k rs cfg t] driven_run [of "Suc k" rs cfg t] k by (simp_all add: ps)
  have "?new = raw"
    using hyst_update_level [of raw "snd (rs ! k)" "driven t cfg (take k rs)"] changed
    by (auto simp: driven_Suc [OF k] hyst_drive_def split_beta raw_def)
  moreover have "\<forall>p \<in> set (proposals t cfg rs k @ [(raw, snd (rs ! k))]). fst p \<noteq> PL_Unknown"
    using proposals_known [of t cfg rs "Suc k"] by (simp only: ps)
  ultimately obtain xs ys where ys: "proposals t cfg rs (Suc k) = xs @ ys" "\<forall>y \<in> set ys. fst y = ?new" "ys \<noteq> []"
      "unat (min_dwell_observations cfg) \<le> length ys"
      "dge (of_u64 (snd (rs ! k) - snd (hd ys))) (min_dwell_duration_ms cfg)"
    using debounced [of "proposals t cfg rs k" raw "snd (rs ! k)" cfg] changed ne
    by (auto simp: runs ps)
  have len: "length xs = Suc k - length ys" "length ys \<le> Suc k"
    using arg_cong [OF ys(1), of length] by simp_all
  have nth: "proposals t cfg rs (Suc k) ! j = ys ! (j - length xs)" "j - length xs < length ys" if "Suc k - length ys \<le> j" "j \<le> k" for j
    using that len by (auto simp: ys(1) nth_append)
  have "evaluate_level (fst (rs ! j)) (hs_level (driven t cfg (take j rs))) t = ?new" if "Suc k - length ys \<le> j" "j \<le> k" for j
    using nth [OF that] ys(2) that by (simp add: nth_proposals) (metis fst_conv nth_mem)
  moreover have "snd (hd ys) = snd (rs ! (Suc k - length ys))"
  proof -
    have j: "Suc k - length ys < Suc k" "length ys \<noteq> 0" using ys(3) by (cases ys; simp)+
    then have "proposals t cfg rs (Suc k) ! (Suc k - length ys) = ys ! 0"
      using nth(1) [of "Suc k - length ys"] len(1) by simp
    then show ?thesis using nth_proposals [OF j(1), of t cfg rs] ys(3) by (metis hd_conv_nth snd_conv)
  qed
  ultimately show ?thesis using ys(3-5) len(2) by (intro exI [of _ "length ys"]) auto
qed

section \<open>Runs of the runtime\<close>

text \<open>The utilization that a cycle reports of a domain, and when.\<close>

definition reading :: "PressureDomainId \<Rightarrow> PressureRuntime \<Rightarrow> World \<times> u64 \<Rightarrow> double \<times> u64" where
  "reading i rt c =
    (let ob = hd (concerning i (sampled (fst c) rt)); (bud, governed) = governing_budget (rt_budgets rt) i
     in (utilization_for (obs_committed ob) (usable_for bud governed ob), snd c))"

definition debouncer :: "PressureDomainId \<Rightarrow> PressureRuntime \<Rightarrow> HysteresisState" where
  "debouncer i rt = (case rt_domain_states rt i of None \<Rightarrow> HysteresisState_new (hysteresis (rt_policy rt)) | Some st \<Rightarrow> drs_hysteresis st)"

lemma domain_step_drive:
  "drs_hysteresis (the (domain_step pol bm now ob st)) =
    hyst_drive (thresholds pol) (case governing_budget bm (obs_id ob) of (bud, governed) \<Rightarrow>
      (utilization_for (obs_committed ob) (usable_for bud governed ob), now))
      (case st of None \<Rightarrow> HysteresisState_new (hysteresis pol) | Some s \<Rightarrow> drs_hysteresis s)"
  by (simp add: domain_step_def hyst_drive_def advance_domain_fields touch_domain_def DomainRuntimeState_new_def Let_def
      split: prod.split option.split)

lemma refresh_reading:
  assumes "rt_inv rt" "refresh w now rt = Some (calls, snap, rt')" "length (concerning i (sampled w rt)) = 1"
  shows "debouncer i rt' = hyst_drive (thresholds (rt_policy rt)) (reading i rt (w, now)) (debouncer i rt)"
    and "levels_of i (sn_domains snap) = [hs_level (debouncer i rt')]"
    and "rt_policy rt' = rt_policy rt" "rt_budgets rt' = rt_budgets rt" "rt_providers rt' = rt_providers rt"
proof -
  from refreshE [OF assms(1,2)] obtain subs where rt': "rt' = publish w snap (refresh_cycle w now rt) subs rt" by metis
  show "rt_policy rt' = rt_policy rt" "rt_budgets rt' = rt_budgets rt" "rt_providers rt' = rt_providers rt"
    by (simp_all add: rt' publish_def)
  obtain ob where ob: "concerning i (sampled w rt) = [ob]" using assms(3) by (metis One_nat_def length_0_conv length_Suc_conv)
  then have "ob \<in> set (filter (\<lambda>ob. obs_id ob = i) (sampled w rt))" unfolding concerning_def by simp
  then have i: "obs_id ob = i" by simp
  note m = refresh_machine [OF assms(1,2), of i, unfolded ob]
  have st: "rt_domain_states rt' i = domain_step (rt_policy rt) (rt_budgets rt) now ob (rt_domain_states rt i)"
    using m(1) by simp
  have d: "debouncer i rt' = drs_hysteresis (the (domain_step (rt_policy rt) (rt_budgets rt) now ob (rt_domain_states rt i)))"
    by (simp add: debouncer_def st) (simp add: domain_step_def split_beta)
  then show "debouncer i rt' = hyst_drive (thresholds (rt_policy rt)) (reading i rt (w, now)) (debouncer i rt)"
    by (simp add: domain_step_drive reading_def ob i debouncer_def Let_def split_beta)
  show "levels_of i (sn_domains snap) = [hs_level (debouncer i rt')]" using m(2) by (simp add: d Let_def)
qed

lemma reading_same: "rt_budgets rt' = rt_budgets rt \<Longrightarrow> rt_providers rt' = rt_providers rt \<Longrightarrow> reading i rt' = reading i rt"
  by (rule ext) (simp add: reading_def sampled_def polled_def registered_def)

lemma run_driven:
  assumes "rt_inv rt" "\<forall>c \<in> set cs. length (concerning i (sampled (fst c) rt)) = 1" "run_steps live_step cs rt = Some (outs, rt')"
  shows "length outs = length cs \<and> (\<forall>k < length cs. levels_of i (sn_domains (snd (outs ! k))) =
    [hs_level (fold (hyst_drive (thresholds (rt_policy rt))) (map (reading i rt) (take (Suc k) cs)) (debouncer i rt))])"
  using assms
proof (induction cs arbitrary: rt outs)
  case (Cons c cs)
  from Cons.prems(3) obtain out rt1 outs1 where
    l: "live_step c rt = Some (out, rt1)" "run_steps live_step cs rt1 = Some (outs1, rt')" "outs = out # outs1"
    by (auto split: option.splits)
  from l(1) obtain calls snap where "refresh (fst c) (snd c) rt = Some (calls, snap, rt1)" "out = (calls, snap)"
    by (auto simp: live_step_def split: option.splits)
  with l have r: "refresh (fst c) (snd c) rt = Some (calls, snap, rt1)" "run_steps live_step cs rt1 = Some (outs1, rt')"
    "outs = (calls, snap) # outs1" by simp_all
  have one: "length (concerning i (sampled (fst c) rt)) = 1" using Cons.prems(2) by simp
  note s = refresh_reading [OF Cons.prems(1) r(1) one]
  have "sampled w rt1 = sampled w rt" for w by (simp add: sampled_def polled_def registered_def s(5))
  then have IH: "length outs1 = length cs \<and> (\<forall>k < length cs. levels_of i (sn_domains (snd (outs1 ! k))) =
      [hs_level (fold (hyst_drive (thresholds (rt_policy rt))) (map (reading i rt) (take (Suc k) cs)) (debouncer i rt1))])"
    using Cons.IH [OF refresh_inv [OF Cons.prems(1) r(1)] _ r(2)] Cons.prems(2) by (simp add: s(3) reading_same [OF s(4,5)])
  show ?case
  proof (intro conjI allI impI)
    show "length outs = length (c # cs)" using IH by (simp add: r(3))
    fix k assume k: "k < length (c # cs)"
    show "levels_of i (sn_domains (snd (outs ! k))) =
        [hs_level (fold (hyst_drive (thresholds (rt_policy rt))) (map (reading i rt) (take (Suc k) (c # cs))) (debouncer i rt))]"
    proof (cases k)
      case 0
      then show ?thesis using s(1,2) by (simp add: r(3))
    next
      case (Suc j)
      then show ?thesis using IH k s(1) by (simp add: r(3))
    qed
  qed
qed simp

section \<open>The properties\<close>

text \<open>
  C6. The runtime refines a product of independent state machines, one per identity. After a refresh the state of a domain is
  that of its own machine, run on the observations of this domain only, in their order; other domains and other providers have
  no influence. Without an observation the state is untouched, or dropped when a provider that answered no longer
  reports the domain. The levels that the snapshot publishes for an observed domain are those of its machine.
\<close>

theorem refresh_per_domain:
  assumes "rt_reachable rt" "refresh w now rt = Some (calls, snap, rt')"
  shows "rt_domain_states rt' i =
      (if concerning i (sampled w rt) = [] \<and>
          (\<exists>pd \<in> set (sn_domains (rt_current_snapshot rt)). ds_id pd = i \<and> \<not> unavailable w rt (ds_provider pd))
       then None
       else fold (domain_step (rt_policy rt) (rt_budgets rt) now) (concerning i (sampled w rt)) (rt_domain_states rt i)) \<and>
    (concerning i (sampled w rt) \<noteq> [] \<longrightarrow> levels_of i (sn_domains snap) =
      domain_levels (rt_policy rt) (rt_budgets rt) now (concerning i (sampled w rt)) (rt_domain_states rt i))"
  using refresh_machine [OF rt_reachable_inv [OF assms(1)] assms(2), of i] by blast

lemma demo_sampled: "concerning (DomainId 1 2) (sampled seen_world demo_runtime) = [DomainObservation_init\<lparr>obs_id := DomainId 1 2\<rparr>]"
  by (simp add: concerning_def sampled_def polled_def registered_def demo_runtime_facts seen_world_def outcome_samples_def
      List.map_filter_simps)

lemma refresh_per_domain_witness:
  "\<exists>rt'::PressureRuntime. rt_domain_states rt' (DomainId 1 2) = domain_step (rt_policy demo_runtime) (rt_budgets demo_runtime) 5
     (DomainObservation_init\<lparr>obs_id := DomainId 1 2\<rparr>) None"
proof -
  obtain calls snap rt' where r: "refresh seen_world 5 demo_runtime = Some (calls, snap, rt')"
    using refresh_total [OF rt_reachable_inv [OF demo_runtime_facts(1)]] by blast
  from refresh_per_domain [OF demo_runtime_facts(1) r, of "DomainId 1 2"] show ?thesis
    by (auto simp: demo_sampled demo_runtime_facts(4))
qed

text \<open>
  C2. The levels that a run of refreshes publishes are debounced and keep to the band of the thresholds. Take a domain that the
  runtime does not know yet and any cycles in each of which it is observed once, whatever else happens. Every snapshot
  publishes one level for it. When the published level changes, other than by an immediate emergency, the last
  readings, at least \<open>min_dwell_observations\<close> many and spanning at least \<open>min_dwell_duration_ms\<close>, were all classified, against the
  levels published before them, as the new level. A rise has reached the enter threshold of the new level; a fall is
  by one level and at or below the exit threshold of the level it leaves.
\<close>

theorem published_levels:
  assumes "rt_reachable rt" "rt_domain_states rt i = None"
    and "\<forall>c \<in> set cycles. length (concerning i (sampled (fst c) rt)) = 1"
    and "run_steps live_step cycles rt = Some (outs, rt')"
  shows "\<exists>P. P 0 = PL_Normal \<and> (\<forall>k < length cycles.
    levels_of i (sn_domains (snd (outs ! k))) = [P (Suc k)] \<and>
    (P (Suc k) \<noteq> P k \<and> \<not> (P (Suc k) = PL_Exhausted \<and> immediate_emergency_escalation (hysteresis (rt_policy rt))) \<longrightarrow>
      (\<exists>n. 0 < n \<and> n \<le> Suc k \<and> unat (min_dwell_observations (hysteresis (rt_policy rt))) \<le> n \<and>
        (\<forall>j. Suc k - n \<le> j \<and> j \<le> k \<longrightarrow>
           evaluate_level (fst (reading i rt (cycles ! j))) (P j) (thresholds (rt_policy rt)) = P (Suc k)) \<and>
        dge (of_u64 (snd (cycles ! k) - snd (cycles ! (Suc k - n)))) (min_dwell_duration_ms (hysteresis (rt_policy rt))))) \<and>
    (severity_rank (P k) < severity_rank (P (Suc k)) \<and> P (Suc k) \<noteq> PL_Normal \<longrightarrow>
      dge (fst (reading i rt (cycles ! k))) (enter_threshold (thresholds (rt_policy rt)) (P (Suc k)))) \<and>
    (severity_rank (P (Suc k)) < severity_rank (P k) \<longrightarrow> severity_rank (P (Suc k)) = severity_rank (P k) - 1 \<and>
      dle (fst (reading i rt (cycles ! k))) (exit_threshold (thresholds (rt_policy rt)) (P k))))"
proof -
  have inv: "rt_inv rt" using assms(1) by (rule rt_reachable_inv)
  let ?t = "thresholds (rt_policy rt)" and ?cfg = "hysteresis (rt_policy rt)"
  let ?rs = "map (reading i rt) cycles"
  define P where "P k = hs_level (driven ?t ?cfg (take k ?rs))" for k
  have ok: "thresholds_ok ?t" using inv by (simp add: rt_inv_def validate_policy_None)
  have pub: "levels_of i (sn_domains (snd (outs ! k))) = [P (Suc k)]" if "k < length cycles" for k
    using run_driven [OF inv assms(3,4)] that by (simp add: debouncer_def assms(2) P_def driven_def take_map)
  have time: "snd (reading i rt c) = snd c" for c by (simp add: reading_def Let_def split_beta)
  have deb: "\<exists>n. 0 < n \<and> n \<le> Suc k \<and> unat (min_dwell_observations ?cfg) \<le> n \<and>
      (\<forall>j. Suc k - n \<le> j \<and> j \<le> k \<longrightarrow> evaluate_level (fst (reading i rt (cycles ! j))) (P j) ?t = P (Suc k)) \<and>
      dge (of_u64 (snd (cycles ! k) - snd (cycles ! (Suc k - n)))) (min_dwell_duration_ms ?cfg)"
    if k: "k < length cycles" and ch: "P (Suc k) \<noteq> P k" "\<not> (P (Suc k) = PL_Exhausted \<and> immediate_emergency_escalation ?cfg)" for k
  proof -
    from driven_debounced [of k ?rs ?t ?cfg] k ch obtain n where n: "0 < n" "n \<le> Suc k" "unat (min_dwell_observations ?cfg) \<le> n"
      "\<forall>j. Suc k - n \<le> j \<and> j \<le> k \<longrightarrow> evaluate_level (fst (?rs ! j)) (P j) ?t = P (Suc k)"
      "dge (of_u64 (snd (?rs ! k) - snd (?rs ! (Suc k - n)))) (min_dwell_duration_ms ?cfg)"
      unfolding P_def by auto
    have "?rs ! j = reading i rt (cycles ! j)" if "j \<le> k" for j using that k by simp
    then show ?thesis using n by (intro exI [of _ n]) (auto simp: time)
  qed
  have band: "(severity_rank (P k) < severity_rank (P (Suc k)) \<and> P (Suc k) \<noteq> PL_Normal \<longrightarrow>
      dge (fst (reading i rt (cycles ! k))) (enter_threshold ?t (P (Suc k)))) \<and>
    (severity_rank (P (Suc k)) < severity_rank (P k) \<longrightarrow> severity_rank (P (Suc k)) = severity_rank (P k) - 1 \<and>
      dle (fst (reading i rt (cycles ! k))) (exit_threshold ?t (P k)))" if "k < length cycles" for k
    using band_step [OF ok, of "driven ?t ?cfg (take (Suc k) ?rs)" "fst (?rs ! k)" "snd (?rs ! k)" "driven ?t ?cfg (take k ?rs)"]
      driven_Suc [of k ?rs ?t ?cfg] that by (simp add: P_def)
  have "P 0 = PL_Normal" by (simp add: P_def driven_def HysteresisState_new_def)
  then show ?thesis using pub deb band by (intro exI [of _ P]) blast
qed

lemma published_levels_witness:
  "\<exists>outs rt'. run_steps live_step [(seen_world, 5), (seen_world, 9)] demo_runtime = Some (outs, rt') \<and>
    (\<exists>l. levels_of (DomainId 1 2) (sn_domains (snd (outs ! 1))) = [l])"
proof -
  have inv: "rt_inv demo_runtime" by (rule rt_reachable_inv [OF demo_runtime_facts(1)])
  obtain calls snap rt1 where r: "refresh seen_world 5 demo_runtime = Some (calls, snap, rt1)" using refresh_total [OF inv] by blast
  obtain calls2 snap2 rt2 where r2: "refresh seen_world 9 rt1 = Some (calls2, snap2, rt2)"
    using refresh_total [OF refresh_inv [OF inv r]] by blast
  have run: "run_steps live_step [(seen_world, 5), (seen_world, 9)] demo_runtime = Some ([(calls, snap), (calls2, snap2)], rt2)"
    by (simp add: live_step_def r r2)
  have "rt_domain_states demo_runtime (DomainId 1 2) = None"
    "\<forall>c \<in> set [(seen_world, 5), (seen_world, 9)]. length (concerning (DomainId 1 2) (sampled (fst c) demo_runtime)) = 1"
    by (simp_all add: demo_runtime_facts(4) demo_sampled)
  from published_levels [OF demo_runtime_facts(1) this run] obtain P where
    "\<forall>k < length [(seen_world, 5), (seen_world, 9 :: u64)].
       levels_of (DomainId 1 2) (sn_domains (snd ([(calls, snap), (calls2, snap2)] ! k))) = [P (Suc k)]" by blast
  then have "levels_of (DomainId 1 2) (sn_domains (snd ([(calls, snap), (calls2, snap2)] ! 1))) = [P 2]"
    by (auto simp: numeral_2_eq_2)
  with run show ?thesis by blast
qed

end
