(* ===== verification/TraceReplay.thy ===== *)
theory TraceReplay imports Anonymous Traces Runs begin

text \<open>
  What trace.h promises of a recorded trace: replayed through a \<open>TraceProvider\<close> that is the only
  provider of a runtime with the same configuration, it reproduces the original refreshes. The proof is a
  simulation in lockstep, up to what a replay cannot know: the names of the providers, their health map
  and the measured latency. It needs healthy providers: the last section replays a failure.
\<close>

section \<open>Recording and replaying\<close>

text \<open>The frame that records it: the observations of the cycle in order, and the health of the providers.\<close>

definition recorded :: "PressureRuntime \<Rightarrow> World \<times> u64 \<Rightarrow> TraceFrame" where
  "recorded rt c = \<lparr>tf_timestamp_ms = snd c, tf_observations = sampled (fst c) rt,
     tf_provider_health = fold (\<lambda>p. sm_assign p (outcome_status (w_sample (fst c) p))) (registered (fst c) rt) []\<rparr>"

text \<open>The replaying runtime, and a refresh of it: the only provider answers with the next frame.\<close>

definition replay_runtime :: "PressureRuntime \<Rightarrow> PressureRuntime" where
  "replay_runtime rt = register_provider (Some ''trace'') (rt\<lparr>rt_providers := Map.empty\<rparr>)"

definition replay_world :: "u64 \<Rightarrow> ProviderSample \<Rightarrow> World" where
  "replay_world latency s = \<lparr>w_order = [provider_key ''trace''], w_sample = (\<lambda>_. Inr s), w_latency_us = latency\<rparr>"

definition replay_step :: "(u64 \<Rightarrow> u64) \<Rightarrow> u64 \<Rightarrow> TraceProvider \<times> PressureRuntime \<Rightarrow>
    (((nat \<times> PressureEvent) list \<times> Snapshot) \<times> TraceProvider \<times> PressureRuntime) option" where
  "replay_step latency now st =
    (case st of (tp, rt) \<Rightarrow> case trace_sample now tp of (s, tp') \<Rightarrow>
       case refresh (replay_world (latency now) s) now rt of None \<Rightarrow> None
       | Some (calls, snap, rt') \<Rightarrow> Some ((calls, snap), tp', rt'))"

definition replay_registry :: "PressureDomainId \<rightharpoonup> string" where
  "replay_registry = [provider_key ''trace'' \<mapsto> ''trace'']"

lemma replay_registry_simps [simp]:
  "rt_providers (replay_runtime rt) = replay_registry" "ran replay_registry = {''trace''}" "replay_registry \<noteq> Map.empty"
  by (simp_all add: replay_runtime_def register_provider_def replay_registry_def)

lemma replay_healthy: "sample_status s = PS_Healthy \<Longrightarrow> healthy_sources replay_registry (replay_world l s)"
  by (simp add: healthy_sources_def replay_world_def) (simp add: replay_registry_def)

lemma replay_sampled: "rt_providers rt = replay_registry \<Longrightarrow> sampled (replay_world l s) rt = sample_observations s"
  by (simp add: sampled_def polled_def registered_def replay_world_def replay_registry_def outcome_samples_def List.map_filter_simps)

lemma sampled_registry: "rt_providers rt = rt_providers rt' \<Longrightarrow> sampled w rt = sampled w rt'"
  by (simp add: sampled_def polled_def registered_def)

lemma trace_sample_frame:
  assumes "tp_trace tp = Some t" "drop (tp_index tp) (tr_frames t) = f # fs"
  shows "trace_sample now tp = (\<lparr>sample_status = PS_Healthy, sample_observations = tf_observations f, sample_error = [],
      sampled_at_ms = now\<rparr>, tp\<lparr>tp_index := tp_index tp + 1\<rparr>)"
    and "drop (tp_index tp + 1) (tr_frames t) = fs"
proof -
  have l: "tp_index tp < length (tr_frames t)" using assms(2) by (metis drop_all leI list.distinct(1))
  then have "tr_frames t ! tp_index tp = f" using assms(2) by (metis nth_via_drop)
  then show "trace_sample now tp = (\<lparr>sample_status = PS_Healthy, sample_observations = tf_observations f, sample_error = [],
      sampled_at_ms = now\<rparr>, tp\<lparr>tp_index := tp_index tp + 1\<rparr>)"
    using l assms(1) by (simp add: trace_sample_def Let_def)
  show "drop (tp_index tp + 1) (tr_frames t) = fs" using assms(2) by (metis Suc_eq_plus1 drop_Suc list.sel(3) tl_drop)
qed

section \<open>The simulation\<close>

text \<open>The health maps of the last snapshots: both before the first refresh, or both after it.\<close>

definition same_phase :: "PressureRuntime \<Rightarrow> PressureRuntime \<Rightarrow> bool" where
  "same_phase rt rt' \<longleftrightarrow>
    (let h = sn_provider_health (rt_current_snapshot rt); h' = sn_provider_health (rt_current_snapshot rt') in
     h = [] \<and> h' = [] \<or> all_healthy (rt_providers rt) h \<and> all_healthy (rt_providers rt') h')"

definition twins :: "PressureRuntime \<Rightarrow> PressureRuntime \<Rightarrow> bool" where
  "twins rt rt' \<longleftrightarrow> rt_inv rt \<and> rt_inv rt' \<and> sourced rt \<and> sourced rt' \<and>
     nameless_runtime rt = nameless_runtime rt' \<and> same_phase rt rt'"

lemma twins_refresh:
  assumes "twins rt rt'" "healthy_sources (rt_providers rt) w" "healthy_sources (rt_providers rt') w'"
    "rt_providers rt \<noteq> Map.empty" "rt_providers rt' \<noteq> Map.empty" "sampled w rt = sampled w' rt'"
  shows "\<exists>calls snap rt1 snap' rt1'. refresh w now rt = Some (calls, snap, rt1) \<and> refresh w' now rt' = Some (calls, snap', rt1') \<and>
    nameless_snapshot snap = nameless_snapshot snap' \<and> twins rt1 rt1' \<and>
    rt_providers rt1 = rt_providers rt \<and> rt_providers rt1' = rt_providers rt'"
proof -
  have tw: "rt_inv rt" "rt_inv rt'" "sourced rt" "sourced rt'" "nameless_runtime rt = nameless_runtime rt'" "same_phase rt rt'"
    using assms(1) by (simp_all add: twins_def)
  have ph: "rt_provider_health rt = []" "rt_provider_health rt' = []" using tw(1,2) by (simp_all add: rt_inv_def)
  have h: "all_healthy (rt_providers rt) (cy_health (interpreted w now rt))"
    "all_healthy (rt_providers rt') (cy_health (interpreted w' now rt'))"
    by (intro healthy_map assms tw)+
  have hc: "sn_provider_health (rt_current_snapshot rt) = cy_health (interpreted w now rt) \<longleftrightarrow>
      sn_provider_health (rt_current_snapshot rt') = cy_health (interpreted w' now rt')"
    using tw(6) h all_healthy_unique all_healthy_nonempty assms(4,5) unfolding same_phase_def Let_def by metis
  note agree = refresh_agrees [OF tw(5) ph(1) assms(2,3) tw(3,4) assms(6) hc]
  obtain calls subs where d: "dispatch (refresh_events w now rt) (rt_subscriptions rt) = Some (calls, subs)"
    and r: "refresh w now rt = Some (calls, refresh_snapshot w now rt, publish w (refresh_snapshot w now rt) (refresh_cycle w now rt) subs rt)"
    using refresh_total [OF tw(1), of w now] by (auto simp: refresh_unfold split: option.splits)
  have r': "refresh w' now rt' = Some (calls, refresh_snapshot w' now rt',
      publish w' (refresh_snapshot w' now rt') (refresh_cycle w' now rt') subs rt')"
    using d by (simp add: refresh_unfold agree(3) nameless_runtimeD(4) [OF tw(5)])
  let ?rt1 = "publish w (refresh_snapshot w now rt) (refresh_cycle w now rt) subs rt"
  let ?rt1' = "publish w' (refresh_snapshot w' now rt') (refresh_cycle w' now rt') subs rt'"
  have "sn_provider_health (refresh_snapshot w now rt) = cy_health (interpreted w now rt)" for w rt
    by (simp add: refresh_snapshot_def refresh_draft_def draft_snapshot_def observe_cycle_health)
  then have "same_phase ?rt1 ?rt1'" using h by (simp add: same_phase_def publish_def)
  moreover have "sourced ?rt1" by (rule sourced_refresh [OF assms(2) tw(3) ph(1)]) (simp_all add: publish_def)
  moreover have "sourced ?rt1'" by (rule sourced_refresh [OF assms(3) tw(4) ph(2)]) (simp_all add: publish_def)
  ultimately have "twins ?rt1 ?rt1'"
    using refresh_inv [OF tw(1) r] refresh_inv [OF tw(2) r'] nameless_publish [OF tw(5) agree(1,2)] by (simp add: twins_def)
  with r r' agree(1) show ?thesis by (simp add: publish_def)
qed

text \<open>The relation of the simulation, for a trace recorded with a registry of providers.\<close>

definition replays :: "PressureRuntime \<Rightarrow> (World \<times> u64) list \<Rightarrow> PressureRuntime \<Rightarrow> TraceProvider \<times> PressureRuntime \<Rightarrow> bool" where
  "replays rt0 cs rt st \<longleftrightarrow> (case st of (tp, rt') \<Rightarrow>
     twins rt rt' \<and> rt_providers rt = rt_providers rt0 \<and> rt_providers rt' = replay_registry \<and> rt_providers rt0 \<noteq> Map.empty \<and>
     (\<forall>c \<in> set cs. healthy_sources (rt_providers rt0) (fst c)) \<and>
     (\<exists>t. tp_trace tp = Some t \<and> drop (tp_index tp) (tr_frames t) = map (recorded rt0) cs))"

interpretation replay: lockstep live_step "replay_step latency" snd "replays rt0"
    "\<lambda>out out'. fst out' = fst out \<and> nameless_snapshot (snd out') = nameless_snapshot (snd out)" for latency rt0
proof unfold_locales
  fix c cs rt st assume rel: "replays rt0 (c # cs) rt st"
  obtain tp rt' where st: "st = (tp, rt')" by (cases st)
  from rel obtain t where t: "tp_trace tp = Some t" "drop (tp_index tp) (tr_frames t) = recorded rt0 c # map (recorded rt0) cs"
    and tw: "twins rt rt'" "rt_providers rt = rt_providers rt0" "rt_providers rt' = replay_registry" "rt_providers rt0 \<noteq> Map.empty"
      "healthy_sources (rt_providers rt0) (fst c)" "\<forall>c \<in> set cs. healthy_sources (rt_providers rt0) (fst c)"
    by (auto simp: replays_def st)
  note frame = trace_sample_frame [OF t]
  define s where "s = \<lparr>sample_status = PS_Healthy, sample_observations = tf_observations (recorded rt0 c), sample_error = [],
    sampled_at_ms = snd c\<rparr>"
  have "sampled (fst c) rt = sampled (replay_world (latency (snd c)) s) rt'"
    by (simp add: replay_sampled [OF tw(3)] s_def recorded_def sampled_registry [OF tw(2)])
  moreover have "healthy_sources (rt_providers rt') (replay_world (latency (snd c)) s)"
    using replay_healthy [of s] tw(3) by (simp add: s_def)
  ultimately obtain calls snap rt1 snap' rt1' where r: "refresh (fst c) (snd c) rt = Some (calls, snap, rt1)"
      "refresh (replay_world (latency (snd c)) s) (snd c) rt' = Some (calls, snap', rt1')"
      "nameless_snapshot snap = nameless_snapshot snap'" "twins rt1 rt1'"
      "rt_providers rt1 = rt_providers rt" "rt_providers rt1' = rt_providers rt'"
    using twins_refresh [OF tw(1), of "fst c" "replay_world (latency (snd c)) s" "snd c"] tw(2-5) by auto
  have "live_step c rt = Some ((calls, snap), rt1)" by (simp add: live_step_def r(1))
  moreover have "replay_step latency (snd c) st = Some ((calls, snap'), tp\<lparr>tp_index := tp_index tp + 1\<rparr>, rt1')"
    by (simp add: replay_step_def st frame(1) r(2) flip: s_def)
  moreover have "replays rt0 cs rt1 (tp\<lparr>tp_index := tp_index tp + 1\<rparr>, rt1')"
    using r tw t(1) frame(2) by (simp add: replays_def)
  ultimately show "\<exists>out s1 out' t1. live_step c rt = Some (out, s1) \<and> replay_step latency (snd c) st = Some (out', t1) \<and>
      (fst out' = fst out \<and> nameless_snapshot (snd out') = nameless_snapshot (snd out)) \<and> replays rt0 cs s1 t1"
    using r(3) by fastforce
qed

section \<open>Replay reproduces the original\<close>

text \<open>
  C15. A recorded trace replays the original refreshes. Take any configured runtime that has published nothing yet and
  any sequence of cycles in which all its providers are polled and healthy; record the observations of every cycle. A
  runtime with the same configuration whose only provider replays the trace, refreshed once per frame at the recorded times,
  runs the same callbacks with the same events in every cycle and publishes the same snapshots (identifiers, generations,
  levels, scores, responses, explanations, event counts) up to the names of the providers and the health map. It ends in
  the same state of every domain, of the subscriptions, the history and the statistics, up to the
  measured latency, with the trace exhausted. Both runs always complete.
\<close>

theorem replay_reproduces:
  assumes "rt_reachable rt" "rt_current_snapshot rt = Snapshot_init" "rt_providers rt \<noteq> Map.empty"
    and "\<forall>c \<in> set cycles. healthy_sources (rt_providers rt) (fst c)"
  shows "\<exists>outs rt1 outs' tp rt1'. run_steps live_step cycles rt = Some (outs, rt1) \<and>
    run_steps (replay_step latency) (map snd cycles)
      (TraceProvider_new (Some \<lparr>tr_policy_version = v, tr_frames = map (recorded rt) cycles\<rparr>), replay_runtime rt) =
        Some (outs', tp, rt1') \<and>
    map fst outs' = map fst outs \<and>
    map (nameless_snapshot \<circ> snd) outs' = map (nameless_snapshot \<circ> snd) outs \<and>
    nameless_runtime rt1' = nameless_runtime rt1 \<and> trace_exhausted tp"
proof -
  let ?t = "\<lparr>tr_policy_version = v, tr_frames = map (recorded rt) cycles\<rparr>"
  have inv: "rt_inv rt" using assms(1) by (rule rt_reachable_inv)
  then have "rt_inv (replay_runtime rt)"
    by (simp add: replay_runtime_def register_provider_def rt_inv_def history_ok_def)
  moreover have "nameless_runtime rt = nameless_runtime (replay_runtime rt)"
    by (simp add: nameless_runtime_def replay_runtime_def register_provider_def)
  moreover have cur: "rt_current_snapshot (replay_runtime rt) = Snapshot_init"
    by (simp add: replay_runtime_def register_provider_def assms(2))
  ultimately have "twins rt (replay_runtime rt)"
    using inv by (simp add: twins_def sourced_def same_phase_def assms(2)) (simp add: Snapshot_init_def)
  then have "replays rt cycles rt (TraceProvider_new (Some ?t), replay_runtime rt)"
    using assms(3,4) by (simp add: replays_def TraceProvider_new_def)
  from replay.runs_agree [OF this, of latency] obtain outs rt1 outs' tp rt1' where
    runs: "run_steps live_step cycles rt = Some (outs, rt1)"
      "run_steps (replay_step latency) (map snd cycles) (TraceProvider_new (Some ?t), replay_runtime rt) = Some (outs', tp, rt1')"
    and same: "list_all2 (\<lambda>out out'. fst out' = fst out \<and> nameless_snapshot (snd out') = nameless_snapshot (snd out)) outs outs'"
    and fin: "replays rt [] rt1 (tp, rt1')" by auto
  have "map fst outs' = map fst outs \<and> map (nameless_snapshot \<circ> snd) outs' = map (nameless_snapshot \<circ> snd) outs"
    using same by induction auto
  moreover have "nameless_runtime rt1' = nameless_runtime rt1" "trace_exhausted tp"
    using fin by (auto simp: replays_def twins_def trace_exhausted_def trace_length_def)
  ultimately show ?thesis using runs by blast
qed

lemma demo_healthy: "healthy_sources (rt_providers demo_runtime) seen_world"
  by (simp add: demo_runtime_facts healthy_sources_def seen_world_def)

lemma replay_reproduces_witness:
  "\<exists>outs rt1 outs' tp rt1'. run_steps live_step [(seen_world, 5), (seen_world, 9)] demo_runtime = Some (outs, rt1) \<and>
     run_steps (replay_step (\<lambda>now. 3)) [5, 9] (TraceProvider_new (Some \<lparr>tr_policy_version = 1,
       tr_frames = map (recorded demo_runtime) [(seen_world, 5), (seen_world, 9)]\<rparr>), replay_runtime demo_runtime) = Some (outs', tp, rt1') \<and>
     map fst outs' = map fst outs \<and> nameless_runtime rt1' = nameless_runtime rt1"
  using replay_reproduces [OF demo_runtime_facts(1,2), of "[(seen_world, 5), (seen_world, 9)]" "\<lambda>now. 3" 1]
  by (simp add: demo_runtime_facts(3) demo_healthy [unfolded demo_runtime_facts(3)] del: run_steps.simps) blast

section \<open>Failures are not replayed\<close>

text \<open>
  The frame's health map is not replayed: a \<open>TraceProvider\<close> is always healthy. When a provider failed while a
  domain was published, the original runtime keeps the domain as stale, with the state of its debouncer and its
  trend; the replay of the same frame removes the domain with an event and forgets its state, so the
  transitions from there on differ.
\<close>

lemma failure_not_replayed:
  assumes tw: "twins rt rt'" and prov: "rt_providers rt' = replay_registry"
    and pd: "pd \<in> set (sn_domains (rt_current_snapshot rt))" "unavailable w rt (ds_provider pd)"
      "ds_id pd \<notin> obs_id ` set (sampled w rt)"
    and tp: "tp_trace tp = Some t" "drop (tp_index tp) (tr_frames t) = recorded rt (w, now) # fs"
  shows "\<exists>out rt1 out' tp1 rt1'. live_step (w, now) rt = Some (out, rt1) \<and>
    replay_step latency now (tp, rt') = Some (out', tp1, rt1') \<and>
    (\<exists>d \<in> set (sn_domains (snd out)). ds_id d = ds_id pd \<and> ds_level d = ds_level pd \<and> ds_validity d = Val_Stale) \<and>
    rt_domain_states rt1' (ds_id pd) = None"
proof -
  have inv: "rt_inv rt" "rt_inv rt'" and same: "nameless_runtime rt = nameless_runtime rt'" and src: "sourced rt'"
    using tw by (simp_all add: twins_def)
  have obs: "set (observed_ids (polled w rt)) = obs_id ` set (sampled w rt)" for w rt
    by (force simp: observed_ids_def sampled_def)
  define s where "s = \<lparr>sample_status = PS_Healthy, sample_observations = tf_observations (recorded rt (w, now)), sample_error = [],
    sampled_at_ms = now\<rparr>"
  let ?w = "replay_world (latency now) s"
  have eq: "sampled ?w rt' = sampled w rt" by (simp add: replay_sampled [OF prov] s_def recorded_def)
  obtain calls snap rt1 where r: "refresh w now rt = Some (calls, snap, rt1)" using refresh_total [OF inv(1)] by blast
  obtain calls' snap' rt1' where r': "refresh ?w now rt' = Some (calls', snap', rt1')" using refresh_total [OF inv(2)] by blast
  have kept: "\<exists>d \<in> set (sn_domains snap). ds_id d = ds_id pd \<and> ds_level d = ds_level pd \<and> ds_validity d = Val_Stale"
    using unobserved_domain [OF inv(1) r pd(1)] pd(2,3) by (auto simp: obs)
  have "map anonymous (sn_domains (rt_current_snapshot rt)) = map anonymous (sn_domains (rt_current_snapshot rt'))"
    using arg_cong [OF nameless_runtimeD(9) [OF same], of sn_domains] by simp
  then have "anonymous pd \<in> anonymous ` set (sn_domains (rt_current_snapshot rt'))" using pd(1) by (metis image_eqI set_map)
  then obtain pd' where pd': "pd' \<in> set (sn_domains (rt_current_snapshot rt'))" "anonymous pd = anonymous pd'" by auto
  have ids: "ds_id pd' = ds_id pd" using pd'(2) by (metis anonymous_fields(1))
  have h: "healthy_sources (rt_providers rt') ?w" using replay_healthy [of s] prov by (simp add: s_def)
  have p: "ds_provider pd' \<in> ran (rt_providers rt')" using src pd'(1) by (simp add: sourced_def)
  then have "\<not> unavailable ?w rt' (ds_provider pd')"
    using healthy_outcome [OF h p] registered_all [OF h] by (auto simp: unavailable_def outcome_status_def)
  then have gone: "rt_domain_states rt1' (ds_id pd) = None"
    using unobserved_domain [OF inv(2) r' pd'(1)] pd(3) ids by (simp add: obs eq)
  have "replay_step latency now (tp, rt') = Some ((calls', snap'), tp\<lparr>tp_index := tp_index tp + 1\<rparr>, rt1')"
    using r' by (simp add: replay_step_def trace_sample_frame(1) [OF tp] flip: s_def)
  moreover have "live_step (w, now) rt = Some ((calls, snap), rt1)" by (simp add: live_step_def r)
  ultimately show ?thesis using kept gone by fastforce
qed

end
