(* ===== verification/Examples.thy ===== *)
theory Examples imports CommandLine TraceReplay begin

text \<open>
  The programs of examples/ and downstream/, one definition per \<open>main\<close>: what each writes to the standard output and its exit
  code. The clock only measures latencies, which no example prints; the machine answers for the providers that read it.
  \<open>None\<close> is undefined behaviour, or the exception of \<open>value()\<close> on an empty result, which ends the program.
\<close>

definition mib :: "u64 \<Rightarrow> u64" where
  "mib n = n * 1024 * 1024"

definition gib :: "u64 \<Rightarrow> u64" where
  "gib n = n * 1024 * 1024 * 1024"

definition domain_spec :: "PressureDomainId \<Rightarrow> DomainType \<Rightarrow> string \<Rightarrow> u64 \<Rightarrow> SyntheticDomainSpec" where
  "domain_spec i ty grp cap = SyntheticDomainSpec_init\<lparr>spec_id := i, spec_type := ty, spec_group := grp, spec_total_capacity := cap\<rparr>"

definition hard_budget :: "u64 \<Rightarrow> Budget" where
  "hard_budget b = Budget_init\<lparr>hard_capacity := b\<rparr>"

text \<open>A runtime with the synthetic provider and the given budgets; what \<open>set_budget\<close> returns is ignored.\<close>

definition synthetic_runtime :: "(PressureDomainId \<times> Budget) list \<Rightarrow> PressureRuntime" where
  "synthetic_runtime bs = fold (\<lambda>(i, b) rt. snd (set_budget i b rt)) bs (register_provider (Some ''synthetic'') PressureRuntime_new)"

text \<open>The loop \<open>for (int i = 0; i < n; ++i) rt.refresh(1000 + i*100)\<close>, with the snapshots that it sees.\<close>

fun refresh_loop :: "(u64 \<Rightarrow> u64) \<Rightarrow> u64 list \<Rightarrow> SyntheticProvider \<times> PressureRuntime \<Rightarrow> (Snapshot list \<times> PressureRuntime) option" where
  "refresh_loop latency [] st = Some ([], snd st)"
| "refresh_loop latency (i # is) st =
    (case synthetic_refresh (latency (1000 + i * 100)) (1000 + i * 100) st of None \<Rightarrow> None
     | Some (snap, st') \<Rightarrow> map_option (\<lambda>(snaps, rt). (snap # snaps, rt)) (refresh_loop latency is st'))"

definition run_example ::
    "SyntheticDomainSpec list \<Rightarrow> SyntheticScenario \<Rightarrow> (PressureDomainId \<times> Budget) list \<Rightarrow> (u64 \<Rightarrow> u64) \<Rightarrow> nat \<Rightarrow>
     (Snapshot list \<times> PressureRuntime) option" where
  "run_example ds sc bs latency n =
     refresh_loop latency (map of_nat [0..<n]) (SyntheticProvider_new ds sc 100 4, synthetic_runtime bs)"

definition level_or :: "string \<Rightarrow> PressureDomainId \<Rightarrow> Snapshot \<Rightarrow> string" where
  "level_or none i snap = (case find_domain i snap of None \<Rightarrow> none | Some d \<Rightarrow> PressureLevel_to_string (ds_level d))"

section \<open>Queries\<close>

definition admission_check_main :: "(u64 \<Rightarrow> u64) \<Rightarrow> Outcome option" where
  "admission_check_main latency =
    (let i = DomainId 2 2; req = mib 256 in
     map_option (\<lambda>(snaps, rt).
         let h = fst (admit i req rt) in
         success (lines_of id [''admit '' @ u64_to_string req @ '' bytes -> '' @ AdmissionDecision_to_string (ah_decision h),
           ''  '' @ ah_explanation h]))
       (run_example [domain_spec i DT_AcceleratorMemory ''gpu'' (gib 4)] Sc_GradualGrowth [(i, hard_budget (gib 2))] latency 1))"

definition custom_budget_main :: "(u64 \<Rightarrow> u64) \<Rightarrow> Outcome option" where
  "custom_budget_main latency =
    (let i = DomainId 1 1; b = Budget_init\<lparr>hard_capacity := gib 24, emergency_reserve_bytes := gib 2\<rparr> in
     case fst (set_budget i b (register_provider (Some ''synthetic'') PressureRuntime_new)) of
       Some err \<Rightarrow> Some (failure (''budget rejected: '' @ err))
     | None \<Rightarrow>
       map_option (\<lambda>(snaps, rt).
           success (''governed capacity='' @ u64_to_string (usable_capacity b) @ '' available='' @
             u64_to_string (case find_domain i (last snaps) of None \<Rightarrow> 0 | Some d \<Rightarrow> ds_available d) @ endl))
         (run_example [domain_spec i DT_AcceleratorMemory ''gpu'' (gib 32)] Sc_GradualGrowth [(i, b)] latency 1))"

definition reclaim_request_main :: "(u64 \<Rightarrow> u64) \<Rightarrow> Outcome option" where
  "reclaim_request_main latency =
    (let i = DomainId 4 4 in
     map_option (\<lambda>(snaps, rt).
         let dr = response_for i (rt_current_snapshot rt);
             none = ''no reclaim request (level='' @ PressureLevel_to_string (dr_level dr) @ '')''
         in success ((case dr_relief dr of None \<Rightarrow> none
           | Some r \<Rightarrow> if is_reclaim r
               then ''reclaim target='' @ u64_to_string (rr_target_bytes r) @ '' urgency='' @ PressureLevel_to_string (rr_urgency r)
               else none) @ endl))
       (run_example [domain_spec i DT_AcceleratorMemory ''gpu'' (gib 4)] Sc_GradualGrowth [(i, hard_budget (mib 128))] latency 40))"

definition demotion_request_main :: "(u64 \<Rightarrow> u64) \<Rightarrow> Outcome option" where
  "demotion_request_main latency =
    (let g = DomainId 5 1; h = DomainId 5 2 in
     map_option (\<lambda>(snaps, rt).
         let dr = response_for g (rt_current_snapshot rt);
             none = ''no demotion request (cross-tier check may have blocked it)''
         in success (lines_of id
           [''gpu level='' @ PressureLevel_to_string (dr_level dr),
            (case dr_relief dr of None \<Rightarrow> none
             | Some r \<Rightarrow> if is_demotion r
                 then ''demotion target='' @ u64_to_string (rr_target_bytes r) @ '' preferred_tier='' @
                   DomainType_to_string (case rr_preferred_tier r of None \<Rightarrow> DT_Unknown | Some t \<Rightarrow> t)
                 else none),
            ''responses:'' @ concat (map (\<lambda>a. '' '' @ ResponseAction_to_string a) (dr_actions dr))]))
       (run_example [domain_spec g DT_AcceleratorMemory ''gpu'' (gib 4), domain_spec h DT_HostMemory ''host'' (gib 16)]
         Sc_Simultaneous [(g, hard_budget (mib 200)), (h, hard_budget (gib 4))] latency 45))"

definition cross_tier_policy_main :: "(u64 \<Rightarrow> u64) \<Rightarrow> Outcome option" where
  "cross_tier_policy_main latency =
    (let g = DomainId 6 1; h = DomainId 6 2 in
     map_option (\<lambda>(snaps, rt).
         let dr = response_for g (rt_current_snapshot rt) in
         success (''host='' @ level_or [] h (rt_current_snapshot rt) @ '' gpu='' @ PressureLevel_to_string (dr_level dr) @
           '' demotion_recommended='' @ (if RA_RequestDemotion \<in> set (dr_actions dr) then ''yes'' else ''no'') @ endl))
       (run_example [domain_spec g DT_AcceleratorMemory ''gpu'' (gib 4), domain_spec h DT_HostMemory ''host'' (gib 4)]
         Sc_Simultaneous [(g, hard_budget (mib 200)), (h, hard_budget (mib 200))] latency 50))"

definition backpressure_subscription_main :: "(u64 \<Rightarrow> u64) \<Rightarrow> Outcome option" where
  "backpressure_subscription_main latency =
    (let i = DomainId 3 3; (k, rt0) = subscribe SubscriptionFilter_init False (synthetic_runtime [(i, hard_budget (mib 256))]) in
     map_option (\<lambda>(snaps, rt).
         let bp = backpressure i (rt_current_snapshot rt) in
         success (''backpressure severity='' @ PressureLevel_to_string (bp_severity bp) @
             '' recommended='' @ ResponseAction_to_string (bp_recommended_response bp) @
             '' max_new_allocation='' @ u64_to_string (bp_max_new_allocation bp) @ endl @
           lines_of (\<lambda>e. ''  event: '' @ ev_detail e)
             (filter (\<lambda>e. ev_type e = Ev_BackpressureIssued) (drain (rt_subscriptions rt ! k)))))
       (refresh_loop latency (map of_nat [0..<30])
         (SyntheticProvider_new [domain_spec i DT_AcceleratorMemory ''gpu'' (gib 4)] Sc_GradualGrowth 100 4, rt0)))"

section \<open>Scenarios over time\<close>

definition multi_gpu_synthetic_main :: "(u64 \<Rightarrow> u64) \<Rightarrow> Outcome option" where
  "multi_gpu_synthetic_main latency =
     map_option (\<lambda>(snaps, rt).
         success (''multi-GPU domains: '' @ dec (length (sn_domains (last snaps))) @ endl @
           lines_of (\<lambda>d. ''  '' @ to_hex (ds_id d) @ '' '' @ PressureLevel_to_string (ds_level d)) (sn_domains (last snaps))))
       (run_example (map (\<lambda>i. (domain_spec (DomainId 9 (of_nat i)) DT_AcceleratorMemory ''gpu'' (gib 8))\<lparr>spec_phase := ddiv (Fin (of_nat i)) (Fin 4)\<rparr>) [0..<4])
         Sc_MultiGpu (map (\<lambda>i. (DomainId 9 (of_nat i), hard_budget (gib 2))) [0..<4]) latency 1)"

text \<open>The loop that prints the level when it differs from the one before.\<close>

fun level_changes :: "PressureDomainId \<Rightarrow> nat \<Rightarrow> string \<Rightarrow> Snapshot list \<Rightarrow> string list" where
  "level_changes i t prev [] = []"
| "level_changes i t prev (sn # sns) =
    (let lvl = level_or ''none'' i sn in
     (if lvl \<noteq> prev then [''  t='' @ dec t @ '' -> '' @ lvl] else []) @ level_changes i (Suc t) lvl sns)"

definition pressure_recovery_main :: "(u64 \<Rightarrow> u64) \<Rightarrow> Outcome option" where
  "pressure_recovery_main latency =
    (let i = DomainId 8 1 in
     map_option (\<lambda>(snaps, rt). success (''slow-recovery:'' @ endl @ lines_of id (level_changes i 0 [] snaps)))
       (run_example [domain_spec i DT_AcceleratorMemory ''gpu'' (gib 4)] Sc_SlowRecovery [(i, hard_budget (mib 256))] latency 60))"

definition synthetic_gpu_spike_main :: "(u64 \<Rightarrow> u64) \<Rightarrow> Outcome option" where
  "synthetic_gpu_spike_main latency =
    (let i = DomainId 7 1 in
     map_option (\<lambda>(snaps, rt). success (''rapid-spike:'' @ endl @
         lines_of (\<lambda>(t, sn). ''  t='' @ dec t @ '' util='' @
           ostream_double (case find_domain i sn of None \<Rightarrow> Fin 0 | Some d \<Rightarrow> ds_utilization d) @
           '' level='' @ level_or ''none'' i sn) (enumerate 0 snaps)))
       (run_example [domain_spec i DT_AcceleratorMemory ''gpu'' (gib 4)] Sc_RapidSpike [(i, hard_budget (mib 256))] latency 20))"

definition snapshot_serialization_main :: "(u64 \<Rightarrow> u64) \<Rightarrow> Outcome option" where
  "snapshot_serialization_main latency =
    (let i = DomainId 0xAA 0xBB in
     case run_example [domain_spec i DT_AcceleratorMemory ''gpu'' (gib 8)] Sc_GradualGrowth [(i, hard_budget (gib 2))] latency 5 of None \<Rightarrow> None
     | Some (snaps, rt) \<Rightarrow>
       (case json_dump (snapshot_to_json (rt_current_snapshot rt)) of None \<Rightarrow> None
        | Some json \<Rightarrow>
          (case json_parse default_limits json of None \<Rightarrow> None
           | Some j \<Rightarrow>
             (case snapshot_from_json j of None \<Rightarrow> None
              | Some back \<Rightarrow> Some (success (''snapshot round-trip: '' @
                  (case back of None \<Rightarrow> ''FAILED'' | Some s \<Rightarrow> ''OK gen='' @ u64_to_string (sn_generation s)) @ endl))))))"

section \<open>Without a runtime\<close>

definition policy_serialization_main :: "Outcome option" where
  "policy_serialization_main =
    (let p = default_policy\<lparr>policy_version := 3, policy_name := ''example''\<rparr> in
     case json_dump (policy_to_json p) of None \<Rightarrow> None
     | Some json \<Rightarrow>
       (case json_parse default_limits json of None \<Rightarrow> None
        | Some j \<Rightarrow>
          (case policy_from_json j of None \<Rightarrow> None
           | Some back \<Rightarrow> Some (success (lines_of id [''policy json: '' @ json,
               (case back of None \<Rightarrow> ''round-trip failed''
                | Some q \<Rightarrow> ''round-trip version='' @ u64_to_string (policy_version q) @ '' name='' @ policy_name q)])))))"

definition example_usages :: "double list" where
  "example_usages = map fl [10/100, 88/100, 88/100, 81/100, 81/100, 81/100, 70/100, 70/100, 55/100, 55/100]"

fun usage_lines :: "Thresholds \<Rightarrow> u64 \<Rightarrow> HysteresisState \<Rightarrow> double list \<Rightarrow> string list" where
  "usage_lines t now hs [] = []"
| "usage_lines t now hs (u # us) =
    (let raw = evaluate_level u (hs_level hs) t; hs' = hyst_update raw now hs in
     (''  '' @ ostream_double u @ '' -> '' @ PressureLevel_to_string (hs_level hs') @ '' (raw '' @ PressureLevel_to_string raw @ '')'') #
       usage_lines t (now + 1) hs' us)"

definition thresholds_hysteresis_main :: Outcome where
  "thresholds_hysteresis_main = success (''usage -> level (with hysteresis):'' @ endl @
     lines_of id (usage_lines (thresholds default_policy) 100 (HysteresisState_new (hysteresis default_policy)) example_usages))"

section \<open>Replay\<close>

definition example_frame :: "nat \<Rightarrow> TraceFrame option" where
  "example_frame i =
    (let cap = gib 4 in
     map_option (\<lambda>committed. TraceFrame_init\<lparr>tf_timestamp_ms := 1000 + of_nat i * 100,
         tf_observations := [DomainObservation_init\<lparr>obs_id := DomainId 0x55 0x66, obs_type := DT_AcceleratorMemory,
           obs_provider := ''trace'', obs_total_capacity := cap, obs_committed := committed,
           obs_available := (if committed < cap then cap - committed else 0), obs_confidence := Conf_High,
           obs_provenance := Prov_ImportedSnapshot, obs_validity := Val_Valid\<rparr>]\<rparr>)
       (to_u64 (dmul (of_u64 cap) (dadd (fl (1/10)) (dmul (fl (8/10)) (ramp (of_nat i) (Fin 40)))))))"

definition replay_lines :: "(nat \<times> Snapshot) list \<Rightarrow> string list" where
  "replay_lines sns = map (\<lambda>(k, sn). ''  frame '' @ dec k @ '' '' @ level_or [] (DomainId 0x55 0x66) sn)
     (filter (\<lambda>(k, sn). find_domain (DomainId 0x55 0x66) sn \<noteq> None \<and> k mod 5 = 0) sns)"

definition trace_replay_main :: "(u64 \<Rightarrow> u64) \<Rightarrow> Outcome option" where
  "trace_replay_main latency =
    (case those (map example_frame [0..<40]) of None \<Rightarrow> None
     | Some frames \<Rightarrow>
       let rt = snd (set_budget (DomainId 0x55 0x66) (hard_budget (gib 1)) (register_provider (Some ''trace'') PressureRuntime_new)) in
       map_option (\<lambda>(outs, st). success (''trace replay:'' @ endl @ lines_of id (replay_lines (enumerate 0 (map snd outs)))))
         (run_steps (replay_step latency) (map tf_timestamp_ms frames)
           (TraceProvider_new (Some \<lparr>tr_policy_version = 1, tr_frames = frames\<rparr>), rt)))"

section \<open>On the machine\<close>

definition machine_refresh :: "Machine \<Rightarrow> u64 \<Rightarrow> PressureRuntime \<Rightarrow> (Snapshot \<times> PressureRuntime) option" where
  "machine_refresh m now rt = map_option (\<lambda>(calls, snap, rt'). (snap, rt')) (refresh (machine_world m now) now rt)"

definition observe_host_main :: "Machine \<Rightarrow> Outcome" where
  "observe_host_main m = success (''Windows host observations:'' @ endl @
     lines_of (\<lambda>ob. ''  '' @ DomainType_to_string (obs_type ob) @ '' total='' @ u64_to_string (obs_total_capacity ob) @
       '' committed='' @ u64_to_string (obs_committed ob) @ '' available='' @ u64_to_string (obs_available ob) @
       '' provenance='' @ Provenance_to_string (obs_provenance ob)) (sample_observations (windows_sample (m_windows m 1000) 1000)))"

definition observe_cuda_main :: "Machine \<Rightarrow> Outcome" where
  "observe_cuda_main m =
    (let p = cuda_provider m 1000 in
     if \<not> cp_loaded p then success (''CUDA not available'' @ endl)
     else success (''CUDA device count: '' @ int_to_chars (cp_device_count p) @ endl @
       lines_of (\<lambda>ob. ''  '' @ DomainType_to_string (obs_type ob) @ '' id='' @ to_hex (obs_id ob) @
         '' total='' @ u64_to_string (obs_total_capacity ob) @ '' free='' @ u64_to_string (obs_available ob) @
         '' provenance='' @ Provenance_to_string (obs_provenance ob)) (sample_observations (cuda_sample 1000 p))))"

text \<open>The line of a domain, and none for one that is not an accelerator; \<open>admit\<close> changes the counters of the runtime.\<close>

fun consumer_lines :: "DomainState list \<Rightarrow> PressureRuntime \<Rightarrow> string list" where
  "consumer_lines [] rt = []"
| "consumer_lines (d # ds) rt =
    (if ds_type d \<noteq> DT_AcceleratorMemory then consumer_lines ds rt
     else case admit (ds_id d) (mib 256) rt of (h, rt') \<Rightarrow>
       (''domain '' @ to_hex (ds_id d) @ '' level='' @ PressureLevel_to_string (ds_level d) @
        '' admit='' @ AdmissionDecision_to_string (ah_decision h) @ '' avail='' @ u64_to_string (ds_available d)) # consumer_lines ds rt')"

definition integration_consumer_main :: "Machine \<Rightarrow> Outcome option" where
  "integration_consumer_main m = map_option (\<lambda>(snap, rt).
      success (''aggregate='' @ PressureLevel_to_string (sn_aggregate_level snap) @ '' score='' @ ostream_double (sn_aggregate_score snap) @ endl @
        lines_of id (consumer_lines (sn_domains snap) rt)))
    (machine_refresh m 1000 (register_windows_cuda PressureRuntime_new))"

definition downstream_main :: "Machine \<Rightarrow> Outcome option" where
  "downstream_main m = map_option (\<lambda>(snap, rt).
      success (''Memory Pressure '' @ version_string @ '' via find_package'' @ endl @
        lines_of (\<lambda>d. ''  '' @ DomainType_to_string (ds_type d) @ '' total='' @ u64_to_string (ds_total_capacity d) @
            '' available='' @ u64_to_string (ds_available d) @ '' level='' @ PressureLevel_to_string (ds_level d))
          (filter (\<lambda>d. ds_type d = DT_HostMemory \<or> ds_type d = DT_AcceleratorMemory \<or> ds_type d = DT_SystemCommit) (sn_domains snap))))
    (machine_refresh m 1000 (register_windows_cuda PressureRuntime_new))"

text \<open>Whether \<open>VirtualAlloc\<close> grants the memory is an argument; the returns with 1 print to the standard output.\<close>

definition gives_up :: "string \<Rightarrow> Outcome" where
  "gives_up msg = \<lparr>oc_out = msg @ endl, oc_err = [], oc_code = 1\<rparr>"

definition host_utilization :: "PressureDomainId \<Rightarrow> Snapshot \<Rightarrow> string" where
  "host_utilization i snap = ostream_double (case find_domain i snap of None \<Rightarrow> Fin 0 | Some d \<Rightarrow> ds_utilization d)"

definition host_pressure_main :: "Machine \<Rightarrow> bool \<Rightarrow> Outcome option" where
  "host_pressure_main m granted =
    (case machine_refresh m 1000 (register_provider (Some ''windows'') PressureRuntime_new) of None \<Rightarrow> None
     | Some (snap0, rt0) \<Rightarrow>
       (case filter (\<lambda>d. ds_type d = DT_HostMemory) (sn_domains snap0) of [] \<Rightarrow> Some (gives_up ''no HOST_MEMORY domain'')
        | h # hs \<Rightarrow>
          let host0 = last (h # hs); i = ds_id host0;
              b = Budget_init\<lparr>hard_capacity := ds_committed host0 + mib 256, emergency_reserve_bytes := mib 64\<rparr> in
          (case set_budget i b rt0 of
             (Some err, _) \<Rightarrow> Some (gives_up (''budget rejected: '' @ err))
           | (None, rt0') \<Rightarrow>
             (case machine_refresh m 2000 rt0' of None \<Rightarrow> None
              | Some (s1, rt1) \<Rightarrow>
                let out1 = ''baseline governed: level='' @ level_or ''?'' i s1 @ '' util='' @ host_utilization i s1 @ endl in
                if \<not> granted then Some (gives_up (out1 @ ''allocation failed''))
                else
                (case machine_refresh m 3000 rt1 of None \<Rightarrow> None
                 | Some (s2, rt2) \<Rightarrow>
                   let out2 = ''after 512 MiB commit: level='' @ level_or ''?'' i s2 @ '' util='' @ host_utilization i s2 @
                     '' avail='' @ u64_to_string (case find_domain i s2 of None \<Rightarrow> 0 | Some d \<Rightarrow> ds_available d) @ endl in
                   map_option (\<lambda>(s3, rt3). success (out1 @ out2 @
                       ''after release: level='' @ level_or ''?'' i s3 @ '' util='' @ host_utilization i s3 @ endl))
                     (machine_refresh m 4000 rt2))))))"

end
