(* ===== verification/TextLength.thy ===== *)
theory TextLength imports PolicyText begin

text \<open>
  How long the text of a JSON value can be, so that what the serializer writes is known to be within the byte limit of
  the parser. A number takes at most 3000 characters, which is crude: the shortest digits have at most 17.
\<close>

section \<open>Numbers\<close>

lemma length_dec: "n < 10 ^ Suc k \<Longrightarrow> length (dec n) \<le> Suc k"
proof (induction k arbitrary: n)
  case 0
  then show ?case by (simp add: dec.simps [of n])
next
  case (Suc k)
  then have "n div 10 < 10 ^ Suc k" by (simp add: div_less_iff_less_mult mult.commute)
  from Suc.IH [OF this] show ?case by (simp add: dec.simps [of n])
qed

lemma candidates_le: "m \<in> set (candidates y) \<Longrightarrow> of_int m \<le> y + 1"
proof -
  assume "m \<in> set (candidates y)"
  then have "m = \<lfloor>y\<rfloor> \<or> m = \<lfloor>y\<rfloor> + 1" by (simp add: candidates_def Let_def split: if_split_asm) blast+
  moreover have "of_int \<lfloor>y\<rfloor> \<le> y" by (rule of_int_floor_le)
  ultimately show ?thesis by (metis add_mono_thms_linordered_semiring(3) add_increasing2 of_int_1 of_int_add zero_le_one)
qed

lemma shortest_bound:
  assumes "0 < r" "r \<le> pow10 (q + int k)" "shortest n q r = (m, q')"
  shows "m \<le> 2 * 10 ^ (k + n) \<and> q - int n \<le> q' \<and> q' \<le> q"
  using assms
proof (induction n arbitrary: q k)
  case (Suc n)
  have p: "0 < pow10 q" by (simp add: pow10_pos)
  show ?case
  proof (cases "find (reads_back r q) (candidates (r / pow10 q))")
    case None
    have "shortest n (q - 1) r = (m, q')" using Suc.prems(3) None by simp
    moreover have "r \<le> pow10 ((q - 1) + int (Suc k))" using Suc.prems(2) by simp
    ultimately show ?thesis using Suc.IH [of "q - 1" "Suc k"] Suc.prems(1) by simp
  next
    case (Some c)
    then have c: "c \<in> set (candidates (r / pow10 q))" by (auto simp: find_Some_iff)
    have m: "m = nat c" "q' = q" using Suc.prems(3) Some by simp_all
    have "r / pow10 q \<le> 10 ^ k" using Suc.prems(2) p by (simp add: pow10_add divide_le_eq mult.commute pow10_nat)
    then have "of_int c \<le> (of_int (10 ^ k + 1) :: rat)" using candidates_le [OF c] by simp
    then have "c \<le> 10 ^ k + 1" by (simp only: of_int_le_iff)
    then have "m \<le> 10 ^ k + 1" unfolding m(1) by (simp add: nat_le_iff)
    also have "\<dots> \<le> 2 * 10 ^ (k + Suc n)"
      using power_increasing [of k "k + Suc n" "10 :: nat"] one_le_power [of "10 :: nat" k] by linarith
    finally show ?thesis using m(2) by simp
  qed
qed auto


lemma proper_bound: "proper r \<Longrightarrow> \<bar>r\<bar> \<le> pow10 309"
proof -
  assume "proper r"
  then have "\<bar>r\<bar> < 2 ^ 1024" by (auto simp: proper_def fl_def Let_def split: if_splits)
  also have "(2 :: rat) ^ 1024 \<le> 10 ^ 309" by simp
  finally show ?thesis by (simp add: pow10_def)
qed

lemma length_num_text: "length (num_text neg ip fp ex) \<le> 2 + length ip + length fp + (case ex of None \<Rightarrow> 0 | Some (sg, ds) \<Rightarrow> 2 + length ds)"
  by (simp add: num_text_def split: option.split prod.split)

lemma length_fixed_text: "length (fixed_text neg D q) \<le> 3 + length D + nat \<bar>q\<bar>"
  using length_num_text [of neg "D @ replicate (nat q) CHR ''0''" "[]" None]
    length_num_text [of neg "take (length D - nat (- q)) D" "drop (length D - nat (- q)) D" None]
    length_num_text [of neg "''0''" "replicate (nat (- q) - length D) CHR ''0'' @ D" None]
  by (auto simp: fixed_text_def Let_def)

lemma length_scientific_text: assumes "nat \<bar>x\<bar> < 10 ^ Suc 3" shows "length (scientific_text neg D x) \<le> 10 + length D"
proof -
  obtain e where e: "pad_left 2 (dec (nat \<bar>x\<bar>)) = e" "length e \<le> 4" using length_dec [OF assms] by (simp add: pad_left_def)
  obtain sg where sg: "(if x < 0 then CHR ''-'' else CHR ''+'') = sg" by simp
  show ?thesis unfolding scientific_text_def e(1) sg using length_num_text [of neg "[hd D]" "tl D" "Some (sg, e)"] e(2) by simp
qed

lemma length_to_chars: assumes "proper r" shows "length (to_chars (Fin r)) \<le> 3000"
proof (cases "r = 0")
  case False
  obtain m q where s: "shortest 1384 309 \<bar>r\<bar> = (m, q)" by fastforce
  have found: "m \<le> 2 * 10 ^ (0 + 1384) \<and> 309 - int 1384 \<le> q \<and> q \<le> 309"
    by (rule shortest_bound [OF _ _ s]) (use False proper_bound [OF assms] in simp_all)
  have q: "- 1075 \<le> q" "q \<le> 309" using conjunct2 [OF found] by simp_all
  have small: "n < 10 ^ Suc k" if "n \<le> 2 * 10 ^ k" for n k :: nat
  proof -
    have "(2 :: nat) * 10 ^ k < 10 * 10 ^ k" by (intro mult_strict_right_mono) simp_all
    with that have "n < 10 * 10 ^ k" by (rule le_less_trans)
    then show ?thesis by (simp only: power_Suc)
  qed
  have "m < 10 ^ Suc (0 + 1384)" by (rule small [OF conjunct1 [OF found]])
  from length_dec [OF this] have D: "length (dec m) \<le> 1385" by simp
  obtain D where d: "dec m = D" "length D \<le> 1385" using D by blast
  have "nat \<bar>q + int (length D) - 1\<bar> < 10 ^ Suc 3" using q d(2) by simp
  then have "length (scientific_text (r < 0) D (q + int (length D) - 1)) \<le> 3000"
    using length_scientific_text [of "q + int (length D) - 1" "r < 0" D] d(2) by simp
  moreover have "length (fixed_text (r < 0) D q) \<le> 3000" using length_fixed_text [of "r < 0" D q] q d(2) by simp
  ultimately show ?thesis unfolding to_chars.simps s prod.case d(1) Let_def using False by (simp only: if_False split: if_split) simp
qed simp

lemma length_serialize_number:
  assumes "proper_double x" "serialize_number x = Some (t, ok)"
  shows "length t \<le> 3000"
proof -
  have i: "length (int_to_chars (sint i)) \<le> 3000" for i :: "64 word"
  proof -
    have "nat \<bar>sint i\<bar> < 10 ^ Suc 19" using sint_ge [of i] sint_lt [of i] by simp
    from length_dec [OF this] show ?thesis using length_num_text [of "sint i < 0" "dec (nat \<bar>sint i\<bar>)" "[]" None] by (simp add: int_to_chars_def)
  qed
  obtain r where "x = Fin r" "proper r" using assms(1) by (cases x) auto
  then show ?thesis using assms(2) i length_to_chars by (auto simp: serialize_number_def simp del: to_chars.simps split: if_splits)
qed

section \<open>Values\<close>

fun text_bound :: "Json \<Rightarrow> nat" where
  "text_bound (J_Number x) = 3000"
| "text_bound (J_String s) = 6 * length s + 2"
| "text_bound (J_Array xs) = 2 + sum_list (map (\<lambda>x. text_bound x + 1) xs)"
| "text_bound (J_Object m) = 2 + sum_list (map (\<lambda>kv. 6 * length (fst kv) + text_bound (snd kv) + 4) m)"
| "text_bound j = 5"

lemma length_serialize_string: "length (serialize_string s) \<le> 6 * length s + 2"
proof -
  have "length (serialize_char c) \<le> 6" for c by (simp add: serialize_char_def append_json_escape_def)
  then have "length (concat (map serialize_char s)) \<le> 6 * length s" by (induction s) (simp_all add: add_mono)
  then show ?thesis by (simp add: serialize_string_def)
qed

lemma length_join_comma: "length (join_comma ts) \<le> sum_list (map (\<lambda>t. length t + 1) ts)"
  by (induction ts rule: join_comma.induct) simp_all

lemma those_bound:
  assumes "those (map f xs) = Some ps" "\<And>x p. x \<in> set xs \<Longrightarrow> f x = Some p \<Longrightarrow> length (fst p) \<le> g x"
  shows "length (join_comma (map fst ps)) \<le> sum_list (map (\<lambda>x. g x + 1) xs)"
proof -
  have "sum_list (map (\<lambda>t. length t + 1) (map fst ps)) \<le> sum_list (map (\<lambda>x. g x + 1) xs)"
    using assms by (induction xs arbitrary: ps) (auto split: option.splits simp: add_mono)
  then show ?thesis using length_join_comma order_trans by blast
qed

lemma length_serialize:
  "json_ok lm d j \<Longrightarrow> serialize_to j = Some (t, ok) \<Longrightarrow> length t \<le> text_bound j"
proof (induction j arbitrary: d t ok)
  case (J_Number x)
  then show ?case using length_serialize_number by simp
next
  case (J_String s)
  then show ?case using length_serialize_string [of s] by simp
next
  case (J_Array xs)
  then obtain ps where ps: "those (map serialize_to xs) = Some ps" "t = CHR ''['' # join_comma (map fst ps) @ '']''" by auto
  have "length (join_comma (map fst ps)) \<le> sum_list (map (\<lambda>x. text_bound x + 1) xs)"
    using J_Array.IH J_Array.prems(1) by (intro those_bound [OF ps(1)]) (auto simp: list_all_iff)
  then show ?case by (simp add: ps(2))
next
  case (J_Object m)
  let ?f = "\<lambda>kv. map_option (\<lambda>p. (serialize_string (fst kv) @ CHR '':'' # fst p, snd p)) (serialize_to (snd kv))"
  from J_Object obtain ps where ps: "those (map ?f m) = Some ps" "t = CHR ''{'' # join_comma (map fst ps) @ ''}''" by auto
  have "length (fst p) \<le> 6 * length (fst kv) + text_bound (snd kv) + 3" if kv: "kv \<in> set m" "?f kv = Some p" for kv p
  proof -
    obtain q where q: "serialize_to (snd kv) = Some q" "p = (serialize_string (fst kv) @ CHR '':'' # fst q, snd q)" using kv(2) by auto
    have "snd kv \<in> Basic_BNFs.snds kv" by (cases kv) simp
    moreover have "json_ok lm (Suc d) (snd kv)" using J_Object.prems(1) kv(1) by (auto simp: list_all_iff)
    ultimately have "length (fst q) \<le> text_bound (snd kv)" using J_Object.IH kv(1) q(1) by (metis prod.collapse)
    then show ?thesis using length_serialize_string [of "fst kv"] by (simp add: q(2))
  qed
  from those_bound [OF ps(1), of "\<lambda>kv. 6 * length (fst kv) + text_bound (snd kv) + 3", OF this]
  show ?case by (simp add: ps(2) add_ac)
qed auto


text \<open>An object that is built member by member.\<close>

lemma sum_assign: "sum_list (map f (sm_assign k v m)) \<le> f (k, v) + sum_list (map (f :: string \<times> Json \<Rightarrow> nat) m)"
  by (induction k v m rule: sm_assign.induct) auto

lemma text_bound_members:
  "text_bound (json_object kvs) \<le> 2 + sum_list (map (\<lambda>kv. 6 * length (fst kv) + text_bound (snd kv) + 4) kvs)"
proof -
  let ?f = "\<lambda>kv. 6 * length (fst kv) + text_bound (snd kv) + 4 :: nat"
  have "\<exists>m'. fold (\<lambda>(k, v) r. json_set k v r) kvs (J_Object m) = J_Object m' \<and>
      sum_list (map ?f m') \<le> sum_list (map ?f kvs) + sum_list (map ?f m)" for m
  proof (induction kvs arbitrary: m)
    case (Cons kv kvs)
    obtain k v where kv: "kv = (k, v)" by fastforce
    obtain m' where "fold (\<lambda>(k, v) r. json_set k v r) kvs (J_Object (sm_assign k v m)) = J_Object m'"
      "sum_list (map ?f m') \<le> sum_list (map ?f kvs) + sum_list (map ?f (sm_assign k v m))" using Cons.IH by blast
    then show ?case using sum_assign [of ?f k v m] by (intro exI [of _ m']) (simp add: kv)
  qed simp
  from this [of "[]"] show ?thesis by (auto simp: json_object_def)
qed

lemma wire_reparse_bounded:
  assumes "wire_ok 0 j" "f j = y"
  shows "\<exists>s. json_dump j = Some s \<and> length s \<le> text_bound j \<and> (length s \<le> max_bytes default_limits \<longrightarrow> read_text f s = Some y)"
proof -
  have ok: "json_ok default_limits 0 j" "castable j" using assms(1) by (simp_all add: wire_ok_def)
  obtain s where t: "json_serialize j = Some (Some s)" "json_dump j = Some s"
    "length s \<le> max_bytes default_limits \<longrightarrow> json_parse default_limits s = Some j"
    using json_reparse [OF ok] by blast
  then have "serialize_to j = Some (s, True)" by (auto simp: json_serialize_def split: if_splits)
  then have "length s \<le> text_bound j" by (rule length_serialize [OF ok(1)])
  then show ?thesis using t assms(2) by (auto simp: read_text_def)
qed

section \<open>Policies\<close>

text \<open>What the parts of a policy take; the bound of the whole counts its names, rules and roles.\<close>

lemma text_bound_numbers [simp]: "text_bound (jint w) = 3000" "text_bound (jint32 u) = 3000"
  by (simp_all add: jint_def jint32_def)

lemmas member_bound = text_bound_members [THEN order_trans]

lemma text_bound_thresholds: "text_bound (thresholds_to_json t) \<le> 30000"
  unfolding thresholds_to_json_def by (rule member_bound) simp

lemma text_bound_hysteresis: "text_bound (hysteresis_to_json h) \<le> 30000"
  unfolding hysteresis_to_json_def by (rule member_bound) simp

lemma text_bound_weights: "text_bound (weights_to_json w) \<le> 30000"
  unfolding weights_to_json_def by (rule member_bound) simp

lemma sum_list_bound: "(\<And>x. x \<in> set xs \<Longrightarrow> f x \<le> (c :: nat)) \<Longrightarrow> sum_list (map f xs) \<le> c * length xs"
  by (induction xs) (auto simp: add_mono)

lemma length_role: "length (TierRole_to_string r) \<le> 20"
  by (cases r) simp_all

lemma length_action: "length (ResponseAction_to_string a) \<le> 30"
  by (cases a) simp_all

lemma length_level: "length (PressureLevel_to_string l) \<le> 10"
  by (cases l) simp_all

lemma text_bound_uniform:
  assumes "\<And>k v. (k, v) \<in> set kvs \<Longrightarrow> length k \<le> a \<and> text_bound v \<le> b"
  shows "text_bound (json_object kvs) \<le> 2 + (6 * a + b + 4) * length kvs"
proof -
  have "6 * length (fst kv) + text_bound (snd kv) + 4 \<le> 6 * a + b + 4" if "kv \<in> set kvs" for kv
    using assms [of "fst kv" "snd kv"] that by (simp add: add_mono)
  then have "sum_list (map (\<lambda>kv. 6 * length (fst kv) + text_bound (snd kv) + 4) kvs) \<le> (6 * a + b + 4) * length kvs"
    by (rule sum_list_bound)
  then show ?thesis using text_bound_members [of kvs] by linarith
qed

lemma text_bound_aggregate: "text_bound (aggregate_to_json a) \<le> 10000 + 3200 * length (role_weight a)"
proof -
  have "text_bound (json_object (map (\<lambda>(role, v). (TierRole_to_string role, J_Number v)) (role_weight a))) \<le>
      2 + (6 * 20 + 3000 + 4) * length (map (\<lambda>(role, v). (TierRole_to_string role, J_Number v)) (role_weight a))"
    using length_role by (intro text_bound_uniform) auto
  then show ?thesis unfolding aggregate_to_json_def by (intro member_bound) simp
qed

lemma text_bound_freshness:
  "text_bound (freshness_to_json f) \<le> 10000 + sum_list (map (\<lambda>kv. 3004 + 6 * length (fst kv)) (per_provider_max_age_us f))"
proof -
  have "text_bound (json_object (map (\<lambda>(k, v). (k, jint v)) (per_provider_max_age_us f))) \<le>
      2 + sum_list (map (\<lambda>kv. 3004 + 6 * length (fst kv)) (per_provider_max_age_us f))"
    using text_bound_members [of "map (\<lambda>(k, v). (k, jint v)) (per_provider_max_age_us f)"] by (simp add: comp_def split_beta)
  then show ?thesis unfolding freshness_to_json_def by (intro member_bound) simp
qed

lemma text_bound_rule: "text_bound (rule_to_json r) \<le> 300 + 200 * length (rule_actions r)"
proof -
  have "Suc (Suc (Suc (6 * length (ResponseAction_to_string a)))) \<le> 200" for a using length_action [of a] by linarith
  then have "sum_list (map (\<lambda>a. Suc (Suc (Suc (6 * length (ResponseAction_to_string a))))) (rule_actions r)) \<le> 200 * length (rule_actions r)"
    by (intro sum_list_bound)
  then show ?thesis unfolding rule_to_json_def using length_level [of "rule_level r"] by (intro member_bound) (simp add: comp_def)
qed

definition policy_text_size :: "PressurePolicy \<Rightarrow> nat" where
  "policy_text_size p = 200000 + 6 * length (policy_name p) + 3200 * length (role_weight (aggregate p)) +
     sum_list (map (\<lambda>kv. 3004 + 6 * length (fst kv)) (per_provider_max_age_us (freshness p))) +
     sum_list (map (\<lambda>r. 301 + 200 * length (rule_actions r)) (response_rules p))"

lemma text_bound_policy: "text_bound (policy_to_json p) \<le> policy_text_size p"
proof -
  have "sum_list (map (\<lambda>r. text_bound (rule_to_json r) + 1) (response_rules p)) \<le>
      sum_list (map (\<lambda>r. 301 + 200 * length (rule_actions r)) (response_rules p))"
    using text_bound_rule by (intro sum_list_mono) (simp add: add.commute)
  then show ?thesis unfolding policy_to_json_def policy_text_size_def
    using text_bound_thresholds [of "thresholds p"] text_bound_hysteresis [of "hysteresis p"] text_bound_weights [of "weights p"]
      text_bound_aggregate [of "aggregate p"] text_bound_freshness [of "freshness p"]
    by (intro member_bound) (simp add: comp_def)
qed

lemma policy_text:
  assumes "validate_policy p = None" "policy_small p" "policy_wire p" "sm_ok (role_weight (aggregate p))"
  shows "\<exists>s. json_dump (policy_to_json p) = Some s \<and> length s \<le> policy_text_size p \<and>
    (length s \<le> max_bytes default_limits \<longrightarrow> read_text policy_from_json s = Some (Some (Some (wire_policy p))))"
proof -
  have "wire_ok 0 (policy_to_json p)" by (rule wire_ok_policy [OF assms(2,3)])
  moreover have "policy_from_json (policy_to_json p) = Some (Some (wire_policy p))"
    using assms by (intro policy_read_back) (simp_all add: policy_small_def)
  ultimately have "\<exists>s. json_dump (policy_to_json p) = Some s \<and> length s \<le> text_bound (policy_to_json p) \<and>
      (length s \<le> max_bytes default_limits \<longrightarrow> read_text policy_from_json s = Some (Some (Some (wire_policy p))))"
    by (rule wire_reparse_bounded)
  then obtain s where s: "json_dump (policy_to_json p) = Some s" "length s \<le> text_bound (policy_to_json p)"
    "length s \<le> max_bytes default_limits \<longrightarrow> read_text policy_from_json s = Some (Some (Some (wire_policy p)))"
    by (elim exE conjE) (rule that)
  show ?thesis by (intro exI [of _ s] conjI s(1,3) order_trans [OF s(2) text_bound_policy])
qed

lemma default_policy_size: "policy_text_size default_policy \<le> max_bytes default_limits"
  by (simp add: policy_text_size_def default_policy_def PressurePolicy_init_def AggregateConfig_init_def FreshnessConfig_init_def default_limits_def)

text \<open>
  C39. Policies survive the wire as text: a valid policy with counters of at most \<open>2^53\<close> (or the unlimited relief), finite doubles and
  strings of at most a megabyte is written without undefined behaviour, in at most as many bytes as its names, rules and roles account for;
  and when the text is within the byte limit of the default parser, parsing it and reading the policy back gives every threshold, hysteresis setting, weight, role weight
  and response rule unchanged; only the freshness configuration and the three aggregate penalties are replaced by
  their defaults.
\<close>

theorem policy_text_round_trip:
  assumes "validate_policy p = None" "policy_small p" "policy_wire p" "sm_ok (role_weight (aggregate p))"
  shows "\<exists>s. json_dump (policy_to_json p) = Some s \<and> length s \<le> policy_text_size p \<and>
    (length s \<le> max_bytes default_limits \<longrightarrow> read_text policy_from_json s = Some (Some (Some (wire_policy p))))"
  using assms by (rule policy_text)

lemma policy_text_round_trip_witness: "\<exists>s. json_dump (policy_to_json default_policy) = Some s \<and>
    read_text policy_from_json s = Some (Some (Some (wire_policy default_policy)))"
proof -
  from policy_text_round_trip [OF default_policy_valid default_policy_wire] obtain s where
    s: "json_dump (policy_to_json default_policy) = Some s" "length s \<le> policy_text_size default_policy"
    "length s \<le> max_bytes default_limits \<longrightarrow> read_text policy_from_json s = Some (Some (Some (wire_policy default_policy)))" by blast
  from s(2) default_policy_size have "length s \<le> max_bytes default_limits" by (rule order_trans)
  with s(1,3) show ?thesis by blast
qed

section \<open>A snapshot and a trace that come back\<close>

text \<open>
  The samples of the wire format have a partial provider. Their texts are within the byte limit, and what is read back is the
  sample with that provider unavailable.
\<close>

lemma length_to_hex_bound: "length (to_hex i) \<le> 40"
  by (simp add: to_hex_def)

lemma wire_sample_size: "text_bound (snapshot_to_json wire_sample) \<le> max_bytes default_limits"
proof -
  have "text_bound (reserve_to_json r) \<le> 10000" if "r = \<lparr>rsv_kind = RK_Migration, rsv_name = ''mig'', rsv_bytes = 50\<rparr>" for r
    unfolding reserve_to_json_def that by (rule member_bound) simp
  then have "text_bound (budget_to_json sample_budget) \<le> 100000" unfolding budget_to_json_def
    by (intro member_bound) (simp add: sample_budget_def Budget_init_def add_mono)
  then have d: "text_bound (domain_state_to_json d) \<le> 300000"
    if "d = DomainState_init\<lparr>ds_budget := sample_budget, ds_level := PL_High, ds_responses := [RA_RequestReclaim]\<rparr>" for d
    unfolding domain_state_to_json_def domain_members_def that
    using length_to_hex_bound [of "DomainId 0 0"] by (intro member_bound) (simp add: DomainState_init_def)
  have "text_bound (health_to_json (sn_provider_health wire_sample)) \<le> 1000" "text_bound (events_to_json (sn_events wire_sample)) \<le> 10000"
    unfolding health_to_json_def events_to_json_def by (rule member_bound, simp add: wire_sample_def Snapshot_init_def)+
  then show ?thesis unfolding snapshot_to_json_def using d
    by (intro member_bound) (simp add: wire_sample_def Snapshot_init_def default_limits_def)
qed

lemma snapshot_text_round_trip_witness:
  "\<exists>text. json_dump (snapshot_to_json wire_sample) = Some text \<and>
    read_text snapshot_from_json text = Some (Some (Some (wire_snapshot wire_sample))) \<and>
    sn_provider_health (wire_snapshot wire_sample) = [(''cuda'', PS_Unavailable), (''host'', PS_Healthy)]"
proof -
  obtain s where t: "json_dump (snapshot_to_json wire_sample) = Some s" "length s \<le> text_bound (snapshot_to_json wire_sample)"
    using wire_reparse_bounded [OF wire_ok_snapshot [OF wire_sample_ok] refl, of snapshot_from_json] by blast
  have "length s \<le> max_bytes default_limits" using t(2) wire_sample_size by (rule order_trans)
  then have "read_text snapshot_from_json s = Some (Some (Some (wire_snapshot wire_sample)))"
    using snapshot_text_round_trip [OF wire_sample_ok] t(1) by simp
  moreover have "sn_provider_health (wire_snapshot wire_sample) = [(''cuda'', PS_Unavailable), (''host'', PS_Healthy)]"
    by (simp add: wire_snapshot_def wire_health_def wire_status_def wire_sample_def)
  ultimately show ?thesis using t(1) by (intro exI [of _ s] conjI)
qed

lemma wire_trace_sample_size: "text_bound (trace_to_json wire_trace_sample) \<le> max_bytes default_limits"
proof -
  have "text_bound (observation_to_json ob) \<le> 100000" if "ob = DomainObservation_init\<lparr>obs_reserved := Some 7\<rparr>" for ob
    unfolding observation_to_json_def optional_u64_def that
    using length_to_hex_bound [of "DomainId 0 0"] by (intro member_bound) (simp add: DomainObservation_init_def jint_signed_def)
  moreover have "text_bound (health_to_json [(''cuda'', PS_Partial)]) \<le> 1000"
    unfolding health_to_json_def by (rule member_bound) simp
  ultimately have "text_bound (frame_to_json f) \<le> 200000"
    if "f = \<lparr>tf_timestamp_ms = 5, tf_observations = [DomainObservation_init\<lparr>obs_reserved := Some 7\<rparr>],
      tf_provider_health = [(''cuda'', PS_Partial)]\<rparr>" for f
    unfolding frame_to_json_def that
    by (intro member_bound) simp
  then show ?thesis unfolding trace_to_json_def
    by (intro member_bound) (simp add: wire_trace_sample_def default_limits_def)
qed

lemma trace_text_round_trip_witness:
  "\<exists>text. json_dump (trace_to_json wire_trace_sample) = Some text \<and>
    read_text trace_from_json text = Some (Some (Some (wire_trace wire_trace_sample))) \<and>
    map tf_provider_health (tr_frames (wire_trace wire_trace_sample)) = [[(''cuda'', PS_Unavailable)]]"
proof -
  obtain s where t: "json_dump (trace_to_json wire_trace_sample) = Some s" "length s \<le> text_bound (trace_to_json wire_trace_sample)"
    using wire_reparse_bounded [OF wire_ok_trace [OF wire_trace_sample_ok] refl, of trace_from_json] by blast
  have "length s \<le> max_bytes default_limits" using t(2) wire_trace_sample_size by (rule order_trans)
  then have "read_text trace_from_json s = Some (Some (Some (wire_trace wire_trace_sample)))"
    using trace_text_round_trip [OF wire_trace_sample_ok] t(1) by simp
  moreover have "map tf_provider_health (tr_frames (wire_trace wire_trace_sample)) = [[(''cuda'', PS_Unavailable)]]"
    by (simp add: wire_trace_def wire_frame_def wire_health_def wire_status_def wire_trace_sample_def)
  ultimately show ?thesis using t(1) by (intro exI [of _ s] conjI)
qed

end
