(* ===== verification/ExampleLaws.thy ===== *)
theory ExampleLaws imports Examples CommandLineLaws TextLength begin

text \<open>
  What the example programs do: every one of them ends, and those whose budget is far below the capacity of the device
  show it as exhausted from the first snapshot to the last.
\<close>

section \<open>The loop of the examples\<close>

lemma refresh_loop_inv:
  assumes step: "\<And>sp rt now. I sp rt \<Longrightarrow> \<exists>snap sp' rt'. synthetic_refresh (latency now) now (sp, rt) = Some (snap, sp', rt') \<and>
      I sp' rt' \<and> Q snap rt'"
    and "I sp rt"
  shows "\<exists>snaps sp' rt'. refresh_loop latency is (sp, rt) = Some (snaps, rt') \<and> I sp' rt' \<and> length snaps = length is \<and>
    (\<forall>sn \<in> set snaps. \<exists>rt. Q sn rt) \<and> (is \<noteq> [] \<longrightarrow> Q (last snaps) rt')"
  using assms(2)
proof (induction "is" arbitrary: sp rt)
  case (Cons i "is")
  obtain snap sp' rt' where r: "synthetic_refresh (latency (1000 + i * 100)) (1000 + i * 100) (sp, rt) = Some (snap, sp', rt')"
    "I sp' rt'" "Q snap rt'" using step [OF Cons.prems] by blast
  obtain snaps sp2 rt2 where l: "refresh_loop latency is (sp', rt') = Some (snaps, rt2)" "I sp2 rt2" "length snaps = length is"
    "\<forall>sn \<in> set snaps. \<exists>rt. Q sn rt" "is \<noteq> [] \<longrightarrow> Q (last snaps) rt2" using Cons.IH [OF r(2)] by blast
  have e: "snaps = [] \<longleftrightarrow> is = []" "is = [] \<Longrightarrow> rt2 = rt'" using l(1,3) by auto
  show ?case
  proof (intro exI conjI)
    show "refresh_loop latency (i # is) (sp, rt) = Some (snap # snaps, rt2)" by (simp add: r(1) l(1))
    show "i # is \<noteq> [] \<longrightarrow> Q (last (snap # snaps)) rt2" using e l(5) r(3) by (cases "is = []") auto
  qed (use l r(3) in auto)
qed auto

lemma refresh_loop_total:
  assumes "sim_inv i sp rt"
  shows "\<exists>snaps rt'. refresh_loop latency is (sp, rt) = Some (snaps, rt') \<and> length snaps = length is \<and> rt_reachable rt'"
proof -
  have "\<exists>snap sp' rt'. synthetic_refresh (latency now) now (sp, rt) = Some (snap, sp', rt') \<and> sim_inv i sp' rt' \<and> True"
    if "sim_inv i sp rt" for sp rt now using synthetic_refresh_step [OF that] by blast
  from refresh_loop_inv [of "sim_inv i" latency "\<lambda>_ _. True", OF this assms, of "is"] show ?thesis by (auto simp: sim_inv_def)
qed

section \<open>The runtimes of the examples\<close>

lemma set_budgets_kept:
  "rt_reachable rt \<Longrightarrow> rt_reachable (fold (\<lambda>(i, b) rt. snd (set_budget i b rt)) bs rt)"
  "rt_providers (fold (\<lambda>(i, b) rt. snd (set_budget i b rt)) bs rt) = rt_providers rt"
  "rt_current_snapshot (fold (\<lambda>(i, b) rt. snd (set_budget i b rt)) bs rt) = rt_current_snapshot rt"
  by (induction bs arbitrary: rt) (auto simp: budget_fields intro: rt_reachable.step [OF _ rt_step.budget])

lemma synthetic_runtime_fields: "rt_reachable (synthetic_runtime bs)"
  "rt_providers (synthetic_runtime bs) (provider_key ''synthetic'') = Some ''synthetic''"
  "sn_domains (rt_current_snapshot (synthetic_runtime bs)) = []"
  by (simp_all add: synthetic_runtime_def set_budgets_kept simulated_fields rt_reachable.step [OF rt_reachable.start rt_step.provider])

lemma example_inv:
  assumes "list_all spec_ok ds" "d \<in> set ds" "spec_present d" "rt_reachable rt"
    "rt_providers rt (provider_key ''synthetic'') = Some ''synthetic''" "sn_domains (rt_current_snapshot rt) = []"
  shows "sim_inv (spec_id d) (SyntheticProvider_new ds sc 100 4) rt"
  using assms by (auto simp: sim_inv_def SyntheticProvider_new_def)

lemma run_example_total:
  assumes "list_all spec_ok ds" "d \<in> set ds" "spec_present d"
  shows "\<exists>snaps rt. run_example ds sc bs latency n = Some (snaps, rt) \<and> length snaps = n \<and> rt_reachable rt"
  using refresh_loop_total [OF example_inv [OF assms synthetic_runtime_fields], of latency "map of_nat [0..<n]" sc bs]
  by (auto simp: run_example_def)

lemma domain_spec_ok:
  "unat cap \<le> 2 ^ 53 \<Longrightarrow> spec_ok (domain_spec i ty grp cap)" "spec_present (domain_spec i ty grp cap)" "spec_id (domain_spec i ty grp cap) = i"
  by (simp_all add: spec_ok_def domain_spec_def SyntheticDomainSpec_init_def unit_fl)

lemma sizes: "unat (gib 2) \<le> 2 ^ 53" "unat (gib 4) \<le> 2 ^ 53" "unat (gib 8) \<le> 2 ^ 53" "unat (gib 16) \<le> 2 ^ 53" "unat (gib 32) \<le> 2 ^ 53"
  by (simp_all add: gib_def)


section \<open>Every example ends\<close>

text \<open>Nothing on the error stream, and one of the exit codes.\<close>

definition exits :: "int set \<Rightarrow> Outcome option \<Rightarrow> bool" where
  "exits codes o' \<longleftrightarrow> (case o' of None \<Rightarrow> False | Some oc \<Rightarrow> oc_err oc = [] \<and> oc_code oc \<in> codes)"

lemma exits_simps [simp]: "\<not> exits codes None" "exits codes (Some (success out)) \<longleftrightarrow> 0 \<in> codes" "exits codes (Some (gives_up out)) \<longleftrightarrow> 1 \<in> codes"
  by (simp_all add: exits_def success_def gives_up_def)

text \<open>A program that runs an example and prints something of the result.\<close>

lemma example_exits:
  assumes "list_all spec_ok ds" "d \<in> set ds" "spec_present d" "\<And>snaps rt. exits codes (Some (f (snaps, rt)))"
  shows "exits codes (map_option f (run_example ds sc bs latency n))"
  using run_example_total [OF assms(1-3), of sc bs latency n] assms(4) by auto

text \<open>A multi-GPU domain has a phase of quarters.\<close>

lemma quarter_phase: "i < 4 \<Longrightarrow> isfinite (ddiv (Fin (of_nat i)) (Fin 4)) \<and> dle (Fin 0) (ddiv (Fin (of_nat i)) (Fin 4))"
  using unit_fl [of "of_nat i / 4"] by (auto simp: unit_double_def)

lemma multi_gpu_exits: "exits {0} (multi_gpu_synthetic_main latency)"
  unfolding multi_gpu_synthetic_main_def
proof (rule example_exits)
  let ?d = "\<lambda>i::nat. (domain_spec (DomainId 9 (of_nat i)) DT_AcceleratorMemory ''gpu'' (gib 8))\<lparr>spec_phase := ddiv (Fin (of_nat i)) (Fin 4)\<rparr>"
  have "spec_ok (?d i)" if "i < 4" for i
    using quarter_phase [OF that] domain_spec_ok(1) [OF sizes(3)] by (simp add: spec_ok_def)
  then show "list_all spec_ok (map ?d [0..<4])" by (simp add: list_all_iff)
  show "?d 0 \<in> set (map ?d [0..<4])" unfolding set_map by (rule imageI) simp
  show "spec_present (?d 0)" by (simp add: domain_spec_def SyntheticDomainSpec_init_def)
qed (simp add: split_beta)

lemmas spec_simps = domain_spec_ok(1) [OF sizes(2)] domain_spec_ok(1) [OF sizes(4)] domain_spec_ok(1) [OF sizes(5)] domain_spec_ok(2,3)

lemma synthetic_examples_exit:
  "exits {0} (admission_check_main latency)" "exits {0} (reclaim_request_main latency)" "exits {0} (demotion_request_main latency)"
  "exits {0} (cross_tier_policy_main latency)" "exits {0} (pressure_recovery_main latency)" "exits {0} (synthetic_gpu_spike_main latency)"
  unfolding admission_check_main_def reclaim_request_main_def demotion_request_main_def cross_tier_policy_main_def
    pressure_recovery_main_def synthetic_gpu_spike_main_def Let_def
  by (rule example_exits [OF _ list.set_intros(1)]; simp add: spec_simps split_beta)+


lemma custom_budget_exits: "exits {0} (custom_budget_main latency)"
proof -
  let ?b = "Budget_init\<lparr>hard_capacity := gib 24, emergency_reserve_bytes := gib 2\<rparr>"
  have "validate_budget ?b = None" by code_simp
  then have "fst (set_budget (DomainId 1 1) ?b (register_provider (Some ''synthetic'') PressureRuntime_new)) = None"
    by (simp add: set_budget_def)
  moreover have "exits {0} (map_option (\<lambda>(snaps, rt).
      success (''governed capacity='' @ u64_to_string (usable_capacity ?b) @ '' available='' @
        u64_to_string (case find_domain (DomainId 1 1) (last snaps) of None \<Rightarrow> 0 | Some d \<Rightarrow> ds_available d) @ endl))
      (run_example [domain_spec (DomainId 1 1) DT_AcceleratorMemory ''gpu'' (gib 32)] Sc_GradualGrowth [(DomainId 1 1, ?b)] latency 1))"
    by (rule example_exits [OF _ list.set_intros(1)]; simp add: spec_simps split_beta)
  ultimately show ?thesis unfolding custom_budget_main_def Let_def by (simp only: option.case)
qed

lemma subscribe_kept: "subscribe flt cb rt = (k, rt') \<Longrightarrow> rt_reachable rt \<Longrightarrow> rt_reachable rt'"
  "subscribe flt cb rt = (k, rt') \<Longrightarrow> rt_providers rt' = rt_providers rt"
  "subscribe flt cb rt = (k, rt') \<Longrightarrow> rt_current_snapshot rt' = rt_current_snapshot rt"
  using rt_reachable.step [OF _ rt_step.subscribe, of rt flt cb] by (auto simp: subscribe_def)

lemma backpressure_exits: "exits {0} (backpressure_subscription_main latency)"
proof -
  let ?rt = "synthetic_runtime [(DomainId 3 3, hard_budget (mib 256))]"
  let ?d = "domain_spec (DomainId 3 3) DT_AcceleratorMemory ''gpu'' (gib 4)"
  obtain k rt0 where s: "subscribe SubscriptionFilter_init False ?rt = (k, rt0)" by fastforce
  have "sim_inv (spec_id ?d) (SyntheticProvider_new [?d] Sc_GradualGrowth 100 4) rt0"
    using subscribe_kept [OF s] synthetic_runtime_fields [of "[(DomainId 3 3, hard_budget (mib 256))]"]
    by (intro example_inv) (simp_all add: spec_simps)
  from refresh_loop_total [OF this, of latency "map of_nat [0..<30]"] obtain snaps rt where
    l: "refresh_loop latency (map of_nat [0..<30]) (SyntheticProvider_new [?d] Sc_GradualGrowth 100 4, rt0) = Some (snaps, rt)" by blast
  show ?thesis unfolding backpressure_subscription_main_def Let_def s prod.case l by simp
qed

section \<open>The trace\<close>

lemma replay_total:
  assumes "rt_reachable rt"
  shows "\<exists>outs st. run_steps (replay_step latency) is (tp, rt) = Some (outs, st)"
  using assms
proof (induction "is" arbitrary: tp rt)
  case (Cons i "is")
  obtain s tp' where s: "trace_sample i tp = (s, tp')" by fastforce
  obtain calls snap rt' where r: "refresh (replay_world (latency i) s) i rt = Some (calls, snap, rt')"
    using refresh_total [OF rt_reachable_inv [OF Cons.prems]] by blast
  then have "rt_reachable rt'" using Cons.prems rt_reachable.step rt_step.refresh by blast
  then obtain outs st where "run_steps (replay_step latency) is (tp', rt') = Some (outs, st)" using Cons.IH by blast
  moreover have "replay_step latency i (tp, rt) = Some ((calls, snap), tp', rt')" by (simp add: replay_step_def s r)
  ultimately show ?case by simp
qed simp

lemma tenth: "fl (1/10) = Fin (3602879701896397/36028797018963968)"
  by code_simp

lemma eight_tenths: "fl (8/10) = Fin (3602879701896397/4503599627370496)"
  by code_simp

lemma ramp_to_40: "unit_double (dadd (fl (1/10)) (dmul (fl (8/10)) (ramp tick (Fin 40))))"
proof -
  obtain x where x: "ramp tick (Fin 40) = Fin x" "0 \<le> x" "x \<le> 1" using unit_ramp [of "Fin 40" tick] by (auto simp: unit_double_def)
  let ?y = "3602879701896397/4503599627370496 * x"
  have y: "0 \<le> ?y" "?y \<le> 7/8" using x by simp_all
  have "rnd64 (7/8) = 7/8" by code_simp
  then have r: "0 \<le> rnd64 ?y" "rnd64 ?y \<le> 7/8" using y rnd64_mono [OF y(2)] by (simp_all add: rnd64_nonneg)
  have "\<bar>?y\<bar> \<le> pow2 1023" using y pow2_mono [of 0 1023] by simp
  then have "dmul (fl (8/10)) (ramp tick (Fin 40)) = Fin (rnd64 ?y)" unfolding eight_tenths x(1) by (simp add: fl_Fin)
  then show ?thesis using r by (simp add: tenth unit_fl)
qed

lemma example_frames: "\<exists>frames. those (map example_frame ns) = Some frames"
proof -
  have "example_frame n \<noteq> None" for n
    using committed_within [OF sizes(2) ramp_to_40, of "of_nat n"] by (auto simp: example_frame_def Let_def)
  then show ?thesis using those_map_Some [of ns example_frame "\<lambda>n. the (example_frame n)"] by auto
qed

lemma trace_replay_exits: "exits {0} (trace_replay_main latency)"
proof -
  obtain frames where f: "those (map example_frame [0..<40]) = Some frames" using example_frames by blast
  have "rt_reachable (snd (set_budget (DomainId 0x55 0x66) (hard_budget (gib 1)) (register_provider (Some ''trace'') PressureRuntime_new)))"
    by (intro rt_reachable.step [OF _ rt_step.budget] rt_reachable.step [OF rt_reachable.start rt_step.provider])
  from replay_total [OF this, of latency "map tf_timestamp_ms frames" "TraceProvider_new (Some \<lparr>tr_policy_version = 1, tr_frames = frames\<rparr>)"]
  show ?thesis unfolding trace_replay_main_def f by (auto simp: Let_def split_beta)
qed

section \<open>On any machine\<close>

lemma machine_refresh_total: "rt_reachable rt \<Longrightarrow> \<exists>snap rt'. machine_refresh m now rt = Some (snap, rt') \<and> rt_reachable rt'"
proof -
  assume r: "rt_reachable rt"
  obtain calls snap rt' where "refresh (machine_world m now) now rt = Some (calls, snap, rt')"
    using refresh_total [OF rt_reachable_inv [OF r]] by blast
  then show ?thesis using r rt_reachable.step rt_step.refresh by (fastforce simp: machine_refresh_def)
qed

lemma windows_cuda_reachable: "rt_reachable (register_windows_cuda PressureRuntime_new)"
  unfolding register_windows_cuda_def by (intro rt_reachable.step [OF _ rt_step.provider] rt_reachable.start)

lemma machine_examples_exit:
  "exits {0} (Some (observe_host_main m))" "exits {0} (Some (observe_cuda_main m))"
  "exits {0} (integration_consumer_main m)" "exits {0} (downstream_main m)"
  using machine_refresh_total [OF windows_cuda_reachable, of m 1000]
  by (auto simp: observe_host_main_def observe_cuda_main_def Let_def integration_consumer_main_def downstream_main_def)

lemma host_pressure_exits: "exits {0, 1} (host_pressure_main m granted)"
proof -
  let ?rt = "register_provider (Some ''windows'') PressureRuntime_new"
  obtain s0 rt0 where r0: "machine_refresh m 1000 ?rt = Some (s0, rt0)" "rt_reachable rt0"
    using machine_refresh_total rt_reachable.step [OF rt_reachable.start rt_step.provider] by blast
  have two: "exits {0, 1} (case machine_refresh m 2000 rt1 of None \<Rightarrow> None
      | Some (s1, rt2) \<Rightarrow> if \<not> granted then Some (gives_up (f s1)) else
        (case machine_refresh m 3000 rt2 of None \<Rightarrow> None
         | Some (s2, rt3) \<Rightarrow> map_option (\<lambda>(s3, rt4). success (g s1 s2 s3)) (machine_refresh m 4000 rt3)))"
    if "rt_reachable rt1" for rt1 f g
  proof -
    obtain s1 rt2 where 1: "machine_refresh m 2000 rt1 = Some (s1, rt2)" "rt_reachable rt2" using machine_refresh_total \<open>rt_reachable rt1\<close> by blast
    obtain s2 rt3 where 2: "machine_refresh m 3000 rt2 = Some (s2, rt3)" "rt_reachable rt3" using machine_refresh_total 1(2) by blast
    obtain s3 rt4 where "machine_refresh m 4000 rt3 = Some (s3, rt4)" using machine_refresh_total 2(2) by blast
    then show ?thesis using 1 2 by simp
  qed
  have budget: "exits {0, 1} (case set_budget i b rt0 of (Some err, r) \<Rightarrow> Some (gives_up (x err))
      | (None, rt1) \<Rightarrow> (case machine_refresh m 2000 rt1 of None \<Rightarrow> None
        | Some (s1, rt2) \<Rightarrow> if \<not> granted then Some (gives_up (f s1)) else
          (case machine_refresh m 3000 rt2 of None \<Rightarrow> None
           | Some (s2, rt3) \<Rightarrow> map_option (\<lambda>(s3, rt4). success (g s1 s2 s3)) (machine_refresh m 4000 rt3))))" for i b x f g
  proof -
    obtain e rt1 where s: "set_budget i b rt0 = (e, rt1)" by fastforce
    then have "rt_reachable rt1" using rt_reachable.step [OF r0(2) rt_step.budget [of rt0 i b]] by simp
    from two [OF this, of f g] show ?thesis by (cases e) (simp_all add: s)
  qed
  show ?thesis
  proof (cases "filter (\<lambda>d. ds_type d = DT_HostMemory) (sn_domains s0)")
    case Nil
    then show ?thesis unfolding host_pressure_main_def r0(1) option.case prod.case Nil by simp
  next
    case (Cons h hs)
    show ?thesis unfolding host_pressure_main_def r0(1) option.case prod.case Cons list.case Let_def by (rule budget)
  qed
qed

section \<open>The text of a policy\<close>

lemma renamed_policy:
  defines "p \<equiv> default_policy\<lparr>policy_version := 3, policy_name := ''example''\<rparr>"
  shows "validate_policy p = None" "policy_small p" "policy_wire p" "sm_ok (role_weight (aggregate p))" "policy_text_size p \<le> max_bytes default_limits"
proof -
  show "validate_policy p = None" using default_policy_valid by (simp add: p_def validate_policy_def)
  show "policy_small p" "policy_wire p" "sm_ok (role_weight (aggregate p))"
    using default_policy_wire by (simp_all add: p_def policy_small_def policy_wire_def policy_numbers_def small_def)
  show "policy_text_size p \<le> max_bytes default_limits"
    using default_policy_size by (simp add: p_def policy_text_size_def default_policy_def default_limits_def PressurePolicy_init_def
      AggregateConfig_init_def FreshnessConfig_init_def)
qed

lemma policy_serialization_output:
  "\<exists>json. policy_serialization_main = Some (success (lines_of id [''policy json: '' @ json, ''round-trip version=3 name=example'']))"
proof -
  let ?p = "default_policy\<lparr>policy_version := 3, policy_name := ''example''\<rparr>"
  from policy_text [OF renamed_policy(1-4)] obtain s where s: "json_dump (policy_to_json ?p) = Some s" "length s \<le> policy_text_size ?p"
    "length s \<le> max_bytes default_limits \<longrightarrow> read_text policy_from_json s = Some (Some (Some (wire_policy ?p)))"
    by (elim exE conjE) (rule that)
  have "length s \<le> max_bytes default_limits" by (rule order_trans [OF s(2) renamed_policy(5)])
  then have "read_text policy_from_json s = Some (Some (Some (wire_policy ?p)))" using s(3) by simp
  then obtain j where j: "json_parse default_limits s = Some j" "policy_from_json j = Some (Some (wire_policy ?p))"
    by (auto simp: read_text_def)
  have "u64_to_string (policy_version (wire_policy ?p)) = ''3''" "policy_name (wire_policy ?p) = ''example''"
    by (simp_all add: wire_policy_def u64_to_string_def dec.simps dec_digit_def char_of_def bit_0)
  then show ?thesis unfolding policy_serialization_main_def Let_def s(1) option.case j by (intro exI [of _ s]) simp
qed

text \<open>
  C38. The example programs end: on every machine and for every latency that the clock measures, none of them meets undefined
  behaviour, an exception or an empty result (the replayed trace included, whose committed bytes are cast from doubles);
  they print to the standard output only and exit with 0. Only the host example can exit with 1, when it finds no host domain, when its
  budget is rejected or when it is not granted the memory. The policy example
  prints the version and the name that it wrote. (The program that writes a snapshot as JSON is not part of this claim.)
\<close>

theorem examples_end:
  "list_all (exits {0}) [admission_check_main latency, custom_budget_main latency, reclaim_request_main latency,
     demotion_request_main latency, cross_tier_policy_main latency, backpressure_subscription_main latency,
     multi_gpu_synthetic_main latency, pressure_recovery_main latency, synthetic_gpu_spike_main latency, trace_replay_main latency,
     Some thresholds_hysteresis_main, Some (observe_host_main m), Some (observe_cuda_main m), integration_consumer_main m, downstream_main m] \<and>
   exits {0, 1} (host_pressure_main m granted) \<and>
   (\<exists>json. policy_serialization_main = Some (success (lines_of id [''policy json: '' @ json, ''round-trip version=3 name=example''])))"
  by (simp only: list.pred_inject simp_thms synthetic_examples_exit custom_budget_exits backpressure_exits multi_gpu_exits trace_replay_exits
      machine_examples_exit host_pressure_exits policy_serialization_output) (simp add: thresholds_hysteresis_main_def)

end
