(* ===== verification/Emergency.thy ===== *)
theory Emergency imports DomainMachine begin

text \<open>
  Exhaustion of a governed domain: the level that a refresh publishes when the committed bytes have reached the usable
  capacity, for every policy, and the budgets whose reserves leave nothing usable.
\<close>

lemma exhausted_enter_unit: "validate_policy p = None \<Longrightarrow> dle (exhausted_enter (thresholds p)) (Fin 1)"
  by (auto simp: validate_policy_None thresholds_ok_def unit_double_def)

lemma evaluate_exhausted: "dge u (exhausted_enter t) \<Longrightarrow> evaluate_level u l t = PL_Exhausted"
  by (cases l) simp_all

lemma update_exhausted: "immediate_emergency_escalation (hs_cfg s) \<Longrightarrow> hs_level (hyst_update PL_Exhausted now s) = PL_Exhausted"
  by (simp add: hyst_update_def)

lemma debouncer_cfg: "rt_inv rt \<Longrightarrow> hs_cfg (debouncer i rt) = hysteresis (rt_policy rt)"
  by (auto simp: debouncer_def rt_inv_def states_ok_def drs_ok_def HysteresisState_new_def split: option.split)

text \<open>The reading of a governed domain that is observed once.\<close>

lemma governed_reading:
  assumes "concerning i (sampled w rt) = [ob]" "rt_budgets rt i = Some b" "hard_capacity b \<noteq> 0"
  shows "reading i rt (w, now) = (utilization_for (obs_committed ob) (usable_capacity b), now)"
  using assms by (simp add: reading_def governing_budget_def usable_for_def)

lemma governed_level:
  assumes "rt_inv rt" "refresh w now rt = Some (calls, snap, rt')" "concerning i (sampled w rt) = [ob]"
    and "rt_budgets rt i = Some b" "hard_capacity b \<noteq> 0"
  shows "levels_of i (sn_domains snap) = [hs_level (hyst_update (evaluate_level (utilization_for (obs_committed ob) (usable_capacity b))
    (hs_level (debouncer i rt)) (thresholds (rt_policy rt))) now (debouncer i rt))]"
proof -
  have "length (concerning i (sampled w rt)) = 1" using assms(3) by simp
  from refresh_reading(1,2) [OF assms(1,2) this] show ?thesis
    by (simp add: governed_reading [OF assms(3-5)] hyst_drive_def)
qed

lemma exhausted_published:
  assumes "rt_inv rt" "refresh w now rt = Some (calls, snap, rt')" "concerning i (sampled w rt) = [ob]"
    and "rt_budgets rt i = Some b" "hard_capacity b \<noteq> 0" "immediate_emergency_escalation (hysteresis (rt_policy rt))"
    and "usable_capacity b \<noteq> 0" "usable_capacity b \<le> obs_committed ob"
  shows "levels_of i (sn_domains snap) = [PL_Exhausted]"
proof -
  have "dge (utilization_for (obs_committed ob) (usable_capacity b)) (Fin 1)"
    using ratio_u64_ge_1 [OF assms(7,8)] assms(7) by (simp add: utilization_for_def)
  moreover have "dle (exhausted_enter (thresholds (rt_policy rt))) (Fin 1)"
    using assms(1) by (simp add: rt_inv_def exhausted_enter_unit)
  ultimately have "evaluate_level (utilization_for (obs_committed ob) (usable_capacity b)) l (thresholds (rt_policy rt)) = PL_Exhausted" for l
    by (metis dle_trans evaluate_exhausted)
  then show ?thesis using assms(6) by (simp add: governed_level [OF assms(1-5)] update_exhausted debouncer_cfg [OF assms(1)])
qed

text \<open>With nothing usable the utilization is 0, so a domain at Normal stays there.\<close>

lemma evaluate_zero:
  assumes "thresholds_ok t" "dlt (Fin 0) (elevated_enter t)"
  shows "evaluate_level (Fin 0) PL_Normal t = PL_Normal"
  using assms by (auto simp: thresholds_ok_def dlt_def unit_double_def)

lemma reserved_published:
  assumes "rt_inv rt" "refresh w now rt = Some (calls, snap, rt')" "concerning i (sampled w rt) = [ob]"
    and "rt_budgets rt i = Some b" "hard_capacity b \<noteq> 0" "usable_capacity b = 0"
    and "hs_level (debouncer i rt) = PL_Normal" "dlt (Fin 0) (elevated_enter (thresholds (rt_policy rt)))"
  shows "levels_of i (sn_domains snap) = [PL_Normal]"
proof -
  have "thresholds_ok (thresholds (rt_policy rt))" using assms(1) by (simp add: rt_inv_def validate_policy_None)
  from evaluate_zero [OF this assms(8)] show ?thesis
    by (simp add: governed_level [OF assms(1-5)] utilization_for_def assms(6,7) hyst_update_def)
qed

section \<open>Over a run of refreshes\<close>

lemma drives_cfg: "hs_cfg (fold (hyst_drive t) rs s) = hs_cfg s"
  by (induction rs arbitrary: s) (simp_all add: hyst_drive_def split_beta)

lemma drive_exhausted:
  assumes "immediate_emergency_escalation (hs_cfg s)" "dge (fst r) (exhausted_enter t)"
  shows "hs_level (hyst_drive t r s) = PL_Exhausted"
  using assms by (simp add: hyst_drive_def split_beta evaluate_exhausted update_exhausted)

lemma drives_zero:
  assumes "thresholds_ok t" "dlt (Fin 0) (elevated_enter t)" "\<forall>r \<in> set rs. fst r = Fin 0" "hs_level s = PL_Normal"
  shows "hs_level (fold (hyst_drive t) rs s) = PL_Normal"
proof -
  have "hs_level (hyst_drive t r s) = PL_Normal" if "fst r = Fin 0" "hs_level s = PL_Normal" for r s
    using that evaluate_zero [OF assms(1,2)] by (simp add: hyst_drive_def split_beta hyst_update_def)
  then show ?thesis using assms(3,4) by (induction rs arbitrary: s) auto
qed

lemma run_reading:
  assumes "length (concerning i (sampled (fst c) rt)) = 1" "rt_budgets rt i = Some b" "hard_capacity b \<noteq> 0"
  shows "fst (reading i rt c) = utilization_for (obs_committed (hd (concerning i (sampled (fst c) rt)))) (usable_capacity b)"
proof -
  obtain ob where "concerning i (sampled (fst c) rt) = [ob]" using assms(1) by (cases "concerning i (sampled (fst c) rt)") auto
  then show ?thesis using governed_reading [OF _ assms(2,3), of "fst c" ob "snd c"] by simp
qed

text \<open>
  C3. Exhaustion is published at once, at every step of a run in which each refresh observes the governed domain exactly once, from
  any reachable state under any accepted policy. With \<open>immediate_emergency_escalation\<close> on (the default; with it off the escalation is
  debounced), every snapshot whose reading has reached the usable capacity of the budget shows the domain at Exhausted, whatever
  the readings before it. There is one exception, which the budget validation accepts: when the reserves take the whole capacity
  nothing is usable and the utilization counts as 0; a domain that is new to the runtime then stays at Normal for ever,
  however much is committed, if \<open>elevated_enter\<close> is positive.
\<close>

theorem exhaustion_published:
  assumes "rt_reachable rt" "rt_budgets rt i = Some b" "hard_capacity b \<noteq> 0"
    and "\<forall>c \<in> set cycles. length (concerning i (sampled (fst c) rt)) = 1" "run_steps live_step cycles rt = Some (outs, rt')"
  shows "\<forall>k < length cycles.
    (immediate_emergency_escalation (hysteresis (rt_policy rt)) \<and> usable_capacity b \<noteq> 0 \<and>
       usable_capacity b \<le> obs_committed (hd (concerning i (sampled (fst (cycles ! k)) rt))) \<longrightarrow>
       levels_of i (sn_domains (snd (outs ! k))) = [PL_Exhausted]) \<and>
    (usable_capacity b = 0 \<and> rt_domain_states rt i = None \<and> dlt (Fin 0) (elevated_enter (thresholds (rt_policy rt))) \<longrightarrow>
       levels_of i (sn_domains (snd (outs ! k))) = [PL_Normal])"
proof (intro allI impI conjI)
  have inv: "rt_inv rt" using assms(1) by (rule rt_reachable_inv)
  let ?t = "thresholds (rt_policy rt)" and ?r = "reading i rt"
  fix k assume k: "k < length cycles"
  have lvl: "levels_of i (sn_domains (snd (outs ! k))) = [hs_level (fold (hyst_drive ?t) (map ?r (take (Suc k) cycles)) (debouncer i rt))]"
    using run_driven [OF inv assms(4,5)] k by blast
  have read: "fst (?r c) = utilization_for (obs_committed (hd (concerning i (sampled (fst c) rt)))) (usable_capacity b)" if "c \<in> set cycles" for c
    using assms(4) that by (intro run_reading [OF _ assms(2,3)]) blast
  {
    assume full: "immediate_emergency_escalation (hysteresis (rt_policy rt)) \<and> usable_capacity b \<noteq> 0 \<and>
      usable_capacity b \<le> obs_committed (hd (concerning i (sampled (fst (cycles ! k)) rt)))"
    then have "dge (fst (?r (cycles ! k))) (Fin 1)"
      using ratio_u64_ge_1 [of "usable_capacity b"] k by (simp add: read utilization_for_def)
    moreover have "dle (exhausted_enter ?t) (Fin 1)" using inv by (simp add: rt_inv_def exhausted_enter_unit)
    ultimately have "dge (fst (?r (cycles ! k))) (exhausted_enter ?t)" by (metis dle_trans)
    then show "levels_of i (sn_domains (snd (outs ! k))) = [PL_Exhausted]"
      unfolding lvl using k full by (simp add: take_Suc_conv_app_nth drive_exhausted drives_cfg debouncer_cfg [OF inv])
  next
    assume none: "usable_capacity b = 0 \<and> rt_domain_states rt i = None \<and> dlt (Fin 0) (elevated_enter ?t)"
    have "\<forall>r \<in> set (map ?r (take (Suc k) cycles)). fst r = Fin 0"
      using none read by (auto simp: utilization_for_def dest: in_set_takeD)
    moreover have "thresholds_ok ?t" "hs_level (debouncer i rt) = PL_Normal"
      using inv none by (simp_all add: rt_inv_def validate_policy_None debouncer_def HysteresisState_new_def)
    ultimately show "levels_of i (sn_domains (snd (outs ! k))) = [PL_Normal]"
      unfolding lvl using none by (simp only: drives_zero)
  }
qed

text \<open>
  Two budgets that pass the validation, one reserved as a whole and one without a reserve, and a gibibyte committed
  against each.
\<close>

definition reserved_budget :: Budget where
  "reserved_budget = Budget_init\<lparr>hard_capacity := 1000, emergency_reserve_bytes := 1000\<rparr>"

definition open_budget :: Budget where
  "open_budget = Budget_init\<lparr>hard_capacity := 1000\<rparr>"

definition busy_world :: World where
  "busy_world = \<lparr>w_order = [provider_key ''p''], w_sample = (\<lambda>_. Inr \<lparr>sample_status = PS_Healthy,
     sample_observations = [DomainObservation_init\<lparr>obs_id := DomainId 1 2, obs_committed := 1073741824\<rparr>],
     sample_error = [], sampled_at_ms = 5\<rparr>), w_latency_us = 0\<rparr>"

definition governed_demo :: "Budget \<Rightarrow> PressureRuntime" where
  "governed_demo b = snd (set_budget (DomainId 1 2) b demo_runtime)"

lemma example_budgets: "validate_budget reserved_budget = None" "usable_capacity reserved_budget = 0"
  "validate_budget open_budget = None" "usable_capacity open_budget = 1000"
  "hard_capacity reserved_budget \<noteq> 0" "hard_capacity open_budget \<noteq> 0"
  by code_simp+

lemma governed_demo_facts:
  assumes "validate_budget b = None"
  shows "rt_reachable (governed_demo b)" "rt_budgets (governed_demo b) (DomainId 1 2) = Some b"
    "rt_policy (governed_demo b) = default_policy" "rt_domain_states (governed_demo b) (DomainId 1 2) = None"
    "concerning (DomainId 1 2) (sampled busy_world (governed_demo b)) =
       [DomainObservation_init\<lparr>obs_id := DomainId 1 2, obs_committed := 1073741824\<rparr>]"
proof -
  show "rt_reachable (governed_demo b)"
    unfolding governed_demo_def by (rule rt_reachable.step [OF demo_runtime_facts(1) rt_step.budget])
  show "rt_budgets (governed_demo b) (DomainId 1 2) = Some b" "rt_policy (governed_demo b) = default_policy"
    "rt_domain_states (governed_demo b) (DomainId 1 2) = None"
    by (simp_all add: governed_demo_def set_budget_def assms demo_runtime_facts)
      (simp_all add: demo_runtime_def register_provider_def PressureRuntime_new_def)
  have "rt_providers (governed_demo b) = [provider_key ''p'' \<mapsto> ''p'']"
    by (simp add: governed_demo_def set_budget_def assms demo_runtime_facts)
  then show "concerning (DomainId 1 2) (sampled busy_world (governed_demo b)) =
       [DomainObservation_init\<lparr>obs_id := DomainId 1 2, obs_committed := 1073741824\<rparr>]"
    by (simp add: concerning_def sampled_def polled_def registered_def busy_world_def outcome_samples_def List.map_filter_simps)
qed

lemma governed_demo_run:
  assumes "validate_budget b = None"
  shows "\<exists>outs rt'. run_steps live_step [(busy_world, 5), (busy_world, 9)] (governed_demo b) = Some (outs, rt')"
proof -
  note r = rt_reachable_inv [OF governed_demo_facts(1) [OF assms]]
  obtain calls snap rt1 where a: "refresh busy_world 5 (governed_demo b) = Some (calls, snap, rt1)" using refresh_total [OF r] by blast
  obtain calls2 snap2 rt2 where "refresh busy_world 9 rt1 = Some (calls2, snap2, rt2)"
    using refresh_total [OF refresh_inv [OF r a]] by blast
  with a show ?thesis by (simp add: live_step_def)
qed

lemma exhaustion_published_witness:
  "\<exists>outs rt' outs' rt''.
    run_steps live_step [(busy_world, 5), (busy_world, 9)] (governed_demo open_budget) = Some (outs, rt') \<and>
    levels_of (DomainId 1 2) (sn_domains (snd (outs ! 0))) = [PL_Exhausted] \<and>
    run_steps live_step [(busy_world, 5), (busy_world, 9)] (governed_demo reserved_budget) = Some (outs', rt'') \<and>
    levels_of (DomainId 1 2) (sn_domains (snd (outs' ! 1))) = [PL_Normal]"
proof -
  let ?cs = "[(busy_world, 5), (busy_world, 9)] :: (World \<times> u64) list"
  have p: "immediate_emergency_escalation (hysteresis default_policy)"
    "dlt (Fin 0) (elevated_enter (thresholds default_policy))" by code_simp+
  note o = governed_demo_facts [OF example_budgets(3)] and r = governed_demo_facts [OF example_budgets(1)]
  obtain outs rt' outs' rt'' where
    run: "run_steps live_step ?cs (governed_demo open_budget) = Some (outs, rt')"
      "run_steps live_step ?cs (governed_demo reserved_budget) = Some (outs', rt'')"
    using governed_demo_run [OF example_budgets(3)] governed_demo_run [OF example_budgets(1)] by blast
  have "levels_of (DomainId 1 2) (sn_domains (snd (outs ! 0))) = [PL_Exhausted]"
    using exhaustion_published [OF o(1,2) example_budgets(6) _ run(1)] p o(5)
    by (simp add: o(3) example_budgets(4))
  moreover have "levels_of (DomainId 1 2) (sn_domains (snd (outs' ! 1))) = [PL_Normal]"
    using exhaustion_published [OF r(1,2) example_budgets(5) _ run(2)] p r(4,5)
    by (simp add: r(3) example_budgets(2))
  ultimately show ?thesis using run by blast
qed

end
