(* ===== verification/ExampleLevels.thy ===== *)
theory ExampleLevels imports ExampleLaws Emergency CrossTier begin

text \<open>
  The examples with a budget of at most 256 MiB on a device of 4 GiB: the curves of the scenarios never fall below a sixteenth
  of the device, so the governed domain is exhausted in every snapshot, whatever the latencies.
\<close>

section \<open>The curves have a floor\<close>

definition floored :: "double \<Rightarrow> bool" where
  "floored u \<longleftrightarrow> unit_double u \<and> dle (Fin (1/16)) u"

lemma rnd_sixteenth: "rnd64 (1/16) = 1/16"
  by code_simp

lemma fl_floored: "1/16 \<le> x \<Longrightarrow> x \<le> 1 \<Longrightarrow> floored (fl x)"
  using fl_mono [of "1/16" x] unit_fl [of x] pow2_mono [of 0 1023] by (simp add: floored_def fl_Fin rnd_sixteenth)

lemma clamp_floored: "1/16 \<le> x \<Longrightarrow> floored (clamp01 (fl x))"
proof (cases "x \<le> 1")
  case True
  assume "1/16 \<le> x"
  then show ?thesis using fl_floored [OF _ True] by (simp add: floored_def clamp01_unit)
next
  case False
  then have "dle (Fin 1) (fl x)" using fl_mono [of 1 x] by simp
  then have "clamp01 (fl x) = Fin 1" by (cases "fl x") (auto simp: clamp01_def)
  then show ?thesis by (simp add: floored_def unit_double_def)
qed

lemma rise_floored:
  assumes "floored a" "unit_double b" "unit_double x"
  shows "floored (clamp01 (dadd a (dmul b x)))"
proof -
  obtain p where p: "a = Fin p" "1/16 \<le> p" using assms(1) by (auto simp: floored_def unit_double_def)
  obtain y where y: "dmul b x = Fin y" "0 \<le> y" using unit_mul [OF assms(2,3)] by (auto simp: unit_double_def)
  then have "dadd a (dmul b x) = fl (p + y)" by (simp add: p(1))
  then show ?thesis using p(2) y(2) by (simp add: clamp_floored)
qed

lemma recovery_literals: "fl (97/100) = Fin (4368491638549381/4503599627370496)" "fl (82/100) = Fin (7385903388887613/9007199254740992)"
  by code_simp+

lemma recovery_rnd: "rnd64 (7385903388887613/9007199254740992) = 7385903388887613/9007199254740992"
  by code_simp

lemma fall_floored:
  assumes "unit_double x"
  shows "floored (clamp01 (dsub (fl (97/100)) (dmul (fl (82/100)) x)))"
proof -
  let ?c = "7385903388887613/9007199254740992 :: rat"
  obtain q where q: "x = Fin q" "0 \<le> q" "q \<le> 1" using assms by (auto simp: unit_double_def)
  then have "0 \<le> ?c * q" "?c * q \<le> ?c" by simp_all
  then have r: "rnd64 (?c * q) \<le> ?c" "\<bar>?c * q\<bar> \<le> pow2 1023"
    using rnd64_mono [of "?c * q" ?c] recovery_rnd pow2_mono [of 0 1023] by simp_all
  have "dmul (fl (82/100)) x = Fin (rnd64 (?c * q))" unfolding recovery_literals q(1) using r(2) by (simp add: fl_Fin)
  then have "dsub (fl (97/100)) (dmul (fl (82/100)) x) = fl (4368491638549381/4503599627370496 - rnd64 (?c * q))"
    unfolding recovery_literals by (simp add: dsub_def)
  then show ?thesis using r(1) by (simp add: clamp_floored)
qed

lemma growth_floored: "unit_double p \<Longrightarrow> floored (growth_curve p tick)"
proof -
  assume p: "unit_double p"
  have "unit_double (dmul (fl (85/100)) (ramp tick (Fin 50)))" "unit_double (dsub (Fin 1) (dmul (fl (30/100)) p))"
    using p by (intro unit_mul unit_complement unit_fl unit_ramp; simp)+
  then show ?thesis unfolding growth_curve_def by (intro rise_floored fl_floored) simp_all
qed

lemma primary_floored:
  assumes "isfinite phase" "sc \<in> {Sc_GradualGrowth, Sc_RapidSpike, Sc_SlowRecovery}"
  shows "floored (primary_curve sc phase tick)"
proof -
  note p = unit_phase [OF assms(1)]
  have "unit_double (ramp t (Fin 20))" "unit_double (ramp t (Fin 100))" for t by (intro unit_ramp; simp)+
  with assms(2) p show ?thesis unfolding primary_curve_def Let_def
    by (auto intro!: growth_floored rise_floored fall_floored [simplified] fl_floored unit_fl)
qed

definition rising_scenarios :: "SyntheticScenario list" where
  "rising_scenarios = [Sc_GradualGrowth, Sc_RapidSpike, Sc_SlowRecovery, Sc_Simultaneous]"

lemma util_floored:
  assumes "isfinite (spec_phase d)" "sc \<in> set rising_scenarios" "spec_group d \<in> {''gpu'', ''host''}"
  shows "floored (util_for d sc tick)"
  using assms primary_floored [OF assms(1)] by (auto simp: util_for_def rising_scenarios_def group_hostlike_def Let_def)

section \<open>Exhausted from the start\<close>

lemma committed_floored:
  fixes w :: u64
  assumes "unat w \<le> 2 ^ 53" "floored u" "16 * n \<le> unat w"
  shows "\<exists>c. to_u64 (dmul (of_u64 w) u) = Some c \<and> n \<le> unat c"
proof -
  obtain x where x: "u = Fin x" "1/16 \<le> x" "x \<le> 1" using assms(2) by (auto simp: floored_def unit_double_def)
  obtain k where k: "unat w = k" by simp
  have "rnd64 (of_int (int k)) = of_int (int k)" "rnd64 (of_int (int n)) = of_int (int n)"
    using assms(1,3) unfolding k by (intro rnd64_int; simp)+
  then have e: "rnd64 (of_nat k) = of_nat k" "rnd64 (of_nat n) = of_nat n" by simp_all
  have "(of_nat (16 * n) :: rat) \<le> of_nat k" using assms(3) unfolding k by (simp only: of_nat_le_iff)
  then have "(of_nat n :: rat) \<le> of_nat k * (1/16)" by simp
  also have "\<dots> \<le> of_nat k * x" using x(2) by (intro mult_left_mono) simp_all
  finally have n: "of_nat n \<le> rnd64 (of_nat k * x)" using rnd64_mono [of "of_nat n" "of_nat k * x"] e(2) by simp
  obtain c where c: "to_u64 (dmul (of_u64 w) u) = Some c" using committed_within [OF assms(1)] assms(2) by (auto simp: floored_def)
  have "dmul (of_u64 w) u = fl (of_nat k * x)" by (simp add: of_u64_Fin u64_rat_def k e(1) x(1))
  moreover have "\<bar>of_nat k * x\<bar> \<le> pow2 1023"
  proof -
    have "(of_nat k :: rat) \<le> of_nat (2 ^ 53)" using assms(1) unfolding k by (simp only: of_nat_le_iff)
    also have "\<dots> \<le> pow2 1023" using pow2_mono [of 53 1023] by (simp add: pow2_nat)
    finally have "of_nat k \<le> pow2 1023" .
    moreover have "0 \<le> of_nat k * x" "of_nat k * x \<le> of_nat k" using x mult_left_mono [of x 1 "of_nat k"] by simp_all
    ultimately show ?thesis by linarith
  qed
  ultimately have "to_u64 (Fin (rnd64 (of_nat k * x))) = Some c" using c by (simp add: fl_Fin)
  moreover obtain z where z: "\<lfloor>rnd64 (of_nat k * x)\<rfloor> = z" by simp
  moreover have "0 \<le> rnd64 (of_nat k * x)" using n by (rule order_trans [OF of_nat_0_le_iff])
  ultimately have c': "c = of_int z" "z < 2 ^ 64" by (auto simp: rat_trunc_def Let_def split: if_splits)
  have f: "int n \<le> z" using n z by (simp add: le_floor_iff flip: z)
  then have "nat z < 2 ^ 64" "c = of_nat (nat z)" using c' by simp_all
  then have "unat c = nat z" using unat_of_nat [of "nat z", where 'a = 64] by simp
  then show ?thesis using f c by auto
qed


text \<open>
  The situation in the loop: the domain is observed once in every cycle, with at most a sixteenth of its capacity as budget.
\<close>

definition pinned :: "SyntheticDomainSpec \<Rightarrow> u64 \<Rightarrow> SyntheticProvider \<Rightarrow> PressureRuntime \<Rightarrow> bool" where
  "pinned d b sp rt \<longleftrightarrow> sim_inv (spec_id d) sp rt \<and> sp_scenario sp \<in> set rising_scenarios \<and> list_all spec_present (sp_domains sp) \<and>
     filter (\<lambda>e. spec_id e = spec_id d) (sp_domains sp) = [d] \<and> spec_group d \<in> {''gpu'', ''host''} \<and>
     rt_policy rt = default_policy \<and> rt_budgets rt (spec_id d) = Some (hard_budget b) \<and> b \<noteq> 0 \<and>
     16 * unat b \<le> unat (spec_total_capacity d)"

lemma pinned_observed:
  assumes "pinned d b sp rt"
  shows "\<exists>s ob. synthetic_sample now sp = Some (s, sp\<lparr>sp_tick := sp_tick sp + 1\<rparr>) \<and>
    concerning (spec_id d) (sampled (synthetic_world latency s) rt) = [ob] \<and> b \<le> obs_committed ob \<and> obs_type ob = spec_type d"
proof -
  let ?f = "synthetic_observation (sp_scenario sp) False now (sp_tick sp)"
  have p: "list_all spec_ok (sp_domains sp)" "sp_scenario sp \<in> set rising_scenarios" "filter spec_present (sp_domains sp) = sp_domains sp"
    "filter (\<lambda>e. spec_id e = spec_id d) (sp_domains sp) = [d]" "rt_providers rt (provider_key ''synthetic'') = Some ''synthetic''"
    using assms by (auto simp: pinned_def sim_inv_def list_all_iff filter_id_conv)
  have ob: "?f e = Some (the (?f e)) \<and> obs_id (the (?f e)) = spec_id e" if "e \<in> set (sp_domains sp)" for e
    using that p(1) synthetic_observation_accounts [of e "sp_scenario sp" False now "sp_tick sp"] by (auto simp: list_all_iff)
  then have "those (map ?f (sp_domains sp)) = Some (map (\<lambda>e. the (?f e)) (sp_domains sp))" by (intro those_map_Some) blast
  then obtain s where s: "synthetic_sample now sp = Some (s, sp\<lparr>sp_tick := sp_tick sp + 1\<rparr>)"
    "sample_observations s = map (\<lambda>e. the (?f e)) (sp_domains sp)"
    using p(2,3) by (auto simp: synthetic_sample_def rising_scenarios_def Let_def)
  have "concerning (spec_id d) (sample_observations s) = map (\<lambda>e. the (?f e)) (filter (\<lambda>e. obs_id (the (?f e)) = spec_id d) (sp_domains sp))"
    by (simp add: concerning_def s(2) filter_map comp_def)
  also have "filter (\<lambda>e. obs_id (the (?f e)) = spec_id d) (sp_domains sp) = [d]" using ob p(4) by (metis (no_types, lifting) filter_cong)
  finally have c: "concerning (spec_id d) (sampled (synthetic_world latency s) rt) = [the (?f d)]"
    by (simp add: sampled_def synthetic_polled(2) [OF p(5)])
  have d: "d \<in> set (sp_domains sp)" using p(4) by (metis filter_is_subset list.set_intros(1) subsetD)
  then have ok: "spec_ok d" using p(1) by (simp add: list_all_iff)
  then have "floored (util_for d (sp_scenario sp) (sp_tick sp))"
    using p(2) assms by (intro util_floored) (auto simp: pinned_def spec_ok_def)
  moreover have "unat (spec_total_capacity d) \<le> 2 ^ 53" "16 * unat b \<le> unat (spec_total_capacity d)"
    using ok assms by (simp_all add: spec_ok_def pinned_def)
  ultimately obtain co where "to_u64 (dmul (of_u64 (spec_total_capacity d)) (util_for d (sp_scenario sp) (sp_tick sp))) = Some co" "unat b \<le> unat co"
    using committed_floored by blast
  then have "b \<le> obs_committed (the (?f d))" "obs_type (the (?f d)) = spec_type d"
    by (simp_all add: synthetic_observation_def word_le_nat_alt)
  with s(1) c show ?thesis by blast
qed

text \<open>The type of an observed domain is that of its observation; its budget is the one that governs it.\<close>

definition identity :: "DomainState \<Rightarrow> PressureDomainId \<times> DomainType \<times> Budget" where
  "identity d = (ds_id d, ds_type d, ds_budget d)"

definition observed_identity :: "(PressureDomainId \<rightharpoonup> Budget) \<Rightarrow> DomainObservation \<Rightarrow> PressureDomainId \<times> DomainType \<times> Budget" where
  "observed_identity bm ob = (obs_id ob, obs_type ob, fst (governing_budget bm (obs_id ob)))"

lemma interpret_fold_identities:
  "identity ` set (cy_domains (fold (interpret_observation pol bm now prov) os cy)) =
     identity ` set (cy_domains cy) \<union> observed_identity bm ` set os"
proof (induction os arbitrary: cy)
  case (Cons ob os)
  have "identity ` set (cy_domains (interpret_observation pol bm now prov ob cy)) =
      insert (observed_identity bm ob) (identity ` set (cy_domains cy))"
    by (simp add: interpret_observation_def Let_def split_beta publish_domain_def identity_def observed_identity_def)
  then show ?case by (simp add: Cons.IH)
qed simp

lemma interpret_batches_identities:
  "identity ` set (cy_domains (fold (\<lambda>(prov, obs). fold (interpret_observation pol bm now prov) obs) all cy)) =
     identity ` set (cy_domains cy) \<union> observed_identity bm ` set (concat (map snd all))"
  by (induction all arbitrary: cy) (simp_all add: interpret_fold_identities split_beta image_Un Un_assoc)

lemma published_identity:
  assumes "rt_inv rt" "refresh w now rt = Some (calls, snap, rt')" "concerning i (sampled w rt) = [ob]"
    and "d \<in> set (sn_domains snap)" "ds_id d = i"
  shows "identity d = observed_identity (rt_budgets rt) ob"
proof -
  from refreshE [OF assms(1,2)] have s: "snap = refresh_snapshot w now rt" by metis
  let ?cy = "interpreted w now rt"
  obtain d0 where d: "d0 \<in> set (settled w now rt)" "identity d0 = identity d"
    using assms(4) by (auto simp: s observe_cycle_domains identity_def)
  have i: "ds_id d0 = i" using d(2) assms(5) by (simp add: identity_def)
  have "i \<in> obs_id ` set (sampled w rt)" using assms(3) concerning_empty [of i "sampled w rt"] by auto
  then have "i \<in> set (cy_observed ?cy)" by (simp add: interpreted_fields(1) sampled_ids)
  then have "d0 \<in> set (cy_domains ?cy)" using d(1) i by (auto simp: settled_def kept_by_def)
  moreover have "identity ` set (cy_domains ?cy) = observed_identity (rt_budgets rt) ` set (sampled w rt)"
    by (simp add: interpreted_def interpret_all_def interpret_batches_identities poll_all_def poll_fold cycle_start_def sampled_def polled_def)
  ultimately obtain ob' where ob': "ob' \<in> set (sampled w rt)" "observed_identity (rt_budgets rt) ob' = identity d" using d(2) by force
  then have "obs_id ob' = i" using assms(5) by (simp add: identity_def observed_identity_def)
  then have "ob' \<in> set (concerning i (sampled w rt))" using ob'(1) by (simp add: concerning_def)
  then show ?thesis using assms(3) ob'(2) by simp
qed

lemma published_responses:
  assumes "rt_inv rt" "refresh w now rt = Some (calls, snap, rt')" "d \<in> set (sn_domains snap)"
  shows "ds_responses d = (if is_accelerator (ds_type d) \<and> host_saturated (sn_domains snap)
      then filter (\<lambda>a. a \<noteq> RA_RequestDemotion) (initial_actions (ds_level d)) else initial_actions (ds_level d))"
proof -
  from refreshE [OF assms(1,2)] have s: "snap = refresh_snapshot w now rt" by metis
  have ds: "sn_domains snap = map (respond (settled w now rt)) (settled w now rt)" by (simp add: s observe_cycle_domains)
  then obtain d0 where "d = respond (settled w now rt) d0" using assms(3) by auto
  then show ?thesis by (simp add: ds respond_responses)
qed

text \<open>What a refresh publishes in this situation.\<close>

definition exhausted_snapshot :: "(SyntheticDomainSpec \<times> u64) list \<Rightarrow> Snapshot \<Rightarrow> bool" where
  "exhausted_snapshot pins snap \<longleftrightarrow> list_all (\<lambda>(d, b). levels_of (spec_id d) (sn_domains snap) = [PL_Exhausted] \<and>
       list_all (\<lambda>e. ds_id e = spec_id d \<longrightarrow> ds_type e = spec_type d \<and> ds_budget e = hard_budget b) (sn_domains snap)) pins \<and>
     list_all (\<lambda>e. ds_responses e = (if is_accelerator (ds_type e) \<and> host_saturated (sn_domains snap)
       then filter (\<lambda>a. a \<noteq> RA_RequestDemotion) (initial_actions (ds_level e)) else initial_actions (ds_level e))) (sn_domains snap)"

lemma default_emergency: "immediate_emergency_escalation (hysteresis default_policy)"
  by code_simp

lemma hard_budget_usable: "usable_capacity (hard_budget b) = b" "hard_capacity (hard_budget b) = b"
  by (simp_all add: hard_budget_def Budget_init_def usable_capacity_def reserve_bytes_def)

lemma synthetic_refreshE:
  assumes "synthetic_refresh latency now (sp, rt) = Some (snap, sp', rt')"
  obtains s calls where "synthetic_sample now sp = Some (s, sp')" "refresh (synthetic_world latency s) now rt = Some (calls, snap, rt')"
  using assms by (auto simp: synthetic_refresh_def synthetic_world_def split: option.splits)

lemma pinned_step:
  assumes "pinned d b sp rt" "synthetic_refresh latency now (sp, rt) = Some (snap, sp', rt')"
  shows "pinned d b sp' rt'" "exhausted_snapshot [(d, b)] snap"
proof -
  have inv: "rt_inv rt" using assms(1) rt_reachable_inv by (simp add: pinned_def sim_inv_def)
  obtain s calls where s: "synthetic_sample now sp = Some (s, sp')" "refresh (synthetic_world latency s) now rt = Some (calls, snap, rt')"
    using assms(2) by (rule synthetic_refreshE)
  then obtain ob where ob: "sp' = sp\<lparr>sp_tick := sp_tick sp + 1\<rparr>" "concerning (spec_id d) (sampled (synthetic_world latency s) rt) = [ob]"
    "b \<le> obs_committed ob" "obs_type ob = spec_type d" using pinned_observed [OF assms(1), of now] by auto
  have "sim_inv (spec_id d) sp' rt'"
    using synthetic_refresh_step [of "spec_id d" sp rt latency now] assms ob(1) by (auto simp: pinned_def)
  moreover have "length (concerning (spec_id d) (sampled (synthetic_world latency s) rt)) = 1" using ob(2) by simp
  note kept = refresh_reading(3,4) [OF inv s(2) this]
  ultimately show "pinned d b sp' rt'" using assms(1) by (simp add: pinned_def ob(1) kept)
  have "levels_of (spec_id d) (sn_domains snap) = [PL_Exhausted]"
    using assms(1) ob(3) by (intro exhausted_published [OF inv s(2) ob(2)]) (auto simp: pinned_def hard_budget_usable default_emergency)
  then show "exhausted_snapshot [(d, b)] snap"
    using published_identity [OF inv s(2) ob(2)] published_responses [OF inv s(2)] ob(4) assms(1)
    by (auto simp: exhausted_snapshot_def list_all_iff pinned_def identity_def observed_identity_def governing_budget_def hard_budget_usable)
qed

section \<open>The loop\<close>

lemma exhausted_loop:
  assumes "pins \<noteq> []" "list_all (\<lambda>(d, b). pinned d b sp rt) pins"
  shows "\<exists>snaps rt'. refresh_loop latency is (sp, rt) = Some (snaps, rt') \<and> length snaps = length is \<and>
    list_all (exhausted_snapshot pins) snaps \<and> (is \<noteq> [] \<longrightarrow> exhausted_snapshot pins (rt_current_snapshot rt'))"
proof -
  let ?I = "\<lambda>sp rt. list_all (\<lambda>(d, b). pinned d b sp rt) pins"
  let ?Q = "\<lambda>(snap::Snapshot) (rt'::PressureRuntime). exhausted_snapshot pins snap \<and> rt_current_snapshot rt' = snap"
  have step: "\<exists>snap sp' rt'. synthetic_refresh (latency now) now (sp, rt) = Some (snap, sp', rt') \<and> ?I sp' rt' \<and> ?Q snap rt'"
    if I: "?I sp rt" for sp rt now
  proof -
    have "sim_inv (spec_id (fst (hd pins))) sp rt" using I assms(1) by (cases pins) (auto simp: pinned_def)
    from synthetic_refresh_step [OF this, of "latency now" now] obtain snap sp' rt' where
      r: "synthetic_refresh (latency now) now (sp, rt) = Some (snap, sp', rt')" "rt_current_snapshot rt' = snap" by blast
    have "pinned d b sp' rt' \<and> exhausted_snapshot [(d, b)] snap" if "(d, b) \<in> set pins" for d b
      using pinned_step [OF _ r(1), of d b] I that by (auto simp: list_all_iff)
    then have "?I sp' rt'" "exhausted_snapshot pins snap" using assms(1) by (cases pins; force simp: exhausted_snapshot_def list_all_iff)+
    then show ?thesis using r by blast
  qed
  have "\<exists>snaps sp' rt'. refresh_loop latency is (sp, rt) = Some (snaps, rt') \<and> ?I sp' rt' \<and> length snaps = length is \<and>
      (\<forall>sn \<in> set snaps. \<exists>rt. ?Q sn rt) \<and> (is \<noteq> [] \<longrightarrow> ?Q (last snaps) rt')"
    by (rule refresh_loop_inv [of ?I latency ?Q]) (fact step, fact assms(2))
  then obtain snaps sp' rt' where
    "refresh_loop latency is (sp, rt) = Some (snaps, rt')" "length snaps = length is" "\<forall>sn \<in> set snaps. \<exists>rt. ?Q sn rt"
    "is \<noteq> [] \<longrightarrow> ?Q (last snaps) rt'" by blast
  then show ?thesis by (intro exI [of _ snaps] exI [of _ rt']) (auto simp: list_all_iff)
qed

text \<open>What the programs read from such a snapshot.\<close>

lemma exhausted_found:
  assumes "exhausted_snapshot pins snap" "(d, b) \<in> set pins"
  shows "\<exists>e. find_domain (spec_id d) snap = Some e \<and> ds_level e = PL_Exhausted \<and> ds_type e = spec_type d \<and>
    ds_budget e = hard_budget b \<and> ds_responses e = (if is_accelerator (spec_type d) \<and> host_saturated (sn_domains snap)
       then [RA_EmergencyStopGrowth, RA_RejectNewWork, RA_RequestReclaim] else initial_actions PL_Exhausted)"
proof -
  have l: "map ds_level (filter (\<lambda>e. ds_id e = spec_id d) (sn_domains snap)) = [PL_Exhausted]"
    using assms by (auto simp: exhausted_snapshot_def list_all_iff levels_of_def)
  then obtain e where e: "filter (\<lambda>e. ds_id e = spec_id d) (sn_domains snap) = [e]" "ds_level e = PL_Exhausted" by auto
  then have m: "e \<in> set (filter (\<lambda>e. ds_id e = spec_id d) (sn_domains snap))" by simp
  then obtain e' where f: "find_domain (spec_id d) snap = Some e'"
    using find_domain_None [of "spec_id d" snap] by (cases "find_domain (spec_id d) snap") (auto simp: image_iff)
  then have "e' \<in> set (filter (\<lambda>e. ds_id e = spec_id d) (sn_domains snap))" using find_domain_Some by auto
  then have "find_domain (spec_id d) snap = Some e" using e(1) f by simp
  moreover have "ds_type e = spec_type d \<and> ds_budget e = hard_budget b" "ds_responses e = (if is_accelerator (ds_type e) \<and> host_saturated (sn_domains snap)
       then filter (\<lambda>a. a \<noteq> RA_RequestDemotion) (initial_actions (ds_level e)) else initial_actions (ds_level e))"
    using assms m by (fastforce simp: exhausted_snapshot_def list_all_iff)+
  ultimately show ?thesis using e(2) by simp
qed

section \<open>The programs\<close>

lemma hard_budget_valid: "validate_budget (hard_budget b) = None"
  by (simp add: validate_budget_def hard_budget_def Budget_init_def reserve_bytes_def)

lemma synthetic_runtime_config:
  "rt_policy (synthetic_runtime bs) = default_policy"
  "rt_budgets (synthetic_runtime [(i, hard_budget b)]) = [i \<mapsto> hard_budget b]"
  "rt_budgets (synthetic_runtime [(i, hard_budget b), (j, hard_budget c)]) = [i \<mapsto> hard_budget b, j \<mapsto> hard_budget c]"
proof -
  have "rt_policy (fold (\<lambda>(i, b) rt. snd (set_budget i b rt)) bs rt) = rt_policy rt" for rt
    by (induction bs arbitrary: rt) (auto simp: set_budget_def split: option.split)
  then show "rt_policy (synthetic_runtime bs) = default_policy"
    by (simp add: synthetic_runtime_def register_provider_def PressureRuntime_new_def)
qed (simp_all add: synthetic_runtime_def set_budget_def hard_budget_valid register_provider_def PressureRuntime_new_def)

lemma pinned_start:
  assumes "list_all spec_ok ds" "list_all spec_present ds" "filter (\<lambda>e. spec_id e = spec_id d) ds = [d]" "sc \<in> set rising_scenarios"
    and "spec_group d \<in> {''gpu'', ''host''}" "rt_budgets (synthetic_runtime bs) (spec_id d) = Some (hard_budget b)" "b \<noteq> 0"
    and "16 * unat b \<le> unat (spec_total_capacity d)"
  shows "pinned d b (SyntheticProvider_new ds sc 100 4) (synthetic_runtime bs)"
proof -
  have "d \<in> set ds" using assms(3) by (metis filter_is_subset list.set_intros(1) subsetD)
  then have "sim_inv (spec_id d) (SyntheticProvider_new ds sc 100 4) (synthetic_runtime bs)"
    using assms(1,2) by (intro example_inv synthetic_runtime_fields) (auto simp: list_all_iff)
  then show ?thesis using assms by (simp add: pinned_def SyntheticProvider_new_def synthetic_runtime_config)
qed

lemma domain_spec_fields: "spec_group (domain_spec i ty grp cap) = grp" "spec_total_capacity (domain_spec i ty grp cap) = cap"
  "spec_type (domain_spec i ty grp cap) = ty"
  by (simp_all add: domain_spec_def)

text \<open>One accelerator of 4 GiB with a budget of at most 256 MiB.\<close>

lemma exhausted_example:
  assumes "sc \<in> set rising_scenarios" "b \<noteq> 0" "unat b \<le> 2 ^ 28"
  shows "\<exists>snaps rt. run_example [domain_spec i DT_AcceleratorMemory ''gpu'' (gib 4)] sc [(i, hard_budget b)] latency n = Some (snaps, rt) \<and>
    length snaps = n \<and> list_all (exhausted_snapshot [(domain_spec i DT_AcceleratorMemory ''gpu'' (gib 4), b)]) snaps \<and>
    (n \<noteq> 0 \<longrightarrow> exhausted_snapshot [(domain_spec i DT_AcceleratorMemory ''gpu'' (gib 4), b)] (rt_current_snapshot rt))"
proof -
  have "unat (gib 4) = 2 ^ 32" by (simp add: gib_def)
  then have "pinned (domain_spec i DT_AcceleratorMemory ''gpu'' (gib 4)) b
      (SyntheticProvider_new [domain_spec i DT_AcceleratorMemory ''gpu'' (gib 4)] sc 100 4) (synthetic_runtime [(i, hard_budget b)])"
    using assms by (intro pinned_start) (simp_all add: spec_simps domain_spec_fields synthetic_runtime_config)
  then show ?thesis
    using exhausted_loop [of "[(domain_spec i DT_AcceleratorMemory ''gpu'' (gib 4), b)]" _ "synthetic_runtime [(i, hard_budget b)]" latency "map of_nat [0..<n]"]
    by (simp add: run_example_def)
qed

lemma exhausted_level:
  "exhausted_snapshot [(domain_spec i ty grp cap, b)] snap \<Longrightarrow> level_or x i snap = ''EXHAUSTED''"
  using exhausted_found [of "[(domain_spec i ty grp cap, b)]" snap "domain_spec i ty grp cap" b] by (auto simp: level_or_def spec_simps)

lemma level_unchanged: "list_all (\<lambda>sn. level_or ''none'' i sn = l) sns \<Longrightarrow> level_changes i t l sns = []"
  by (induction sns arbitrary: t) (simp_all add: Let_def)

lemma recovery_output: "pressure_recovery_main latency = Some (success (lines_of id [''slow-recovery:'', ''  t=0 -> EXHAUSTED'']))"
proof -
  have b: "mib 256 \<noteq> 0" "unat (mib 256) \<le> 2 ^ 28" by (simp_all add: mib_def)
  have "Sc_SlowRecovery \<in> set rising_scenarios" by (simp add: rising_scenarios_def)
  from exhausted_example [OF this b, of "DomainId 8 1" latency 60] obtain snaps rt where
    r: "run_example [domain_spec (DomainId 8 1) DT_AcceleratorMemory ''gpu'' (gib 4)] Sc_SlowRecovery [(DomainId 8 1, hard_budget (mib 256))] latency 60 = Some (snaps, rt)"
    "length snaps = 60" "list_all (exhausted_snapshot [(domain_spec (DomainId 8 1) DT_AcceleratorMemory ''gpu'' (gib 4), mib 256)]) snaps" by blast
  then have l: "list_all (\<lambda>sn. level_or ''none'' (DomainId 8 1) sn = ''EXHAUSTED'') snaps"
    using exhausted_level by (auto simp: list_all_iff)
  obtain sn sns where "snaps = sn # sns" using r(2) by (cases snaps) auto
  then have "level_changes (DomainId 8 1) 0 [] snaps = [''  t=0 -> EXHAUSTED'']"
    using l level_unchanged [of "DomainId 8 1" "''EXHAUSTED''" sns] by (simp add: Let_def dec.simps [of 0] dec_digit_def)
  then show ?thesis unfolding pressure_recovery_main_def Let_def r(1) by (simp add: lines_of_def)
qed

lemma spike_output: "\<exists>utils. length utils = 20 \<and> synthetic_gpu_spike_main latency = Some (success (''rapid-spike:'' @ endl @
    lines_of (\<lambda>(t, u). ''  t='' @ dec t @ '' util='' @ ostream_double u @ '' level=EXHAUSTED'') (enumerate 0 utils)))"
proof -
  have b: "mib 256 \<noteq> 0" "unat (mib 256) \<le> 2 ^ 28" by (simp_all add: mib_def)
  have "Sc_RapidSpike \<in> set rising_scenarios" by (simp add: rising_scenarios_def)
  from exhausted_example [OF this b, of "DomainId 7 1" latency 20] obtain snaps rt where
    r: "run_example [domain_spec (DomainId 7 1) DT_AcceleratorMemory ''gpu'' (gib 4)] Sc_RapidSpike [(DomainId 7 1, hard_budget (mib 256))] latency 20 = Some (snaps, rt)"
    "length snaps = 20" "list_all (exhausted_snapshot [(domain_spec (DomainId 7 1) DT_AcceleratorMemory ''gpu'' (gib 4), mib 256)]) snaps" by blast
  let ?u = "\<lambda>sn. case find_domain (DomainId 7 1) sn of None \<Rightarrow> Fin 0 | Some d \<Rightarrow> ds_utilization d"
  let ?f = "\<lambda>(t, u). ''  t='' @ dec t @ '' util='' @ ostream_double u @ '' level=EXHAUSTED''"
  have l: "list_all (\<lambda>sn. level_or ''none'' (DomainId 7 1) sn = ''EXHAUSTED'') snaps"
    using r(3) exhausted_level by (auto simp: list_all_iff)
  have e: "'' level='' @ ''EXHAUSTED'' = '' level=EXHAUSTED''" by simp
  have "lines_of (\<lambda>(t, sn). ''  t='' @ dec t @ '' util='' @ ostream_double (?u sn) @ '' level='' @ level_or ''none'' (DomainId 7 1) sn) (enumerate n snaps) =
      lines_of ?f (enumerate n (map ?u snaps))" for n
    using l by (induction snaps arbitrary: n) (simp_all add: lines_of_def e del: append_Cons)
  then show ?thesis unfolding synthetic_gpu_spike_main_def Let_def r(1)
    by (intro exI [of _ "map ?u snaps"]) (simp add: r(2) del: append_Cons)
qed

lemma exhausted_relief:
  assumes "exhausted_snapshot pins snap" "(d, b) \<in> set pins" "b \<noteq> 0"
  shows "\<exists>r. dr_relief (response_for (spec_id d) snap) = Some r \<and> is_reclaim r \<and> rr_target_bytes r = b div 2 \<and> rr_urgency r = PL_Exhausted"
    and "dr_level (response_for (spec_id d) snap) = PL_Exhausted"
    and "dr_actions (response_for (spec_id d) snap) = (if is_accelerator (spec_type d) \<and> host_saturated (sn_domains snap)
       then [RA_EmergencyStopGrowth, RA_RejectNewWork, RA_RequestReclaim] else initial_actions PL_Exhausted)"
proof -
  obtain e where e: "find_domain (spec_id d) snap = Some e" "ds_level e = PL_Exhausted" "ds_budget e = hard_budget b"
    "ds_responses e = (if is_accelerator (spec_type d) \<and> host_saturated (sn_domains snap)
       then [RA_EmergencyStopGrowth, RA_RejectNewWork, RA_RequestReclaim] else initial_actions PL_Exhausted)"
    using exhausted_found [OF assms(1,2)] by blast
  have t: "relief_bytes_for PL_Exhausted (hard_budget b) = b div 2"
    using assms(3) by (simp add: hard_budget_def Budget_init_def)
  show "\<exists>r. dr_relief (response_for (spec_id d) snap) = Some r \<and> is_reclaim r \<and> rr_target_bytes r = b div 2 \<and> rr_urgency r = PL_Exhausted"
    by (simp add: response_for_def e relief_step_def Let_def t is_reclaim_def del: relief_bytes_for.simps)
  show "dr_level (response_for (spec_id d) snap) = PL_Exhausted"
    "dr_actions (response_for (spec_id d) snap) = (if is_accelerator (spec_type d) \<and> host_saturated (sn_domains snap)
       then [RA_EmergencyStopGrowth, RA_RejectNewWork, RA_RequestReclaim] else initial_actions PL_Exhausted)"
    by (simp_all add: response_for_def e)
qed

lemma reclaim_output: "reclaim_request_main latency = Some (success (''reclaim target=67108864 urgency=EXHAUSTED'' @ endl))"
proof -
  have b: "mib 128 \<noteq> 0" "unat (mib 128) \<le> 2 ^ 28" by (simp_all add: mib_def)
  have "Sc_GradualGrowth \<in> set rising_scenarios" by (simp add: rising_scenarios_def)
  from exhausted_example [OF this b, of "DomainId 4 4" latency 40] obtain snaps rt where
    r: "run_example [domain_spec (DomainId 4 4) DT_AcceleratorMemory ''gpu'' (gib 4)] Sc_GradualGrowth [(DomainId 4 4, hard_budget (mib 128))] latency 40 = Some (snaps, rt)"
    "exhausted_snapshot [(domain_spec (DomainId 4 4) DT_AcceleratorMemory ''gpu'' (gib 4), mib 128)] (rt_current_snapshot rt)" by auto
  obtain q where q: "dr_relief (response_for (DomainId 4 4) (rt_current_snapshot rt)) = Some q" "is_reclaim q"
    "rr_target_bytes q = mib 128 div 2" "rr_urgency q = PL_Exhausted"
    using exhausted_relief(1) [OF r(2) list.set_intros(1) b(1)] by (auto simp: spec_simps)
  have "mib 128 div 2 = 67108864" by (simp add: mib_def)
  moreover have "dec 67108864 = ''67108864''" by (simp add: dec.simps dec_digit_def char_of_def bit_0)
  ultimately have "u64_to_string (mib 128 div 2) = ''67108864''" by (simp add: u64_to_string_def)
  then show ?thesis unfolding reclaim_request_main_def Let_def r(1) by (simp add: q)
qed

text \<open>The two examples with a host: the host of the first is exhausted too, so the demotion is dropped.\<close>

lemma cross_tier_output:
  "cross_tier_policy_main latency = Some (success (''host=EXHAUSTED gpu=EXHAUSTED demotion_recommended=no'' @ endl))"
proof -
  let ?g = "domain_spec (DomainId 6 1) DT_AcceleratorMemory ''gpu'' (gib 4)" and ?h = "domain_spec (DomainId 6 2) DT_HostMemory ''host'' (gib 4)"
  let ?bs = "[(DomainId 6 1, hard_budget (mib 200)), (DomainId 6 2, hard_budget (mib 200))]" and ?pins = "[(?g, mib 200), (?h, mib 200)]"
  have n: "mib 200 \<noteq> 0" "16 * unat (mib 200) \<le> unat (gib 4)" by (simp_all add: mib_def gib_def)
  have "pinned d b (SyntheticProvider_new [?g, ?h] Sc_Simultaneous 100 4) (synthetic_runtime ?bs)" if "(d, b) \<in> set ?pins" for d b
    using that n by (intro pinned_start) (auto simp: spec_simps domain_spec_fields synthetic_runtime_config rising_scenarios_def)
  then have "list_all (\<lambda>(d, b). pinned d b (SyntheticProvider_new [?g, ?h] Sc_Simultaneous 100 4) (synthetic_runtime ?bs)) ?pins" by simp
  from exhausted_loop [OF _ this, of latency "map of_nat [0..<50]"] obtain snaps rt where
    r: "run_example [?g, ?h] Sc_Simultaneous ?bs latency 50 = Some (snaps, rt)" "exhausted_snapshot ?pins (rt_current_snapshot rt)"
    by (auto simp: run_example_def)
  obtain e where e: "find_domain (DomainId 6 2) (rt_current_snapshot rt) = Some e" "ds_level e = PL_Exhausted" "ds_type e = DT_HostMemory"
    using exhausted_found [OF r(2), of ?h "mib 200"] by (auto simp: spec_simps domain_spec_fields)
  then have "host_saturated (sn_domains (rt_current_snapshot rt))"
    using find_domain_Some by (fastforce simp: host_saturated_def is_hostlike_def)
  then have g: "dr_level (response_for (DomainId 6 1) (rt_current_snapshot rt)) = PL_Exhausted"
    "dr_actions (response_for (DomainId 6 1) (rt_current_snapshot rt)) = [RA_EmergencyStopGrowth, RA_RejectNewWork, RA_RequestReclaim]"
    using exhausted_relief(2,3) [OF r(2) list.set_intros(1) n(1)] by (simp_all add: spec_simps domain_spec_fields is_accelerator_def)
  show ?thesis unfolding cross_tier_policy_main_def Let_def r(1) by (simp add: g level_or_def e)
qed

lemma demotion_output:
  "\<exists>actions. demotion_request_main latency = Some (success (lines_of id
     [''gpu level=EXHAUSTED'', ''no demotion request (cross-tier check may have blocked it)'',
      ''responses:'' @ concat (map (\<lambda>a. '' '' @ ResponseAction_to_string a) actions)]))"
proof -
  let ?g = "domain_spec (DomainId 5 1) DT_AcceleratorMemory ''gpu'' (gib 4)" and ?h = "domain_spec (DomainId 5 2) DT_HostMemory ''host'' (gib 16)"
  let ?bs = "[(DomainId 5 1, hard_budget (mib 200)), (DomainId 5 2, hard_budget (gib 4))]"
  have n: "mib 200 \<noteq> 0" "16 * unat (mib 200) \<le> unat (gib 4)" by (simp_all add: mib_def gib_def)
  then have "list_all (\<lambda>(d, b). pinned d b (SyntheticProvider_new [?g, ?h] Sc_Simultaneous 100 4) (synthetic_runtime ?bs)) [(?g, mib 200)]"
    by simp (intro pinned_start; simp add: spec_simps domain_spec_fields synthetic_runtime_config rising_scenarios_def)
  from exhausted_loop [OF _ this, of latency "map of_nat [0..<45]"] obtain snaps rt where
    r: "run_example [?g, ?h] Sc_Simultaneous ?bs latency 45 = Some (snaps, rt)" "exhausted_snapshot [(?g, mib 200)] (rt_current_snapshot rt)"
    by (auto simp: run_example_def)
  obtain q where q: "dr_relief (response_for (DomainId 5 1) (rt_current_snapshot rt)) = Some q" "\<not> is_demotion q"
    "dr_level (response_for (DomainId 5 1) (rt_current_snapshot rt)) = PL_Exhausted"
    using exhausted_relief(1,2) [OF r(2) list.set_intros(1) n(1)] by (auto simp: spec_simps is_reclaim_def is_demotion_def)
  show ?thesis unfolding demotion_request_main_def Let_def r(1)
    by (intro exI [of _ "dr_actions (response_for (DomainId 5 1) (rt_current_snapshot rt))"]) (simp add: q)
qed

text \<open>
  C36. What the examples show, whatever the latencies. Their budgets are far below what their scenarios commit, so the accelerator is
  exhausted from the first snapshot to the last: the recovery example never shows a recovery, the spike example no change
  of level, the reclaim example asks for half of its budget, the cross-tier example blocks the demotion because the host is exhausted too, and the
  demotion example, for which the relief of the response is meant, can only print that there is no demotion request.
\<close>

theorem examples_show_exhaustion:
  "pressure_recovery_main latency = Some (success (lines_of id [''slow-recovery:'', ''  t=0 -> EXHAUSTED''])) \<and>
   (\<exists>utils. length utils = 20 \<and> synthetic_gpu_spike_main latency = Some (success (''rapid-spike:'' @ endl @
      lines_of (\<lambda>(t, u). ''  t='' @ dec t @ '' util='' @ ostream_double u @ '' level=EXHAUSTED'') (enumerate 0 utils)))) \<and>
   reclaim_request_main latency = Some (success (''reclaim target=67108864 urgency=EXHAUSTED'' @ endl)) \<and>
   cross_tier_policy_main latency = Some (success (''host=EXHAUSTED gpu=EXHAUSTED demotion_recommended=no'' @ endl)) \<and>
   (\<exists>actions. demotion_request_main latency = Some (success (lines_of id
     [''gpu level=EXHAUSTED'', ''no demotion request (cross-tier check may have blocked it)'',
      ''responses:'' @ concat (map (\<lambda>a. '' '' @ ResponseAction_to_string a) actions)])))"
  by (intro conjI recovery_output spike_output reclaim_output cross_tier_output demotion_output)

end
