(* ===== verification/Benchmark.thy ===== *)
theory Benchmark imports Examples begin

text \<open>
  benchmarks/benchmark.cpp. Its readings of the clock, in nanoseconds, are an argument: the reading number \<open>k\<close>, in the order of the
  program (three of the evaluation, ten of each scale, two of the dispatch); so are the latencies that each of the five runtimes measures.
\<close>

section \<open>\<open>std::printf\<close>\<close>

text \<open>\<open>%w.kf\<close> and \<open>%4d\<close>: the exact value rounded to \<open>k\<close> decimals, padded on the left.\<close>

definition pad_spaces :: "nat \<Rightarrow> string \<Rightarrow> string" where
  "pad_spaces w s = replicate (w - length s) CHR '' '' @ s"

fun fixed_double :: "nat \<Rightarrow> double \<Rightarrow> string" where
  "fixed_double k (Fin r) =
    (let m = nat (rne (\<bar>r\<bar> * 10 ^ k))
     in (if r < 0 then ''-'' else []) @ dec (m div 10 ^ k) @ ''.'' @ pad_left k (dec (m mod 10 ^ k)))"
| "fixed_double k x = double_to_string x"

section \<open>The program\<close>

definition per_op_ns :: "u64 \<Rightarrow> nat \<Rightarrow> double" where
  "per_op_ns total_ns n = ddiv (of_u64 total_ns) (Fin (of_nat n))"

definition per_op_us :: "u64 \<Rightarrow> nat \<Rightarrow> double" where
  "per_op_us total_ns n = ddiv (ddiv (of_u64 total_ns) (Fin 1000)) (Fin (of_nat n))"

text \<open>The value of an enumerator.\<close>

fun level_value :: "PressureLevel \<Rightarrow> u64" where
  "level_value PL_Normal = 0"
| "level_value PL_Elevated = 1"
| "level_value PL_High = 2"
| "level_value PL_Critical = 3"
| "level_value PL_Exhausted = 4"
| "level_value PL_Unknown = 5"

definition evaluation_sum :: "nat \<Rightarrow> u64" where
  "evaluation_sum n = fold (\<lambda>i sum. sum + level_value (evaluate_level
     (dadd (Fin (1/2)) (ddiv (dmul (Fin (1/2)) (Fin (of_nat (i mod 100)))) (Fin 100))) PL_High (thresholds default_policy))) [0..<n] 0"

definition evaluation_line :: "(nat \<Rightarrow> u64) \<Rightarrow> string option" where
  "evaluation_line clock =
    (let sc = score_domain (fl (8/10)) True (fl (2/10)) (fl (1/10)) (Fin (1/2)) 0 Conf_High Val_Valid (weights default_policy)
     in map_option (\<lambda>tenths. ''threshold+score eval: '' @ pad_spaces 8 (fixed_double 2 (per_op_ns (clock 2 - clock 0) 100000)) @
          '' ns/op (sum='' @ u64_to_string (evaluation_sum 100000 + tenths) @ '')'')
        (to_u64 (dmul (ps_value sc) (Fin 10))))"

definition scale_spec :: "nat \<Rightarrow> nat \<Rightarrow> SyntheticDomainSpec" where
  "scale_spec ndom i = (let d = domain_spec (DomainId (of_nat (i + 1)) 0) DT_AcceleratorMemory ''gpu'' (gib 4)
     in if 1 < ndom then d\<lparr>spec_phase := ddiv (Fin (of_nat i)) (Fin (of_nat ndom))\<rparr> else d)"

text \<open>Fifty times the text of the snapshot; a value that cannot be written adds nothing.\<close>

definition serialized_bytes :: "Snapshot \<Rightarrow> u64 option" where
  "serialized_bytes snap = map_option (\<lambda>s. (case s of None \<Rightarrow> 0 | Some t \<Rightarrow> 50 * of_nat (length t))) (json_serialize (snapshot_to_json snap))"

definition scale_lines :: "(nat \<Rightarrow> u64) \<Rightarrow> (u64 \<Rightarrow> u64) \<Rightarrow> nat \<Rightarrow> string list option" where
  "scale_lines clock latency ndom =
    (let ids = map (\<lambda>i. DomainId (of_nat (i + 1)) 0) [0..<ndom]; i = DomainId 1 0;
         sp = SyntheticProvider_new (map (scale_spec ndom) [0..<ndom]) Sc_GradualGrowth 100 4;
         rt = synthetic_runtime (map (\<lambda>j. (j, hard_budget (gib 1))) ids)
     in case refreshes latency 1000 (map of_nat [0..<10]) (sp, rt) of None \<Rightarrow> None
        | Some st \<Rightarrow>
          (case refreshes latency 10000 (map of_nat [0..<200]) st of None \<Rightarrow> None
           | Some (sp', rt') \<Rightarrow>
             let snap = rt_current_snapshot rt';
                 (h, rt'') = ((\<lambda>(h, rt). admit i 1024 rt) ^^ 100000) (AdmissionHint_init, rt')
             in map_option (\<lambda>bytes.
               [''refresh ('' @ pad_spaces 4 (dec ndom) @ '' domains): '' @ pad_spaces 8 (fixed_double 1 (per_op_us (clock 1 - clock 0) 200)) @ '' us/snapshot'',
                ''  current_snapshot:            '' @ pad_spaces 8 (fixed_double 2 (per_op_ns (clock 3 - clock 2) 100000)) @ '' ns/op'',
                ''  find_domain:                 '' @ pad_spaces 8 (fixed_double 2 (per_op_ns (clock 5 - clock 4) 100000)) @ '' ns/op ('' @
                  (if find_domain i snap \<noteq> None then ''hit'' else ''miss'') @ '')'',
                ''  admit:                       '' @ pad_spaces 8 (fixed_double 2 (per_op_ns (clock 7 - clock 6) 100000)) @ '' ns/op ('' @
                  AdmissionDecision_to_string (ah_decision h) @ '')'',
                ''  serialize snapshot:          '' @ pad_spaces 8 (fixed_double 2 (per_op_us (clock 9 - clock 8) 50)) @ '' us/op, '' @
                  u64_to_string bytes @ '' bytes'']) (serialized_bytes snap)))"

definition dispatch_line :: "(nat \<Rightarrow> u64) \<Rightarrow> (u64 \<Rightarrow> u64) \<Rightarrow> string option" where
  "dispatch_line clock latency =
    (let i = DomainId 999 1; (k, rt) = subscribe SubscriptionFilter_init False (synthetic_runtime [(i, hard_budget (mib 100))])
     in map_option (\<lambda>(sp, rt'). ''event dispatch: '' @ pad_spaces 8 (fixed_double 2 (per_op_us (clock 1 - clock 0) 500)) @ '' us/refresh ('' @
          dec (length (drain (rt_subscriptions rt' ! k))) @ '' events delivered)'')
        (refreshes latency 1000 (map of_nat [0..<500])
          (SyntheticProvider_new [domain_spec i DT_AcceleratorMemory ''gpu'' (mib 1024)] Sc_Sawtooth 100 4, rt)))"

definition benchmark_main :: "(nat \<Rightarrow> u64) \<Rightarrow> (nat \<Rightarrow> u64 \<Rightarrow> u64) \<Rightarrow> Outcome option" where
  "benchmark_main clock latency =
    (case evaluation_line clock of None \<Rightarrow> None
     | Some line \<Rightarrow>
       (case those (map (\<lambda>(k, ndom). scale_lines (\<lambda>j. clock (3 + 10 * k + j)) (latency k) ndom) (enumerate 0 [1, 8, 64, 1000])) of None \<Rightarrow> None
        | Some scales \<Rightarrow>
          map_option (\<lambda>dispatch. success (lines_of id ([''=== Memory Pressure micro-benchmarks ==='', line] @ concat scales @
              [dispatch, ''=== done ==='']))) (dispatch_line (\<lambda>j. clock (43 + j)) (latency 4))))"

end
