(* ===== verification/Spec2Isabelle.thy ===== *)
theory Spec2Isabelle imports CrossTier ScoreBounds WireReaders ProgramLaws CudaLibrary PolicyRace RaceExamples DomainMachine TraceReplay ExampleLevels
  Benchmark begin

text \<open>
  A verification library of Memory Pressure, a C++ library that observes memory domains (host, pinned, accelerator,
  storage), interprets their utilization as pressure levels, and publishes snapshots, events and recommendations.

  \<^bold>\<open>How the program works.\<close> A \<open>PressureRuntime\<close> (runtime.h, runtime.cpp) holds a policy, budgets, providers, a state per
  domain and subscriptions. \<open>refresh\<close> polls every provider for observations, interprets each one under its governing budget
  (utilization, classifier with hysteresis, trend, score), keeps or removes the domains that were not observed,
  assigns response actions across tiers, aggregates, compares with the previous snapshot, numbers and delivers events, and
  publishes the new snapshot. Between refreshes it answers queries (admission, backpressure, relief, explanation).
  Policies, budgets, observations, snapshots, events, statistics and traces travel as JSON.

  \<^bold>\<open>Theories and sources.\<close>

  \<^item> \<open>Prelude\<close>: the types of the model, fact collections, the locales of codecs (printer and parser of a type).
  \<^item> \<open>Doubles\<close>: IEEE binary64 over the rationals, executable, with the locale \<open>rounding\<close>; every \<open>double\<close> of the sources
    is a value of this type and every operation rounds where the source rounds. \<open>StdMap\<close>: \<open>std::map\<close> as a sorted
    association list. \<open>Decimal\<close>: \<open>std::to_string\<close>.
  \<^item> \<open>Vocabulary\<close>, \<open>DomainId\<close>: types.h (enumerations with printer and parser, identities).
  \<^item> \<open>Budgets\<close>: budget.h and \<open>validate_budget\<close>. \<open>Policies\<close>: policy.h and \<open>validate_policy\<close>, \<open>default_policy\<close>.
  \<^item> \<open>Scoring\<close>: score.h, \<open>score_domain\<close>. \<open>Hysteresis\<close>: hysteresis.h, \<open>evaluate_level\<close>, \<open>HysteresisState::update\<close>.
    \<open>Trends\<close>: velocity.h, \<open>TrendEstimator\<close>. \<open>Events\<close>: events.h, \<open>Subscription\<close>. \<open>Domains\<close>, \<open>Snapshots\<close>: domain.h, snapshot.h,
    \<open>diff_snapshots\<close> (all in core.cpp).
  \<^item> \<open>Responses\<close>: response.h and the queries of runtime.cpp. \<open>Runtime\<close>: the state of runtime.h and its configuration operations.
    \<open>Refresh\<close>: \<open>PressureRuntime::refresh\<close>, one definition per stage, threaded over the record \<open>Cycle\<close> of its locals.
  \<^item> \<open>JsonNumbers\<close>, \<open>JsonStrings\<close>, \<open>JsonValue\<close>, \<open>JsonParser\<close>: json.h and json.cpp.
    \<open>JsonFields\<close>, \<open>PolicyJson\<close>, \<open>SnapshotJson\<close>: serialize.cpp.
  \<^item> \<open>Traces\<close>: trace.h and trace.cpp. \<open>Synthetic\<close>: providers/synthetic.cpp. \<open>HostProviders\<close>: providers/storage.cpp,
    windows.cpp and cuda.cpp. \<open>CudaLibrary\<close>: the search for the CUDA runtime library in cuda.cpp.
  \<^item> \<open>CommandText\<close>, \<open>CommandLine\<close>: cli/main.cpp, the option loops and one definition per command, with everything it prints.
  \<^item> \<open>Examples\<close>: examples/ and downstream/main.cpp, one definition per program, over the same machine and latencies.
    \<open>Benchmark\<close>: benchmarks/benchmark.cpp, over the readings of the clock.
  \<^item> \<open>Locks\<close>, \<open>Schedules\<close>: threads over mutexes and shared members, with a static check; \<open>RuntimeLocks\<close>: what every operation of
    runtime.cpp and of \<open>Subscription\<close> locks, reads and writes; \<open>PolicyRace\<close>: \<open>set_policy\<close> in its two critical steps.

  \<^bold>\<open>Laws and properties.\<close>

  \<^item> \<open>RefreshInv\<close>, \<open>RuntimeSafety\<close>: the invariant of the runtime state and its preservation by every operation; \<open>RefreshSpec\<close>:
    what each stage of a refresh leaves unchanged and adds; \<open>RuntimeProps\<close>: safety over all reachable states, no
    domain is lost silently, generations, event numbers, delivery, history; \<open>CrossTier\<close>: aggregation, the demotion rule,
    the exact list of announced events; \<open>ScoreBounds\<close>: scores of reachable snapshots are normalized.
  \<^item> \<open>Runs\<close>: sequences of refreshes, and the locale of a simulation in lockstep; \<open>DomainMachine\<close>: the runtime refines a product of
    independent machines, one per domain, so the levels it publishes are debounced and keep to the band of the thresholds.
    \<open>Emergency\<close>: exhaustion of a governed domain is published at once, except when reserves take the whole budget.
  \<^item> \<open>Anonymous\<close>: a refresh without the names of the providers; \<open>TraceReplay\<close>: a simulation in lockstep, by which the replay
    of a trace reproduces the original run when the providers were healthy, and what happens to a failure.
  \<^item> \<open>Hysteresis\<close>: soundness and liveness of the debouncer and the band of the closed loop; \<open>Trends\<close>: the window refines its
    specification and the estimate is bounded in spite of rounding; \<open>Events\<close>: a subscription is a bounded
    queue, first in first out, and what each overflow policy may lose.
  \<^item> \<open>JsonNumberLaws\<close>, \<open>JsonRoundTrip\<close>: the parser ends, returns values within its limits only, and inverts the serializer,
    the shortest decimal form of every binary64 number included; \<open>PolicyJsonLaws\<close>, \<open>SnapshotJsonLaws\<close>, \<open>WireText\<close>: round
    trips of the records, at the level of JSON values and of text; \<open>WireReaders\<close>: what is accepted is valid.
    \<open>PolicyText\<close>, \<open>TextLength\<close>: the same of policies, with a bound on the length of the text of a JSON value.
  \<^item> \<open>CommandLineLaws\<close>: the synthetic provider with the runtime over any number of refreshes (known levels, a generation that
    never falls), the simulation and the self-test; \<open>ProgramLaws\<close>: every complete command line ends with success or a message.
    \<open>ExampleLaws\<close>: every example ends, by an invariant of the loop that the examples share; \<open>ExampleLevels\<close>: the curves of the
    scenarios have a floor, so the examples with small budgets show an exhausted accelerator from the first snapshot to the last.
  \<^item> \<open>RuntimeLocks\<close>: data races are confined to five operations, and without callbacks that refresh or set the policy no interleaving
    gets stuck; \<open>RaceExamples\<close>: those races happen, and a callback that sets the policy blocks; \<open>PolicyRace\<close>: a
    refresh inside \<open>set_policy\<close> leads to a state that whole operations never reach. Callbacks nest to any finite depth, and a client may push to a subscription directly.
  \<^item> \<open>Synthetic\<close>, \<open>HostProviders\<close>: every observation accounts for its capacity; the identity of a device is its UUID.

  \<^bold>\<open>Conventions.\<close> A \<open>uint64_t\<close> is a 64-bit word and wraps. Undefined behaviour (a cast of a double out of range, the pop of
  an empty deque) is the value \<open>None\<close> of an option, apart from \<open>nullopt\<close>, which is the inner \<open>None\<close>: the reader of a policy
  returns \<open>Some None\<close> when it rejects. In \<open>Runtime\<close> and \<open>Refresh\<close> an operation is one atomic step; \<open>RuntimeLocks\<close> and \<open>PolicyRace\<close> say how
  far the mutexes make that true. The answers of the providers, the order of a hash table and the clock are the record
  \<open>World\<close>, an argument; those of the machine to the command line tool are the record \<open>Machine\<close>.
  Counters in JSON are exact up to \<open>2^53\<close>; the round trips say so by \<open>small\<close>, and \<open>number_ok\<close> excludes the one finite number,
  \<open>2^63\<close>, on which the serializer is undefined. \<open>wire_policy\<close>, \<open>wire_snapshot\<close> and \<open>wire_trace\<close> are what is read back: a provider status Partial
  comes back as Unavailable, the event classes of a snapshot and the freshness configuration of a policy are not kept.

  \<^bold>\<open>Termination and fuel.\<close> The parser recurses by the measure of the text that is left. The search of the shortest decimal
  form counts down from the exponent 309 with 1384 steps, down to -1074, where every binary64 number is exact: a result
  always exists (\<open>JsonNumberLaws\<close>). The limits of the parser are those of the source, depth 128, 4 MiB of input, 1 MiB per string.

  The exponent of a printed double is searched from 308 down with 632 steps, below the smallest double. The option loops, \<open>accepts\<close> and
  the draining of a queue recurse by the length of their input.

  \<^bold>\<open>Not modelled.\<close> What the operating system, the dynamic loader and the CUDA functions answer, which are parameters, and the casts
  of symbols to function pointers; the memory model below data races (a race is undefined behaviour, and not followed); what a
  provider does while it is sampled, other than its answer; the mutable accessors of \<open>Json\<close>, which the
  library does not use; the tests, which are assertions over the library, and the scripts of the build. What is left of the
  sources is includes, declarations, comments and platform switches.
\<close>

end
